(* ===== verification/Py_Base.thy ===== *)
theory Py_Base
  imports Complex_Main "HOL-Library.Char_ord" "HOL-Library.List_Lexorder"
    "HOL-Library.Product_Lexorder" "HOL-Library.Sublist"
begin

text \<open>
  The prelude of the development: what the Python sources use of their language and of its
  standard library. Exceptions are values of \<open>exn\<close>; JSON-like dynamic values are values of
  \<open>json\<close>; a function that reads and writes persistent state is a \<open>prog\<close>, a function from the
  state to a result (an exception or a value) and the new state, so that writes committed
  before an exception stay committed. The combinators follow Python's statements (sequencing,
  \<open>try/except\<close>, \<open>try/finally\<close>, \<open>for\<close>). The locale \<open>frame\<close> carries the relational
  reasoning about such programs that the component theories share.

  Strings are character lists, one \<open>char\<close> per code point below 256; case conversion is that of
  the ASCII letters, which is what the identifiers of the program are made of.
\<close>

section \<open>Rule collections of the development\<close>

named_theorems prog_simps \<open>unfolding of the program combinators\<close>
named_theorems py_simps \<open>computation rules of the Python value model\<close>

section \<open>Exceptions\<close>

datatype exn =
    ValueError string
  | ProtocolError string
  | ContextSnapshotUnavailable string
  | RuntimeError string
  | KeyError string
  | TypeError
  | AttributeError
  | UnboundLocalError
  | IntegrityError
  | DatabaseError
  | OSError string
  | StopIteration
  | ControlError string string int

text \<open>\<open>ProtocolError\<close> and \<open>ContextSnapshotUnavailable\<close> are declared as subclasses of
  \<open>ValueError\<close>; a handler for \<open>ValueError\<close> catches them too. The database errors are the two
  classes below \<open>sqlite3.Error\<close> the code distinguishes.\<close>

fun is_ValueError :: "exn \<Rightarrow> bool" where
  "is_ValueError (ValueError _) = True"
| "is_ValueError (ProtocolError _) = True"
| "is_ValueError (ContextSnapshotUnavailable _) = True"
| "is_ValueError _ = False"

fun is_sqlite_Error :: "exn \<Rightarrow> bool" where
  "is_sqlite_Error IntegrityError = True"
| "is_sqlite_Error DatabaseError = True"
| "is_sqlite_Error _ = False"

text \<open>\<open>str(exc)\<close>, for the exceptions whose text reaches a stored finding or a response.\<close>

fun exn_text :: "exn \<Rightarrow> string" where
  "exn_text (ValueError m) = m"
| "exn_text (ProtocolError m) = m"
| "exn_text (ContextSnapshotUnavailable m) = m"
| "exn_text (RuntimeError m) = m"
| "exn_text (KeyError k) = CHR 0x27 # k @ [CHR 0x27]"
| "exn_text (OSError m) = m"
| "exn_text (ControlError c m n) = m"
| "exn_text _ = []"

type_synonym 'a res = "exn + 'a"

definition rbind :: "'a res \<Rightarrow> ('a \<Rightarrow> 'b res) \<Rightarrow> 'b res" where
  "rbind r k = (case r of Inl e \<Rightarrow> Inl e | Inr x \<Rightarrow> k x)"

lemma rbind_simps [simp, prog_simps]:
  "rbind (Inl e) k = Inl e"
  "rbind (Inr x) k = k x"
  by (simp_all add: rbind_def)

lemma rbind_Inr_iff: "rbind r k = Inr y \<longleftrightarrow> (\<exists>x. r = Inr x \<and> k x = Inr y)"
  by (cases r) simp_all

definition guard :: "bool \<Rightarrow> exn \<Rightarrow> unit res" where
  "guard b e = (if b then Inr () else Inl e)"

lemma guard_simps [simp]:
  "guard True e = Inr ()"
  "guard False e = Inl e"
  by (simp_all add: guard_def)

lemma guard_Inr_iff: "guard b e = Inr u \<longleftrightarrow> b"
  by (simp add: guard_def)

section \<open>Sorting and filtering under a map\<close>

lemma map_insort_key:
  assumes "\<And>x. k' (f x) = k x"
  shows "map f (insort_key k x xs) = insort_key k' (f x) (map f xs)"
  by (induction xs) (simp_all add: assms)

lemma map_sort_key:
  assumes "\<And>x. k' (f x) = k x"
  shows "map f (sort_key k xs) = sort_key k' (map f xs)"
  by (induction xs) (simp_all add: sort_key_def map_insort_key [of k' f k, OF assms])

lemma map_filter_stable:
  assumes "\<And>x. P' (f x) = P x"
  shows "map f (filter P xs) = filter P' (map f xs)"
  using assms by (induction xs) auto

lemma find_SomeD: "find P xs = Some x \<Longrightarrow> x \<in> set xs \<and> P x"
  by (auto simp: find_Some_iff)

lemma insort_key_snoc_max:
  "\<forall>y \<in> set ys. k y \<le> k x \<Longrightarrow> k a \<le> k x \<Longrightarrow> insort_key k a (ys @ [x]) = insort_key k a ys @ [x]"
  by (induction ys) auto

lemma sort_key_snoc_max:
  "\<forall>y \<in> set ys. k y \<le> k x \<Longrightarrow> sort_key k (ys @ [x]) = sort_key k ys @ [x]"
  by (induction ys) (simp_all add: insort_key_snoc_max)

lemma distinct_map_sort_key: "distinct (map f (sort_key k xs)) \<longleftrightarrow> distinct (map f xs)"
  by (simp add: distinct_map)

lemma map_of_sort_key: "distinct (map fst xs) \<Longrightarrow> map_of (sort_key k xs) = map_of xs"
  by (subst map_of_inject_set) (simp_all add: distinct_map_sort_key)

section \<open>Programs over a persistent state\<close>

type_synonym ('s, 'a) prog = "'s \<Rightarrow> 'a res \<times> 's"

definition ret :: "'a \<Rightarrow> ('s, 'a) prog" where
  "ret x s = (Inr x, s)"

definition raise :: "exn \<Rightarrow> ('s, 'a) prog" where
  "raise e s = (Inl e, s)"

definition lift :: "'a res \<Rightarrow> ('s, 'a) prog" where
  "lift r s = (r, s)"

definition gets :: "('s \<Rightarrow> 'a) \<Rightarrow> ('s, 'a) prog" where
  "gets f s = (Inr (f s), s)"

definition modify :: "('s \<Rightarrow> 's) \<Rightarrow> ('s, unit) prog" where
  "modify f s = (Inr (), f s)"

definition bind :: "('s, 'a) prog \<Rightarrow> ('a \<Rightarrow> ('s, 'b) prog) \<Rightarrow> ('s, 'b) prog" where
  "bind m k s = (case m s of (Inl e, s') \<Rightarrow> (Inl e, s') | (Inr x, s') \<Rightarrow> k x s')"

definition seq :: "('s, 'a) prog \<Rightarrow> ('s, 'b) prog \<Rightarrow> ('s, 'b) prog" where
  "seq m k = bind m (\<lambda>_. k)"

text \<open>\<open>try: m except Exception as e: h e\<close>.\<close>

definition catch :: "('s, 'a) prog \<Rightarrow> (exn \<Rightarrow> ('s, 'a) prog) \<Rightarrow> ('s, 'a) prog" where
  "catch m h s = (case m s of (Inl e, s') \<Rightarrow> h e s' | (Inr x, s') \<Rightarrow> (Inr x, s'))"

text \<open>\<open>try: m finally: f\<close>: the result of \<open>m\<close>, unless \<open>f\<close> itself raises.\<close>

definition finalize :: "('s, 'a) prog \<Rightarrow> ('s, unit) prog \<Rightarrow> ('s, 'a) prog" where
  "finalize m f s = (case m s of (r, s') \<Rightarrow>
     (case f s' of (Inl e, s'') \<Rightarrow> (Inl e, s'') | (Inr _, s'') \<Rightarrow> (r, s'')))"

text \<open>The outcome of \<open>m\<close> as a value, for code whose handler continues in more than one way.\<close>

definition attempt :: "('s, 'a) prog \<Rightarrow> ('s, 'a res) prog" where
  "attempt m s = (case m s of (r, s') \<Rightarrow> (Inr r, s'))"

text \<open>\<open>for x in xs: acc = f acc x\<close>.\<close>

fun foldM :: "('b \<Rightarrow> 'a \<Rightarrow> ('s, 'b) prog) \<Rightarrow> 'b \<Rightarrow> 'a list \<Rightarrow> ('s, 'b) prog" where
  "foldM f acc [] = ret acc"
| "foldM f acc (x # xs) = bind (f acc x) (\<lambda>acc'. foldM f acc' xs)"

lemmas prog_defs [prog_simps] =
  ret_def raise_def lift_def gets_def modify_def bind_def seq_def catch_def finalize_def attempt_def

lemma if_app [prog_simps]: "(if b then m else n) s = (if b then m s else n s)"
  by simp

lemma bind_cases:
  assumes "bind m k s = (r, t)"
  obtains (error) e where "m s = (Inl e, t)" "r = Inl e"
    | (ok) x s' where "m s = (Inr x, s')" "k x s' = (r, t)"
  using assms by (auto simp: bind_def split: prod.splits sum.splits)

lemma bind_Inr:
  "bind m k s = (Inr y, t) \<longleftrightarrow> (\<exists>x s'. m s = (Inr x, s') \<and> k x s' = (Inr y, t))"
  by (auto simp: bind_def split: prod.splits sum.splits)

lemma seq_Inr:
  "seq m k s = (Inr y, t) \<longleftrightarrow> (\<exists>x s'. m s = (Inr x, s') \<and> k s' = (Inr y, t))"
  by (auto simp: seq_def bind_Inr)

lemma lift_Inr: "lift r s = (Inr x, t) \<longleftrightarrow> r = Inr x \<and> t = s"
  by (auto simp: lift_def)

lemma attempt_Inr: "attempt m s = (Inr r, t) \<longleftrightarrow> m s = (r, t)"
  by (auto simp: attempt_def split: prod.splits)

section \<open>Frames: what a program may do to its state\<close>

definition confined :: "('s \<Rightarrow> 's \<Rightarrow> bool) \<Rightarrow> ('s, 'a) prog \<Rightarrow> bool" where
  "confined R m \<longleftrightarrow> (\<forall>s. R s (snd (m s)))"

lemma confinedD: "confined R m \<Longrightarrow> m s = (r, t) \<Longrightarrow> R s t"
  by (auto simp: confined_def dest: spec [of _ s])

lemma confinedI: "(\<And>s r t. m s = (r, t) \<Longrightarrow> R s t) \<Longrightarrow> confined R m"
  by (auto simp: confined_def) (metis prod.collapse)

text \<open>
  A frame is a reflexive and transitive relation between the state before and the state after.
  Such relations are closed under every combinator of the language, so that a property of a
  whole handler reduces to the property of its primitive writes.
\<close>

locale frame =
  fixes R :: "'s \<Rightarrow> 's \<Rightarrow> bool"
  assumes frame_refl: "R s s"
    and frame_trans: "R s t \<Longrightarrow> R t u \<Longrightarrow> R s u"
begin

lemma w_ret: "confined R (ret x)"
  by (simp add: confined_def ret_def frame_refl)

lemma w_raise: "confined R (raise e)"
  by (simp add: confined_def raise_def frame_refl)

lemma w_lift: "confined R (lift r)"
  by (simp add: confined_def lift_def frame_refl)

lemma w_gets: "confined R (gets f)"
  by (simp add: confined_def gets_def frame_refl)

lemma w_modify: "(\<And>s. R s (f s)) \<Longrightarrow> confined R (modify f)"
  by (simp add: confined_def modify_def)

lemma w_bind:
  assumes "confined R m" and "\<And>x. confined R (k x)"
  shows "confined R (bind m k)"
proof (rule confinedI)
  fix s r t assume "bind m k s = (r, t)"
  then show "R s t"
    by (cases rule: bind_cases)
      (use assms in \<open>auto dest: confinedD intro: frame_trans\<close>)
qed

lemma w_seq: "confined R m \<Longrightarrow> confined R k \<Longrightarrow> confined R (seq m k)"
  unfolding seq_def by (rule w_bind)

lemma w_catch:
  assumes "confined R m" and "\<And>e. confined R (h e)"
  shows "confined R (catch m h)"
proof (rule confinedI)
  fix s r t assume run: "catch m h s = (r, t)"
  obtain r' s' where m: "m s = (r', s')" by (cases "m s")
  with assms(1) have "R s s'" by (rule confinedD)
  moreover have "R s' t"
    using run m assms(2) by (cases r') (auto simp: catch_def frame_refl dest: confinedD)
  ultimately show "R s t" by (rule frame_trans)
qed

lemma w_finalize:
  assumes "confined R m" and "confined R f"
  shows "confined R (finalize m f)"
proof (rule confinedI)
  fix s r t assume run: "finalize m f s = (r, t)"
  obtain r' s' where m: "m s = (r', s')" by (cases "m s")
  obtain u s'' where f: "f s' = (u, s'')" by (cases "f s'")
  from run m f have "t = s''" by (cases u) (auto simp: finalize_def)
  with confinedD [OF assms(1) m] confinedD [OF assms(2) f] show "R s t"
    by (auto intro: frame_trans)
qed

lemma w_attempt: "confined R m \<Longrightarrow> confined R (attempt m)"
  by (auto simp: confined_def attempt_def split: prod.split) (metis snd_conv)

lemma w_if: "confined R m \<Longrightarrow> confined R n \<Longrightarrow> confined R (if b then m else n)"
  by simp

lemma w_option:
  "confined R n \<Longrightarrow> (\<And>x. confined R (f x)) \<Longrightarrow> confined R (case o' of None \<Rightarrow> n | Some x \<Rightarrow> f x)"
  by (cases o') simp_all

lemma w_sum:
  "(\<And>x. confined R (f x)) \<Longrightarrow> (\<And>y. confined R (g y)) \<Longrightarrow>
   confined R (case v of Inl x \<Rightarrow> f x | Inr y \<Rightarrow> g y)"
  by (cases v) simp_all

lemma w_prod: "(\<And>x y. confined R (f x y)) \<Longrightarrow> confined R (case p of (x, y) \<Rightarrow> f x y)"
  by (cases p) simp

lemma w_let: "(\<And>x. confined R (f x)) \<Longrightarrow> confined R (let x = v in f x)"
  by simp

lemma w_foldM:
  assumes "\<And>acc x. confined R (f acc x)"
  shows "confined R (foldM f acc xs)"
  by (induction xs arbitrary: acc) (auto intro: w_ret w_bind assms)

text \<open>What a handler and the code after the \<open>try\<close> statement do once its body is over.\<close>

lemma after_try:
  assumes "\<And>e. confined R (h e)" and "\<And>x. confined R (k x)" and "m s = (q, u)" and "bind (catch m h) k s = (r, t)"
  shows "R u t"
proof (cases q)
  case (Inl e)
  obtain q' v where h: "h e u = (q', v)" by (cases "h e u")
  from assms(1) h have "R u v" by (rule confinedD)
  moreover have "R v t"
    using assms(4) assms(3) Inl h by (cases q') (auto simp: bind_def catch_def frame_refl dest: confinedD [OF assms(2)])
  ultimately show ?thesis by (rule frame_trans)
next
  case (Inr x)
  with assms(3,4) have "k x u = (r, t)" by (simp add: bind_def catch_def)
  with assms(2) show ?thesis by (rule confinedD)
qed

lemmas frame_rules =
  w_ret w_raise w_lift w_gets w_bind w_seq w_catch w_finalize w_attempt w_if w_option w_sum w_prod
  w_let w_foldM

end

text \<open>Preservation of a state invariant is the frame \<open>I s \<longrightarrow> I t\<close>.\<close>

definition keeps :: "('s \<Rightarrow> bool) \<Rightarrow> 's \<Rightarrow> 's \<Rightarrow> bool" where
  "keeps I s t \<longleftrightarrow> (I s \<longrightarrow> I t)"

interpretation kp: frame "keeps I" for I :: "'s \<Rightarrow> bool"
  by unfold_locales (simp_all add: keeps_def)

lemma confined_keepsD: "confined (keeps I) m \<Longrightarrow> m s = (r, t) \<Longrightarrow> I s \<Longrightarrow> I t"
  by (auto simp: keeps_def dest: confinedD)

text \<open>A field of the state a program does not write.\<close>

definition same :: "('s \<Rightarrow> 'a) \<Rightarrow> 's \<Rightarrow> 's \<Rightarrow> bool" where
  "same f s t \<longleftrightarrow> f t = f s"

interpretation sm: frame "same f" for f :: "'s \<Rightarrow> 'a"
  by unfold_locales (simp_all add: same_def)

lemma confined_sameD: "confined (same f) m \<Longrightarrow> m s = (r, t) \<Longrightarrow> f t = f s"
  by (auto simp: same_def dest: confinedD)

lemma confined_mono: "confined R m \<Longrightarrow> (\<And>s t. R s t \<Longrightarrow> Q s t) \<Longrightarrow> confined Q m"
  by (simp add: confined_def)

text \<open>A table a program only appends to.\<close>

definition grows :: "('s \<Rightarrow> 'a list) \<Rightarrow> 's \<Rightarrow> 's \<Rightarrow> bool" where
  "grows f s t \<longleftrightarrow> prefix (f s) (f t)"

interpretation gr: frame "grows f" for f :: "'s \<Rightarrow> 'a list"
  by unfold_locales (auto simp: grows_def)

end
