(* ===== verification/Py_Values.thy ===== *)
theory Py_Values
  imports Py_Base
begin

text \<open>
  Dynamic values: the JSON documents, dictionaries and strings the sources pass around, with
  Python's notions of truth, equality, membership and text. The record \<open>pylib\<close> collects the
  functions of other packages the program calls (hashing, signatures, ISO timestamps, IP address
  parsing, the clock, random identifiers); every definition that uses one takes the record as an
  argument, so the theorems hold for any behaviour of those functions.
\<close>

section \<open>Strings\<close>

abbreviation code :: "char \<Rightarrow> nat" where
  "code c \<equiv> of_char c"

definition is_upper_az :: "char \<Rightarrow> bool" where
  "is_upper_az c \<longleftrightarrow> 65 \<le> code c \<and> code c \<le> 90"

definition is_lower_az :: "char \<Rightarrow> bool" where
  "is_lower_az c \<longleftrightarrow> 97 \<le> code c \<and> code c \<le> 122"

definition is_digit :: "char \<Rightarrow> bool" where
  "is_digit c \<longleftrightarrow> 48 \<le> code c \<and> code c \<le> 57"

definition is_alnum :: "char \<Rightarrow> bool" where
  "is_alnum c \<longleftrightarrow> is_upper_az c \<or> is_lower_az c \<or> is_digit c"

definition is_hex_lower :: "char \<Rightarrow> bool" where
  "is_hex_lower c \<longleftrightarrow> is_digit c \<or> (97 \<le> code c \<and> code c \<le> 102)"

definition is_space :: "char \<Rightarrow> bool" where
  "is_space c \<longleftrightarrow> code c \<in> {9, 10, 11, 12, 13, 28, 29, 30, 31, 32, 133, 160}"

definition lower_char :: "char \<Rightarrow> char" where
  "lower_char c = (if is_upper_az c then char_of (code c + 32) else c)"

definition lower :: "string \<Rightarrow> string" where
  "lower s = map lower_char s"

definition strip :: "string \<Rightarrow> string" where
  "strip s = rev (dropWhile is_space (rev (dropWhile is_space s)))"

definition startswith :: "string \<Rightarrow> string \<Rightarrow> bool" where
  "startswith s p \<longleftrightarrow> take (length p) s = p"

fun contains_str :: "string \<Rightarrow> string \<Rightarrow> bool" where
  "contains_str p [] = (p = [])"
| "contains_str p (c # s) = (startswith (c # s) p \<or> contains_str p s)"

definition removeprefix :: "string \<Rightarrow> string \<Rightarrow> string" where
  "removeprefix s p = (if startswith s p then drop (length p) s else s)"

text \<open>\<open>value.replace("Z", "+00:00")\<close>.\<close>

definition replace_Z :: "string \<Rightarrow> string" where
  "replace_Z s = concat (map (\<lambda>c. if c = CHR ''Z'' then ''+00:00'' else [c]) s)"

text \<open>
  The identifier patterns of the sources all have one shape: one character of a first class, then
  at most \<open>n\<close> characters of a second (\<open>re.fullmatch\<close>, so the whole string).
\<close>

definition ident_match :: "(char \<Rightarrow> bool) \<Rightarrow> (char \<Rightarrow> bool) \<Rightarrow> nat \<Rightarrow> string \<Rightarrow> bool" where
  "ident_match first rest n s = (case s of [] \<Rightarrow> False
     | c # cs \<Rightarrow> first c \<and> length cs \<le> n \<and> list_all rest cs)"

definition class_match :: "(char \<Rightarrow> bool) \<Rightarrow> nat \<Rightarrow> nat \<Rightarrow> string \<Rightarrow> bool" where
  "class_match p lo hi s \<longleftrightarrow> lo \<le> length s \<and> length s \<le> hi \<and> list_all p s"

definition in_chars :: "string \<Rightarrow> char \<Rightarrow> bool" where
  "in_chars cs c \<longleftrightarrow> c \<in> set cs"

fun nat_digits :: "nat \<Rightarrow> string" where
  "nat_digits n = (if n < 10 then [char_of (48 + n)]
     else nat_digits (n div 10) @ [char_of (48 + n mod 10)])"

declare nat_digits.simps [simp del]

definition int_text :: "int \<Rightarrow> string" where
  "int_text i = (if i < 0 then CHR ''-'' # nat_digits (nat (- i)) else nat_digits (nat i))"

lemma nat_digits_nonempty [simp]: "nat_digits n \<noteq> []"
  by (subst nat_digits.simps) simp

lemma startswith_append [simp]: "startswith (p @ s) p"
  by (simp add: startswith_def)

lemma removeprefix_append [simp]: "removeprefix (p @ s) p = s"
  by (simp add: removeprefix_def)

section \<open>JSON values\<close>

datatype json =
    JNull
  | JBool bool
  | JInt int
  | JFloat rat
  | JStr string
  | JList "json list"
  | JObj "(string \<times> json) list"

text \<open>A dictionary is an association list with distinct keys, in insertion order.\<close>

fun is_dict :: "json \<Rightarrow> bool" where
  "is_dict (JObj _) = True"
| "is_dict _ = False"

fun is_list :: "json \<Rightarrow> bool" where
  "is_list (JList _) = True"
| "is_list _ = False"

fun is_str :: "json \<Rightarrow> bool" where
  "is_str (JStr _) = True"
| "is_str _ = False"

text \<open>\<open>isinstance(v, int)\<close> holds of booleans, \<open>type(v) is int\<close> does not.\<close>

fun isinstance_int :: "json \<Rightarrow> bool" where
  "isinstance_int (JInt _) = True"
| "isinstance_int (JBool _) = True"
| "isinstance_int _ = False"

fun type_is_int :: "json \<Rightarrow> bool" where
  "type_is_int (JInt _) = True"
| "type_is_int _ = False"

fun int_value :: "json \<Rightarrow> int" where
  "int_value (JInt i) = i"
| "int_value (JBool b) = (if b then 1 else 0)"
| "int_value _ = 0"

fun str_value :: "json \<Rightarrow> string" where
  "str_value (JStr s) = s"
| "str_value _ = []"

fun items :: "json \<Rightarrow> (string \<times> json) list" where
  "items (JObj kvs) = kvs"
| "items _ = []"

fun elems :: "json \<Rightarrow> json list" where
  "elems (JList xs) = xs"
| "elems _ = []"

fun truthy :: "json \<Rightarrow> bool" where
  "truthy JNull = False"
| "truthy (JBool b) = b"
| "truthy (JInt i) = (i \<noteq> 0)"
| "truthy (JFloat r) = (r \<noteq> 0)"
| "truthy (JStr s) = (s \<noteq> [])"
| "truthy (JList xs) = (xs \<noteq> [])"
| "truthy (JObj kvs) = (kvs \<noteq> [])"

text \<open>\<open>a or b\<close>.\<close>

definition py_or :: "json \<Rightarrow> json \<Rightarrow> json" where
  "py_or a b = (if truthy a then a else b)"

definition get_default :: "json \<Rightarrow> string \<Rightarrow> json \<Rightarrow> json" where
  "get_default d k v = (case map_of (items d) k of None \<Rightarrow> v | Some x \<Rightarrow> x)"

abbreviation get :: "json \<Rightarrow> string \<Rightarrow> json" where
  "get d k \<equiv> get_default d k JNull"

text \<open>Membership in a set of strings; a list or a dictionary cannot be hashed.\<close>

fun in_str_set :: "json \<Rightarrow> string list \<Rightarrow> bool res" where
  "in_str_set (JStr s) xs = Inr (s \<in> set xs)"
| "in_str_set (JList _) xs = Inl TypeError"
| "in_str_set (JObj _) xs = Inl TypeError"
| "in_str_set _ xs = Inr False"

text \<open>\<open>for x in v\<close>.\<close>

fun py_iter :: "json \<Rightarrow> json list res" where
  "py_iter (JList xs) = Inr xs"
| "py_iter (JObj kvs) = Inr (map (\<lambda>(k, v). JStr k) kvs)"
| "py_iter (JStr s) = Inr (map (\<lambda>c. JStr [c]) s)"
| "py_iter _ = Inl TypeError"

text \<open>\<open>v.get(k)\<close>: only dictionaries have the method.\<close>

definition get_attr :: "json \<Rightarrow> string \<Rightarrow> json res" where
  "get_attr d k = (if is_dict d then Inr (get d k) else Inl AttributeError)"

text \<open>\<open>d[k]\<close> on a value that may not be a dictionary.\<close>

definition getitem :: "json \<Rightarrow> string \<Rightarrow> json res" where
  "getitem d k = (if is_dict d
     then (case map_of (items d) k of None \<Rightarrow> Inl (KeyError k) | Some x \<Rightarrow> Inr x)
     else Inl TypeError)"

definition keyset :: "json \<Rightarrow> string set" where
  "keyset d = set (map fst (items d))"

text \<open>
  Equality of Python values: numbers compare by value whatever their type, dictionaries
  regardless of the order of their keys. Two values are equal when their normal forms are.
\<close>

primrec canon :: "json \<Rightarrow> json" where
  "canon JNull = JNull"
| "canon (JBool b) = JFloat (if b then 1 else 0)"
| "canon (JInt i) = JFloat (of_int i)"
| "canon (JFloat r) = JFloat r"
| "canon (JStr s) = JStr s"
| "canon (JList xs) = JList (map canon xs)"
| "canon (JObj kvs) = JObj (sort_key fst (map (map_prod id canon) kvs))"

definition py_eq :: "json \<Rightarrow> json \<Rightarrow> bool" where
  "py_eq a b \<longleftrightarrow> canon a = canon b"

lemma py_eq_refl [simp]: "py_eq a a"
  by (simp add: py_eq_def)

lemma py_eq_sym: "py_eq a b \<Longrightarrow> py_eq b a"
  by (simp add: py_eq_def)

lemma py_eq_trans: "py_eq a b \<Longrightarrow> py_eq b c \<Longrightarrow> py_eq a c"
  by (simp add: py_eq_def)

lemma py_eq_JStr [simp]: "py_eq (JStr s) b \<longleftrightarrow> b = JStr s" "py_eq b (JStr s) \<longleftrightarrow> b = JStr s"
  by (cases b; auto simp: py_eq_def)+

lemma py_eq_JNull [simp]: "py_eq JNull b \<longleftrightarrow> b = JNull" "py_eq b JNull \<longleftrightarrow> b = JNull"
  by (cases b; auto simp: py_eq_def)+

lemma py_eq_JInt_JInt [simp]: "py_eq (JInt i) (JInt j) \<longleftrightarrow> i = j"
  by (simp add: py_eq_def)

text \<open>\<open>d[k] = v\<close>: an existing key keeps its place, a new one goes to the end.\<close>

fun put :: "string \<Rightarrow> json \<Rightarrow> (string \<times> json) list \<Rightarrow> (string \<times> json) list" where
  "put k v [] = [(k, v)]"
| "put k v ((k', v') # d) = (if k = k' then (k, v) # d else (k', v') # put k v d)"

lemma map_of_put [simp]: "map_of (put k v d) = (map_of d)(k \<mapsto> v)"
  by (induction d) auto

lemma fst_set_put [simp]: "fst ` set (put k v d) = insert k (fst ` set d)"
  by (induction k v d rule: put.induct) (simp_all add: insert_commute)

lemma distinct_put: "distinct (map fst d) \<Longrightarrow> distinct (map fst (put k v d))"
  by (induction k v d rule: put.induct) simp_all

definition set_field :: "json \<Rightarrow> string \<Rightarrow> json \<Rightarrow> json" where
  "set_field d k v = JObj (put k v (items d))"

lemma get_set_field [simp]:
  "get_default (set_field d k v) k' w = (if k' = k then v else get_default d k' w)"
  by (simp add: get_default_def set_field_def)

lemma keyset_set_field [simp]: "keyset (set_field d k v) = insert k (keyset d)"
  by (simp add: keyset_def set_field_def)

section \<open>Canonical text of a JSON value\<close>

definition join :: "string \<Rightarrow> string list \<Rightarrow> string" where
  "join sep xs = (case xs of [] \<Rightarrow> [] | y # ys \<Rightarrow> y @ concat (map (\<lambda>s. sep @ s) ys))"

definition hex_digit :: "nat \<Rightarrow> char" where
  "hex_digit n = (if n < 10 then char_of (48 + n) else char_of (87 + n))"

text \<open>The escapes of \<open>json.dumps\<close>; with \<open>ascii\<close> also every character above 126.\<close>

definition escape_char :: "bool \<Rightarrow> char \<Rightarrow> string" where
  "escape_char ascii c = (let n = code c in
     if n = 34 then [CHR 0x5C, CHR 0x22]
     else if n = 92 then [CHR 0x5C, CHR 0x5C]
     else if n = 10 then [CHR 0x5C, CHR ''n'']
     else if n = 13 then [CHR 0x5C, CHR ''r'']
     else if n = 9 then [CHR 0x5C, CHR ''t'']
     else if n = 8 then [CHR 0x5C, CHR ''b'']
     else if n = 12 then [CHR 0x5C, CHR ''f'']
     else if n < 32 \<or> (ascii \<and> 126 < n)
       then [CHR 0x5C, CHR ''u'', CHR ''0'', CHR ''0'', hex_digit (n div 16), hex_digit (n mod 16)]
     else [c])"

definition quote :: "bool \<Rightarrow> string \<Rightarrow> string" where
  "quote ascii s = CHR 0x22 # concat (map (escape_char ascii) s) @ [CHR 0x22]"

text \<open>\<open>json.dumps(v, sort_keys=True, separators=(",", ":"), ensure_ascii=ascii)\<close>.\<close>

primrec dumps :: "(rat \<Rightarrow> string) \<Rightarrow> bool \<Rightarrow> json \<Rightarrow> string" where
  "dumps fr a JNull = ''null''"
| "dumps fr a (JBool b) = (if b then ''true'' else ''false'')"
| "dumps fr a (JInt i) = int_text i"
| "dumps fr a (JFloat r) = fr r"
| "dumps fr a (JStr s) = quote a s"
| "dumps fr a (JList xs) = CHR 0x5B # join '','' (map (dumps fr a) xs) @ [CHR 0x5D]"
| "dumps fr a (JObj kvs) = CHR 0x7B # join '',''
     (map (\<lambda>(k, t). quote a k @ '':'' @ t) (sort_key fst (map (map_prod id (dumps fr a)) kvs)))
     @ [CHR 0x7D]"

section \<open>JSON text columns\<close>

text \<open>
  A TEXT column that holds JSON is modelled by the document it decodes to: \<open>Doc j\<close> is text
  written by \<open>json.dumps\<close>, \<open>Blank\<close> the empty text, \<open>Bad\<close> text that does not decode.
\<close>

datatype jtext = Doc json | Blank | Bad string

fun loads :: "jtext \<Rightarrow> json res" where
  "loads (Doc j) = Inr j"
| "loads Blank = Inl (ValueError ''JSONDecodeError'')"
| "loads (Bad _) = Inl (ValueError ''JSONDecodeError'')"

text \<open>\<open>json.loads(str(column or "{}"))\<close>.\<close>

fun loads_or_empty :: "jtext \<Rightarrow> json res" where
  "loads_or_empty Blank = Inr (JObj [])"
| "loads_or_empty t = loads t"

text \<open>The same inside \<open>try ... except (TypeError, ValueError, JSONDecodeError): {}\<close>.\<close>

fun loads_or_dict :: "jtext \<Rightarrow> json" where
  "loads_or_dict (Doc j) = j"
| "loads_or_dict _ = JObj []"

section \<open>Functions of other packages\<close>

text \<open>Instants are microseconds since the epoch, in UTC. \<open>datetime.fromisoformat\<close> gives a value
  with a time zone (\<open>Aware\<close>, converted to UTC) or without (\<open>Naive\<close>).\<close>

datatype stamp = Naive int | Aware int

text \<open>An address of \<open>ipaddress\<close>: its version and its value.\<close>

datatype ip = IPv4 int | IPv6 int

fun ip_version :: "ip \<Rightarrow> nat" where
  "ip_version (IPv4 _) = 4"
| "ip_version (IPv6 _) = 6"

fun ip_width :: "ip \<Rightarrow> nat" where
  "ip_width (IPv4 _) = 32"
| "ip_width (IPv6 _) = 128"

fun ip_value :: "ip \<Rightarrow> int" where
  "ip_value (IPv4 n) = n"
| "ip_value (IPv6 n) = n"

text \<open>A network: its base address and its prefix length.\<close>

record ip_net =
  net_base :: ip
  prefixlen :: nat

text \<open>\<open>address in network\<close>: same version, and equal up to the host bits.\<close>

definition in_net :: "ip \<Rightarrow> ip_net \<Rightarrow> bool" where
  "in_net a n \<longleftrightarrow> ip_version a = ip_version (net_base n) \<and>
     ip_value a div 2 ^ (ip_width a - prefixlen n) =
     ip_value (net_base n) div 2 ^ (ip_width a - prefixlen n)"

record pylib =
  float_repr :: "rat \<Rightarrow> string"
  repr_of :: "json \<Rightarrow> string"
  sha256 :: "string \<Rightarrow> string"
  fromiso :: "string \<Rightarrow> stamp option"
  isoz :: "int \<Rightarrow> string"
  iso_utc :: "int \<Rightarrow> string"
  now_us :: "nat \<Rightarrow> int"
  uuid4 :: "nat \<Rightarrow> string"
  ip_address :: "json \<Rightarrow> ip option"
  ip_text :: "ip \<Rightarrow> string"
  ip_network :: "string \<Rightarrow> ip_net option"
  ed25519_sign :: "string \<Rightarrow> string \<Rightarrow> string"
  ed25519_verify :: "string \<Rightarrow> string \<Rightarrow> string \<Rightarrow> bool"
  json_loads :: "string \<Rightarrow> json option"
  uuid_ok :: "string \<Rightarrow> bool"
  int_of_str :: "string \<Rightarrow> int option"

text \<open>\<open>str(v)\<close>.\<close>

fun py_str :: "pylib \<Rightarrow> json \<Rightarrow> string" where
  "py_str L JNull = ''None''"
| "py_str L (JBool b) = (if b then ''True'' else ''False'')"
| "py_str L (JInt i) = int_text i"
| "py_str L (JFloat r) = float_repr L r"
| "py_str L (JStr s) = s"
| "py_str L (JList xs) = repr_of L (JList xs)"
| "py_str L (JObj kvs) = repr_of L (JObj kvs)"

text \<open>\<open>str(v or "")\<close>.\<close>

definition str_or_empty :: "pylib \<Rightarrow> json \<Rightarrow> string" where
  "str_or_empty L v = (if truthy v then py_str L v else [])"

lemma str_or_empty_JStr [simp]: "str_or_empty L (JStr s) = s"
  by (simp add: str_or_empty_def)

lemma str_or_empty_JNull [simp]: "str_or_empty L JNull = []"
  by (simp add: str_or_empty_def)

text \<open>\<open>int(v)\<close>.\<close>

fun py_int :: "pylib \<Rightarrow> json \<Rightarrow> int res" where
  "py_int L (JInt i) = Inr i"
| "py_int L (JBool b) = Inr (if b then 1 else 0)"
| "py_int L (JFloat r) = Inr (if r < 0 then \<lceil>r\<rceil> else \<lfloor>r\<rfloor>)"
| "py_int L (JStr s) = (case int_of_str L s of
     None \<Rightarrow> Inl (ValueError ''invalid literal for int()'') | Some i \<Rightarrow> Inr i)"
| "py_int L _ = Inl TypeError"

definition stamp_utc :: "stamp \<Rightarrow> int" where
  "stamp_utc t = (case t of Naive n \<Rightarrow> n | Aware n \<Rightarrow> n)"

fun is_aware :: "stamp \<Rightarrow> bool" where
  "is_aware (Aware _) = True"
| "is_aware (Naive _) = False"

definition second :: int where
  "second = 1000000"

section \<open>A concrete library for evaluation\<close>

text \<open>
  An instance of \<open>pylib\<close> that the witnesses evaluate: IPv4 dotted quads without a prefix, a
  timestamp written as the letter T followed by digits (seconds, in UTC) or U or V followed by microseconds after
  or before the epoch, a clock that reads the number of
  seconds given, and symbolic hashes and signatures.
\<close>

fun digits_value :: "nat \<Rightarrow> string \<Rightarrow> nat option" where
  "digits_value acc [] = Some acc"
| "digits_value acc (c # cs) =
     (if is_digit c then digits_value (10 * acc + (code c - 48)) cs else None)"

definition parse_nat :: "string \<Rightarrow> nat option" where
  "parse_nat s = (if s = [] then None else digits_value 0 s)"

fun split_on :: "char \<Rightarrow> string \<Rightarrow> string list" where
  "split_on d [] = [[]]"
| "split_on d (c # cs) = (if c = d then [] # split_on d cs
     else (case split_on d cs of [] \<Rightarrow> [[c]] | w # ws \<Rightarrow> (c # w) # ws))"

definition parse_octet :: "string \<Rightarrow> nat option" where
  "parse_octet s = (case parse_nat s of None \<Rightarrow> None
     | Some n \<Rightarrow> if length s \<le> 3 \<and> n \<le> 255 \<and> (length s = 1 \<or> hd s \<noteq> CHR ''0'') then Some n else None)"

definition parse_ipv4 :: "string \<Rightarrow> ip option" where
  "parse_ipv4 s = (case map parse_octet (split_on CHR ''.'' s) of
     [Some a, Some b, Some c, Some d] \<Rightarrow> Some (IPv4 (((int a * 256 + int b) * 256 + int c) * 256 + int d))
   | _ \<Rightarrow> None)"

definition parse_net4 :: "string \<Rightarrow> ip_net option" where
  "parse_net4 s = (case split_on CHR ''/'' s of
     [a] \<Rightarrow> map_option (\<lambda>i. \<lparr>net_base = i, prefixlen = 32\<rparr>) (parse_ipv4 a)
   | [a, p] \<Rightarrow> (case (parse_ipv4 a, parse_nat p) of
        (Some i, Some n) \<Rightarrow> if n \<le> 32 then Some \<lparr>net_base = i, prefixlen = n\<rparr> else None
      | _ \<Rightarrow> None)
   | _ \<Rightarrow> None)"

definition ipv4_text :: "ip \<Rightarrow> string" where
  "ipv4_text i = (let n = ip_value i in
     nat_digits (nat (n div 16777216)) @ ''.'' @ nat_digits (nat (n div 65536 mod 256)) @ ''.'' @
     nat_digits (nat (n div 256 mod 256)) @ ''.'' @ nat_digits (nat (n mod 256)))"

definition demo_fromiso :: "string \<Rightarrow> stamp option" where
  "demo_fromiso s = (case s of [] \<Rightarrow> None
     | c # cs \<Rightarrow> if c = CHR ''T''
         then map_option (\<lambda>n. Aware (second * int n)) (parse_nat cs)
       else if c = CHR ''U'' then map_option (\<lambda>n. Aware (int n)) (parse_nat cs)
       else if c = CHR ''V'' then map_option (\<lambda>n. Aware (- int n)) (parse_nat cs) else None)"

definition demo_iso_utc :: "int \<Rightarrow> string" where
  "demo_iso_utc t = (if t < 0 then CHR ''V'' # nat_digits (nat (- t))
     else if t mod second = 0 then CHR ''T'' # nat_digits (nat (t div second)) else CHR ''U'' # nat_digits (nat t))"

end
