(* ===== verification/Canonical_Json.thy ===== *)
theory Canonical_Json
  imports Py_Values
begin

text \<open>
  The canonical JSON text that every digest and signature of the broker is computed over
  (\<open>json.dumps\<close> with sorted keys and compact separators) determines the value it was made from, up
  to the order of keys. The proof is by a decoder: it reads the canonical text of any value without
  floating-point numbers back, whatever follows the text. Two different plans, envelopes or audit
  records therefore never have the same canonical bytes, and a digest can only fail to tell them
  apart by a collision of the hash function.
\<close>

section \<open>Values in key order\<close>

primrec sortkeys :: "json \<Rightarrow> json" where
  "sortkeys JNull = JNull"
| "sortkeys (JBool b) = JBool b"
| "sortkeys (JInt i) = JInt i"
| "sortkeys (JFloat r) = JFloat r"
| "sortkeys (JStr s) = JStr s"
| "sortkeys (JList xs) = JList (map sortkeys xs)"
| "sortkeys (JObj kvs) = JObj (sort_key fst (map (map_prod id sortkeys) kvs))"

primrec float_free :: "json \<Rightarrow> bool" where
  "float_free JNull = True"
| "float_free (JBool b) = True"
| "float_free (JInt i) = True"
| "float_free (JFloat r) = False"
| "float_free (JStr s) = True"
| "float_free (JList xs) = list_all id (map float_free xs)"
| "float_free (JObj kvs) = list_all snd (map (map_prod id float_free) kvs)"

text \<open>The text of a value whose keys are already in order.\<close>

primrec enc :: "bool \<Rightarrow> json \<Rightarrow> string" where
  "enc a JNull = ''null''"
| "enc a (JBool b) = (if b then ''true'' else ''false'')"
| "enc a (JInt i) = int_text i"
| "enc a (JFloat r) = []"
| "enc a (JStr s) = quote a s"
| "enc a (JList xs) = CHR 0x5B # join '','' (map (enc a) xs) @ [CHR 0x5D]"
| "enc a (JObj kvs) = CHR 0x7B # join '',''
     (map (\<lambda>(k, t). quote a k @ '':'' @ t) (map (map_prod id (enc a)) kvs)) @ [CHR 0x7D]"

lemma join_single [simp]: "join sep [x] = x"
  by (simp add: join_def)

lemma join_Cons: "join sep (x # y # zs) = x @ sep @ join sep (y # zs)"
  by (simp add: join_def)

lemma dumps_enc: "float_free v \<Longrightarrow> dumps fr a v = enc a (sortkeys v)"
proof (induction v)
  case (JObj kvs)
  have "map (map_prod id (dumps fr a)) kvs = map (map_prod id (enc a)) (map (map_prod id sortkeys) kvs)"
    using JObj by (force simp: list_all_iff)
  then have "sort_key fst (map (map_prod id (dumps fr a)) kvs)
      = map (map_prod id (enc a)) (sort_key fst (map (map_prod id sortkeys) kvs))"
    by (simp only: map_sort_key [where k' = fst and f = "map_prod id (enc a)" and k = fst]
        fst_map_prod id_apply)
  then show ?case by (simp only: dumps.simps sortkeys.simps enc.simps)
next
  case (JList xs)
  then have "map (dumps fr a) xs = map (enc a) (map sortkeys xs)" by (simp add: list_all_iff)
  then show ?case by (simp only: dumps.simps sortkeys.simps enc.simps)
qed simp_all

section \<open>A decoder\<close>

fun hex_value :: "char \<Rightarrow> nat" where
  "hex_value c = (if code c < 58 then code c - 48 else code c - 87)"

fun p_chars :: "string \<Rightarrow> (string \<times> string) option" where
  "p_chars [] = None"
| "p_chars (c # cs) =
     (if c = CHR 0x22 then Some ([], cs)
      else if c = CHR 0x5C then (case cs of
          [] \<Rightarrow> None
        | d # ds \<Rightarrow>
            if d = CHR ''u'' then (case ds of
                z1 # z2 # h1 # h2 # es \<Rightarrow>
                  map_option (\<lambda>(x, r). (char_of (16 * hex_value h1 + hex_value h2) # x, r)) (p_chars es)
              | _ \<Rightarrow> None)
            else map_option (\<lambda>(x, r). ((if d = CHR ''n'' then CHR 0x0A else if d = CHR ''r'' then CHR 0x0D
                else if d = CHR ''t'' then CHR 0x09 else if d = CHR ''b'' then CHR 0x08
                else if d = CHR ''f'' then CHR 0x0C else d) # x, r)) (p_chars ds))
      else map_option (\<lambda>(x, r). (c # x, r)) (p_chars cs))"

declare p_chars.simps [simp del]

definition p_num :: "string \<Rightarrow> (json \<times> string) option" where
  "p_num s = (let neg = (s \<noteq> [] \<and> hd s = CHR ''-''); b = (if neg then tl s else s);
     ds = takeWhile is_digit b in
     case parse_nat ds of None \<Rightarrow> None
     | Some n \<Rightarrow> Some (JInt (if neg then - int n else int n), dropWhile is_digit b))"

fun p_val :: "nat \<Rightarrow> string \<Rightarrow> (json \<times> string) option"
  and p_elems :: "nat \<Rightarrow> string \<Rightarrow> (json list \<times> string) option"
  and p_mems :: "nat \<Rightarrow> string \<Rightarrow> ((string \<times> json) list \<times> string) option" where
  "p_val 0 s = None"
| "p_val (Suc n) s = (case s of [] \<Rightarrow> None
   | c # cs \<Rightarrow>
      if c = CHR ''n'' then (if startswith cs ''ull'' then Some (JNull, drop 3 cs) else None)
      else if c = CHR ''t'' then (if startswith cs ''rue'' then Some (JBool True, drop 3 cs) else None)
      else if c = CHR ''f'' then (if startswith cs ''alse'' then Some (JBool False, drop 4 cs) else None)
      else if c = CHR 0x22 then map_option (\<lambda>(x, r). (JStr x, r)) (p_chars cs)
      else if c = CHR 0x5B then (if startswith cs [CHR 0x5D] then Some (JList [], tl cs)
        else map_option (\<lambda>(xs, r). (JList xs, r)) (p_elems n cs))
      else if c = CHR 0x7B then (if startswith cs [CHR 0x7D] then Some (JObj [], tl cs)
        else map_option (\<lambda>(xs, r). (JObj xs, r)) (p_mems n cs))
      else p_num s)"
| "p_elems 0 s = None"
| "p_elems (Suc n) s = (case p_val n s of
     Some (v, c # r) \<Rightarrow>
       if c = CHR '','' then map_option (\<lambda>(vs, q). (v # vs, q)) (p_elems n r)
       else if c = CHR 0x5D then Some ([v], r) else None
   | _ \<Rightarrow> None)"
| "p_mems 0 s = None"
| "p_mems (Suc n) s = (case s of [] \<Rightarrow> None
   | q # s' \<Rightarrow> if q \<noteq> CHR 0x22 then None else (case p_chars s' of
       Some (k, c # r) \<Rightarrow> if c \<noteq> CHR '':'' then None else (case p_val n r of
          Some (v, d # r') \<Rightarrow>
            if d = CHR '','' then map_option (\<lambda>(kvs, q). ((k, v) # kvs, q)) (p_mems n r')
            else if d = CHR 0x7D then Some ([(k, v)], r') else None
        | _ \<Rightarrow> None)
     | _ \<Rightarrow> None))"

section \<open>Reading back what was written\<close>

lemma code_inj: "code c = code d \<longleftrightarrow> c = d"
  by (metis char_of_char)

lemma hex_value_digit: "n < 16 \<Longrightarrow> hex_value (hex_digit n) = n"
  by (simp add: hex_digit_def)

lemma char_of_inj: "m < 256 \<Longrightarrow> n < 256 \<Longrightarrow> char_of m = (char_of n :: char) \<longleftrightarrow> m = (n::nat)"
  by (metis of_char_of mod_less)

lemma code_CHR [simp]:
  "c = CHR 0x22 \<longleftrightarrow> code c = 34" "c = CHR 0x5C \<longleftrightarrow> code c = 92"
  by (auto simp flip: code_inj)

lemma p_chars_slash:
  "p_chars (CHR 0x5C # CHR ''u'' # z1 # z2 # h1 # h2 # es) =
     map_option (\<lambda>(x, r). (char_of (16 * hex_value h1 + hex_value h2) # x, r)) (p_chars es)"
  "d \<noteq> CHR ''u'' \<Longrightarrow> p_chars (CHR 0x5C # d # ds) =
     map_option (\<lambda>(x, r). ((if d = CHR ''n'' then CHR 0x0A else if d = CHR ''r'' then CHR 0x0D
       else if d = CHR ''t'' then CHR 0x09 else if d = CHR ''b'' then CHR 0x08
       else if d = CHR ''f'' then CHR 0x0C else d) # x, r)) (p_chars ds)"
  by (subst p_chars.simps, simp)+

lemma p_chars_plain:
  "code c \<noteq> 34 \<Longrightarrow> code c \<noteq> 92 \<Longrightarrow> p_chars (c # cs) = map_option (\<lambda>(x, r). (c # x, r)) (p_chars cs)"
  "p_chars (CHR 0x22 # cs) = Some ([], cs)"
  by (subst p_chars.simps, simp)+

lemma p_chars_escape:
  "p_chars (escape_char a c @ t) = map_option (\<lambda>(x, r). (c # x, r)) (p_chars t)"
proof -
  let ?n = "code c"
  have hex: "16 * hex_value (hex_digit (?n div 16)) + hex_value (hex_digit (?n mod 16)) = ?n"
    using nat_of_char_less_256 [of c]
    by (simp add: hex_value_digit less_mult_imp_div_less del: hex_value.simps)
  have named: "?n = 34 \<Longrightarrow> c = CHR 0x22" "?n = 92 \<Longrightarrow> c = CHR 0x5C" "?n = 10 \<Longrightarrow> c = CHR 0x0A"
      "?n = 13 \<Longrightarrow> c = CHR 0x0D" "?n = 9 \<Longrightarrow> c = CHR 0x09" "?n = 8 \<Longrightarrow> c = CHR 0x08"
      "?n = 12 \<Longrightarrow> c = CHR 0x0C"
    by (simp_all flip: code_inj)
  consider "?n \<in> {34, 92, 10, 13, 9, 8, 12}"
    | (esc) "?n \<notin> {34, 92, 10, 13, 9, 8, 12}" "?n < 32 \<or> a \<and> 126 < ?n"
    | (plain) "?n \<notin> {34, 92, 10, 13, 9, 8, 12}" "\<not> (?n < 32 \<or> a \<and> 126 < ?n)"
    by blast
  then show ?thesis
  proof cases
    case 1
    then show ?thesis
      by (elim insertE emptyE) (drule named, hypsubst, simp add: escape_char_def p_chars_slash)+
  next
    case esc
    then show ?thesis
      using hex by (simp add: escape_char_def Let_def p_chars_slash del: hex_value.simps)
  next
    case plain
    then show ?thesis by (auto simp: escape_char_def Let_def p_chars_plain)
  qed
qed

lemma p_chars_quote: "p_chars (concat (map (escape_char a) s) @ CHR 0x22 # rest) = Some (s, rest)"
  by (induction s) (simp_all add: p_chars_escape p_chars_plain)

lemma char_of_digit: "n < 10 \<Longrightarrow> code (char_of (48 + n)) = 48 + n"
  by simp

lemma nat_digits_digits: "list_all is_digit (nat_digits n)"
proof (induction n rule: nat_digits.induct)
  case (1 n)
  have "is_digit (char_of (48 + m mod 10))" for m :: nat by (simp add: is_digit_def)
  from this [of n] 1 show ?case by (subst nat_digits.simps) auto
qed

lemma digits_value_snoc:
  "digits_value acc xs = Some m \<Longrightarrow> is_digit c \<Longrightarrow>
     digits_value acc (xs @ [c]) = Some (10 * m + (code c - 48))"
  by (induction acc xs rule: digits_value.induct) (auto split: if_splits)

lemma digits_value_nat_digits: "digits_value 0 (nat_digits n) = Some n"
proof (induction n rule: nat_digits.induct)
  case (1 n)
  show ?case
  proof (cases "n < 10")
    case True
    then show ?thesis by (subst nat_digits.simps) (simp add: is_digit_def)
  next
    case False
    have "digits_value 0 (nat_digits (n div 10) @ [char_of (48 + n mod 10)])
        = Some (10 * (n div 10) + (code (char_of (48 + n mod 10)) - 48))"
      by (rule digits_value_snoc) (use 1 False in \<open>auto simp: is_digit_def\<close>)
    with False show ?thesis by (subst nat_digits.simps) simp
  qed
qed

text \<open>What may follow a number without being read as part of it.\<close>

definition no_digit :: "string \<Rightarrow> bool" where
  "no_digit s \<longleftrightarrow> s = [] \<or> \<not> is_digit (hd s)"

lemma no_digit_simps [simp]: "no_digit []" "no_digit (c # s) \<longleftrightarrow> \<not> is_digit c"
  by (simp_all add: no_digit_def)

lemma digits_span:
  "list_all is_digit ds \<Longrightarrow> no_digit rest \<Longrightarrow>
     takeWhile is_digit (ds @ rest) = ds \<and> dropWhile is_digit (ds @ rest) = rest"
  by (induction ds) (auto simp: no_digit_def neq_Nil_conv takeWhile_eq_Nil_iff dropWhile_eq_self_iff)

lemma nat_digits_hd: "is_digit (hd (nat_digits n))"
  using nat_digits_digits [of n] by (cases "nat_digits n") auto

lemma p_num_text: "no_digit rest \<Longrightarrow> p_num (int_text i @ rest) = Some (JInt i, rest)"
proof -
  assume rest: "no_digit rest"
  have neg: "hd (nat_digits n) \<noteq> CHR ''-''" for n
    using nat_digits_hd [of n] by (auto simp: is_digit_def)
  show ?thesis
    using digits_span [OF nat_digits_digits rest] neg
    by (simp add: p_num_def int_text_def parse_nat_def digits_value_nat_digits)
qed

lemma int_text_hd:
  obtains c cs where "int_text i = c # cs" and "is_digit c \<or> c = CHR ''-''"
proof -
  have "int_text i \<noteq> []" by (simp add: int_text_def)
  moreover have "is_digit (hd (int_text i)) \<or> hd (int_text i) = CHR ''-''"
    using nat_digits_hd by (simp add: int_text_def)
  ultimately show thesis using that by (cases "int_text i") auto
qed

text \<open>With enough fuel the decoder reads \<open>v\<close> and stops where its text ends.\<close>

definition reads :: "(nat \<Rightarrow> string \<Rightarrow> ('a \<times> string) option) \<Rightarrow> string \<Rightarrow> 'a \<Rightarrow> string \<Rightarrow> bool" where
  "reads p t v rest \<longleftrightarrow> (\<exists>N. \<forall>n \<ge> N. p n (t @ rest) = Some (v, rest))"

lemma reads_num: "no_digit rest \<Longrightarrow> reads p_val (int_text i) (JInt i) rest"
  unfolding reads_def
proof (intro exI allI impI)
  fix n :: nat assume rest: "no_digit rest" and "1 \<le> n"
  then obtain m where n: "n = Suc m" by (cases n) auto
  obtain c cs where i: "int_text i = c # cs" and c: "is_digit c \<or> c = CHR ''-''"
    by (rule int_text_hd)
  have "c \<notin> {CHR ''n'', CHR ''t'', CHR ''f'', CHR 0x22, CHR 0x5B, CHR 0x7B}"
    using c by (auto simp: is_digit_def)
  then show "p_val n (int_text i @ rest) = Some (JInt i, rest)"
    using p_num_text [OF rest, of i] by (simp add: n i)
qed

lemma enc_hd:
  assumes "float_free v"
  obtains c cs where "enc a v = c # cs" and "c \<notin> {CHR 0x5D, CHR 0x7D}"
proof (cases v)
  case (JInt i)
  obtain c cs where "int_text i = c # cs" and "is_digit c \<or> c = CHR ''-''" by (rule int_text_hd)
  with JInt show thesis by (intro that) (auto simp: is_digit_def)
next
  case (JBool b)
  then show thesis by (cases b) (auto intro: that)
qed (use assms in \<open>auto simp: quote_def intro: that\<close>)

lemma reads_SucI: "(\<And>n. N \<le> n \<Longrightarrow> p (Suc n) (t @ rest) = Some (v, rest)) \<Longrightarrow> reads p t v rest"
  unfolding reads_def by (rule exI [of _ "Suc N"]) (metis Suc_le_D Suc_le_mono)

lemma reads_elems:
  assumes "xs \<noteq> []" and "\<And>x rest. x \<in> set xs \<Longrightarrow> no_digit rest \<Longrightarrow> reads p_val (enc a x) x rest"
  shows "reads p_elems (join '','' (map (enc a) xs) @ [CHR 0x5D]) xs rest"
  using assms
proof (induction xs rule: list_nonempty_induct)
  case (single x)
  then have "reads p_val (enc a x) x (CHR 0x5D # rest)" by (simp add: is_digit_def)
  then obtain N where N: "\<And>n. N \<le> n \<Longrightarrow> p_val n (enc a x @ CHR 0x5D # rest) = Some (x, CHR 0x5D # rest)"
    by (auto simp: reads_def)
  then show ?case by (intro reads_SucI [of N]) simp
next
  case (cons x xs)
  let ?r = "join '','' (map (enc a) xs) @ CHR 0x5D # rest"
  have "reads p_val (enc a x) x (CHR '','' # ?r)" using cons.prems by (simp add: is_digit_def)
  then obtain N where N: "\<And>n. N \<le> n \<Longrightarrow> p_val n (enc a x @ CHR '','' # ?r) = Some (x, CHR '','' # ?r)"
    by (auto simp: reads_def)
  have "reads p_elems (join '','' (map (enc a) xs) @ [CHR 0x5D]) xs rest"
    using cons by simp
  then obtain M where M: "\<And>n. M \<le> n \<Longrightarrow> p_elems n ?r = Some (xs, rest)"
    by (auto simp: reads_def)
  have "join '','' (map (enc a) (x # xs)) = enc a x @ CHR '','' # join '','' (map (enc a) xs)"
    using cons.hyps by (cases xs) (simp_all add: join_Cons)
  then show ?case using N M by (intro reads_SucI [of "max N M"]) simp
qed

abbreviation mem_text :: "bool \<Rightarrow> string \<times> json \<Rightarrow> string" where
  "mem_text a kv \<equiv> quote a (fst kv) @ '':'' @ enc a (snd kv)"

lemma reads_mems:
  assumes "kvs \<noteq> []" and "\<And>k v rest. (k, v) \<in> set kvs \<Longrightarrow> no_digit rest \<Longrightarrow> reads p_val (enc a v) v rest"
  shows "reads p_mems (join '','' (map (mem_text a) kvs) @ [CHR 0x7D]) kvs rest"
  using assms
proof (induction kvs rule: list_nonempty_induct)
  case (single kv)
  obtain k v where kv: "kv = (k, v)" by (cases kv)
  then have "reads p_val (enc a v) v (CHR 0x7D # rest)" using single by (simp add: is_digit_def)
  then obtain N where N: "\<And>n. N \<le> n \<Longrightarrow> p_val n (enc a v @ CHR 0x7D # rest) = Some (v, CHR 0x7D # rest)"
    by (auto simp: reads_def)
  then show ?case by (intro reads_SucI [of N]) (simp add: kv quote_def p_chars_quote)
next
  case (cons kv kvs)
  obtain k v where kv: "kv = (k, v)" by (cases kv)
  let ?r = "join '','' (map (mem_text a) kvs) @ CHR 0x7D # rest"
  have "reads p_val (enc a v) v (CHR '','' # ?r)"
    by (rule cons.prems(1) [of k]) (simp_all add: kv is_digit_def)
  then obtain N where N: "\<And>n. N \<le> n \<Longrightarrow> p_val n (enc a v @ CHR '','' # ?r) = Some (v, CHR '','' # ?r)"
    by (auto simp: reads_def)
  have "reads p_mems (join '','' (map (mem_text a) kvs) @ [CHR 0x7D]) kvs rest"
    by (rule cons.IH) (meson cons.prems list.set_intros(2))
  then obtain M where M: "\<And>n. M \<le> n \<Longrightarrow> p_mems n ?r = Some (kvs, rest)"
    by (auto simp: reads_def)
  have "join '','' (map (mem_text a) (kv # kvs)) = mem_text a kv @ CHR '','' # join '','' (map (mem_text a) kvs)"
    using cons.hyps by (cases kvs) (simp_all add: join_Cons)
  then show ?case
    using N M by (intro reads_SucI [of "max N M"]) (simp add: kv quote_def p_chars_quote)
qed

lemma map_mem_text:
  "map (\<lambda>(k, t). quote a k @ '':'' @ t) (map (map_prod id (enc a)) kvs) = map (mem_text a) kvs"
  by (simp add: split_def)

lemma reads_enc: "float_free v \<Longrightarrow> no_digit rest \<Longrightarrow> reads p_val (enc a v) v rest"
proof (induction v arbitrary: rest)
  case JNull
  show ?case by (rule reads_SucI [of 0]) (simp add: startswith_def)
next
  case (JBool b)
  show ?case by (rule reads_SucI [of 0]) (simp add: startswith_def)
next
  case (JStr s)
  show ?case by (rule reads_SucI [of 0]) (simp add: quote_def p_chars_quote)
next
  case (JList xs)
  show ?case
  proof (cases xs)
    case Nil
    then show ?thesis by (intro reads_SucI [of 0]) (simp add: startswith_def join_def)
  next
    case (Cons x ys)
    have "float_free x" using JList.prems Cons by simp
    then obtain c cs where c: "enc a x = c # cs" "c \<notin> {CHR 0x5D, CHR 0x7D}" by (rule enc_hd)
    have first: "\<exists>t. join '','' (map (enc a) xs) = c # t" by (simp add: Cons join_def c)
    have "reads p_elems (join '','' (map (enc a) xs) @ [CHR 0x5D]) xs rest"
      by (rule reads_elems) (use JList Cons in \<open>auto simp: list_all_iff\<close>)
    then obtain N where "\<And>n. N \<le> n \<Longrightarrow>
        p_elems n (join '','' (map (enc a) xs) @ CHR 0x5D # rest) = Some (xs, rest)"
      by (auto simp: reads_def)
    with first c show ?thesis by (intro reads_SucI [of N]) (auto simp: startswith_def)
  qed
next
  case (JObj kvs)
  show ?case
  proof (cases kvs)
    case Nil
    then show ?thesis by (intro reads_SucI [of 0]) (simp add: startswith_def join_def)
  next
    case (Cons kv ys)
    have first: "\<exists>t. join '','' (map (mem_text a) kvs) = CHR 0x22 # t"
      by (simp add: Cons join_def quote_def)
    have "reads p_mems (join '','' (map (mem_text a) kvs) @ [CHR 0x7D]) kvs rest"
      by (rule reads_mems) (use JObj Cons in \<open>force simp: list_all_iff\<close>)+
    then obtain N where "\<And>n. N \<le> n \<Longrightarrow>
        p_mems n (join '','' (map (mem_text a) kvs) @ CHR 0x7D # rest) = Some (kvs, rest)"
      by (auto simp: reads_def)
    with first show ?thesis
      unfolding enc.simps map_mem_text by (intro reads_SucI [of N]) (auto simp: startswith_def)
  qed
qed (auto intro: reads_num)

lemma sortkeys_float_free: "float_free v \<Longrightarrow> float_free (sortkeys v)"
  by (induction v) (auto simp: list_all_iff)

lemma enc_inj:
  assumes "float_free v" and "float_free w" and "enc a v = enc a w"
  shows "v = w"
proof -
  obtain N where N: "\<And>n. N \<le> n \<Longrightarrow> p_val n (enc a v @ []) = Some (v, [])"
    using reads_enc [OF assms(1), of "[]" a] by (auto simp: reads_def)
  obtain M where M: "\<And>n. M \<le> n \<Longrightarrow> p_val n (enc a w @ []) = Some (w, [])"
    using reads_enc [OF assms(2), of "[]" a] by (auto simp: reads_def)
  from N [of "max N M"] M [of "max N M"] assms(3) show ?thesis by simp
qed

theorem dumps_inj:
  assumes "float_free v" and "float_free w" and "dumps fr a v = dumps fr a w"
  shows "sortkeys v = sortkeys w"
  using assms by (simp add: dumps_enc) (blast intro: enc_inj sortkeys_float_free)

text \<open>Objects with the same text have the same value under every key.\<close>

lemma sortkeys_lookup:
  assumes "sortkeys (JObj xs) = sortkeys (JObj ys)"
    and "distinct (map fst xs)" and "distinct (map fst ys)"
  shows "map_option sortkeys (map_of xs k) = map_option sortkeys (map_of ys k)"
proof -
  have *: "map_of (sort_key fst (map (map_prod id sortkeys) zs)) k = map_option sortkeys (map_of zs k)"
    if "distinct (map fst zs)" for zs
  proof -
    have "distinct (map fst (map (map_prod id sortkeys) zs))" using that by (simp add: comp_def)
    then show ?thesis by (subst map_of_sort_key) (simp_all add: map_of_map map_prod_def id_def)
  qed
  show ?thesis using assms * [of xs] * [of ys] by simp
qed

lemma sortkeys_scalar [simp]:
  "sortkeys v = JStr t \<longleftrightarrow> v = JStr t" "JStr t = sortkeys v \<longleftrightarrow> v = JStr t"
  "sortkeys v = JInt i \<longleftrightarrow> v = JInt i" "JInt i = sortkeys v \<longleftrightarrow> v = JInt i"
  by (cases v; auto)+

text \<open>Key order is invisible to the readers of a value.\<close>

abbreviation distinct_keys :: "json \<Rightarrow> bool" where
  "distinct_keys v \<equiv> distinct (map fst (items v))"

lemma sortkeys_shape [simp]:
  "is_dict (sortkeys v) = is_dict v" "is_str (sortkeys v) = is_str v" "is_list (sortkeys v) = is_list v"
  "isinstance_int (sortkeys v) = isinstance_int v" "int_value (sortkeys v) = int_value v"
  "str_value (sortkeys v) = str_value v" "truthy (sortkeys v) = truthy v"
  by (cases v; auto dest: arg_cong [of _ _ length])+

lemma keyset_sortkeys [simp]: "keyset (sortkeys v) = keyset v"
  by (cases v) (auto simp: keyset_def image_image)

lemma get_sortkeys:
  "distinct_keys v \<Longrightarrow> get_default (sortkeys v) k (sortkeys w) = sortkeys (get_default v k w)"
proof (cases v)
  case (JObj kvs)
  assume "distinct_keys v"
  then have "distinct (map fst (map (map_prod id sortkeys) kvs))" using JObj by (simp add: comp_def)
  then show ?thesis
    using JObj by (simp add: get_default_def map_of_sort_key map_of_map map_prod_def id_def split: option.split)
qed (simp_all add: get_default_def)

lemma py_eq_JInt_sortkeys [simp]: "py_eq (sortkeys v) (JInt i) = py_eq v (JInt i)"
  by (cases v) (simp_all add: py_eq_def)

section \<open>The concrete library\<close>

text \<open>\<open>json.loads\<close> on the canonical texts.\<close>

definition demo_loads :: "string \<Rightarrow> json option" where
  "demo_loads s = (case p_val (Suc (length s)) s of
     Some (v, []) \<Rightarrow> Some v | _ \<Rightarrow> None)"

definition demo_lib :: "(nat \<Rightarrow> int) \<Rightarrow> pylib" where
  "demo_lib clk = \<lparr>float_repr = (\<lambda>r. ''float''), repr_of = (\<lambda>j. ''repr''), sha256 = (\<lambda>s. s),
     fromiso = demo_fromiso, isoz = (\<lambda>t. CHR ''T'' # int_text (t div second)), iso_utc = demo_iso_utc, now_us = clk,
     uuid4 = (\<lambda>n. ''uuid-'' @ nat_digits n),
     ip_address = (\<lambda>j. case j of JStr s \<Rightarrow> parse_ipv4 s | _ \<Rightarrow> None), ip_text = ipv4_text,
     ip_network = parse_net4,
     ed25519_sign = (\<lambda>k m. k @ ''|'' @ m), ed25519_verify = (\<lambda>k sig m. sig = k @ ''|'' @ m),
     json_loads = demo_loads, uuid_ok = (\<lambda>s. length s = 36),
     int_of_str = (\<lambda>s. map_option int (parse_nat s))\<rparr>"

lemma demo_iso_roundtrip: "fromiso (demo_lib clk) (iso_utc (demo_lib clk) t) = Some (Aware t)"
  by (auto simp: demo_lib_def demo_iso_utc_def demo_fromiso_def parse_nat_def digits_value_nat_digits second_def)

end
