(* ===== verification/Plan_Store.thy ===== *)
theory Plan_Store
  imports Canonical_Json
begin

text \<open>
  The change-plan database of the network control broker (\<open>netopsctl/models.py\<close>,
  \<open>netopsctl/store.py\<close>, with the tables of \<open>netopsctl/migrations.py\<close>): plans with their
  life cycle, their ordered steps, the desired policies they lead to. The tables are lists of
  records in insertion order; a row is found by scanning, an update rewrites the rows that match.
  Columns no code of the program reads (acquisition and execution times) are left out.

  The theorems: a plan moves only along the transition table; once approved, a plan and its
  steps are frozen, so its digest never changes; a desired policy comes from a verified plan.
\<close>

section \<open>Statuses\<close>

datatype plan_status =
    Draft | Validated | Approved | Applying | Applied | Verified | Failed
  | RollingBack | RolledBack | Cancelled

datatype step_status = SPending | SApplied | SVerified | SFailed | SRolledBack

fun status_text :: "plan_status \<Rightarrow> string" where
  "status_text Draft = ''draft''"
| "status_text Validated = ''validated''"
| "status_text Approved = ''approved''"
| "status_text Applying = ''applying''"
| "status_text Applied = ''applied''"
| "status_text Verified = ''verified''"
| "status_text Failed = ''failed''"
| "status_text RollingBack = ''rolling_back''"
| "status_text RolledBack = ''rolled_back''"
| "status_text Cancelled = ''cancelled''"

fun PLAN_TRANSITIONS :: "plan_status \<Rightarrow> plan_status list" where
  "PLAN_TRANSITIONS Draft = [Validated, Cancelled]"
| "PLAN_TRANSITIONS Validated = [Approved, Cancelled]"
| "PLAN_TRANSITIONS Approved = [Applying, Failed, Cancelled]"
| "PLAN_TRANSITIONS Applying = [Applied, Failed, RollingBack]"
| "PLAN_TRANSITIONS Applied = [Verified, Failed, RollingBack]"
| "PLAN_TRANSITIONS Verified = [RollingBack]"
| "PLAN_TRANSITIONS Failed = [RollingBack, Cancelled]"
| "PLAN_TRANSITIONS RollingBack = [RolledBack, Failed]"
| "PLAN_TRANSITIONS RolledBack = []"
| "PLAN_TRANSITIONS Cancelled = []"

section \<open>Tables\<close>

record plan_row =
  pl_id :: nat
  pl_key :: string
  pl_actor :: string
  pl_reason :: string
  pl_subject_type :: string
  pl_subject_key :: string
  pl_operation_type :: string
  pl_desired_state_json :: jtext
  pl_resolved_targets_json :: jtext
  pl_context_evidence_hash :: string
  pl_precheck_json :: jtext
  pl_rollback_json :: jtext
  pl_status :: plan_status
  pl_created_at :: string
  pl_approved_at :: "string option"
  pl_applied_at :: "string option"
  pl_verified_at :: "string option"
  pl_updated_at :: string
  pl_plan_basis_json :: jtext
  pl_plan_basis_hash :: string
  pl_plan_schema_version :: int
  pl_authorization_version :: int
  pl_operation_version :: int

record step_row =
  st_id :: nat
  st_plan_id :: nat
  st_order :: int
  st_adapter :: string
  st_operation :: string
  st_target_key :: string
  st_request_json :: jtext
  st_result_json :: jtext
  st_status :: step_status

record exec_row =
  ex_plan_id :: nat
  ex_type :: string
  ex_status :: string
  ex_result :: json

record policy_row =
  po_id :: nat
  po_subject_type :: string
  po_subject_key :: string
  po_policy_type :: string
  po_desired_state :: string
  po_enforcement_scope :: string
  po_reason :: string
  po_valid_from :: string
  po_source_plan_id :: nat
  po_status :: string
  po_updated_at :: string

record finding_row =
  fi_policy_id :: nat
  fi_type :: string
  fi_status :: string
  fi_details :: json

record audit_row =
  au_sequence :: int
  au_event_id :: string
  au_event_type :: string
  au_created_at :: string
  au_payload_hash :: string
  au_previous_hash :: string
  au_event_hash :: string
  au_signer_key_id :: string
  au_signature :: string
  au_payload_json :: jtext

record nonce_row =
  no_nonce :: string
  no_expires_at :: string
  no_consumed_at :: string

record lock_row =
  lk_device_key :: string
  lk_holder :: string
  lk_owner_pid :: int

text \<open>
  The broker's world: the database, the number of clock readings, of random identifiers drawn and of
  snapshots of the collector's database opened so far, the checkpoints delivered to the audit sink, and the enforcement device.
\<close>

record 'd netops =
  plans :: "plan_row list"
  plan_steps :: "step_row list"
  executions :: "exec_row list"
  policies :: "policy_row list"
  findings :: "finding_row list"
  audit_events :: "audit_row list"
  used_nonces :: "nonce_row list"
  locks :: "lock_row list"
  ticks :: nat
  uuids :: nat
  snapshots :: nat
  delivered :: "json list"
  device :: 'd

text \<open>The database right after the migrations, in front of a device.\<close>

definition empty_db :: "'d \<Rightarrow> 'd netops" where
  "empty_db d = \<lparr>plans = [], plan_steps = [], executions = [], policies = [], findings = [],
     audit_events = [], used_nonces = [], locks = [], ticks = 0, uuids = 0, snapshots = 0, delivered = [], device = d\<rparr>"

section \<open>Clock and identifiers\<close>

definition read_clock :: "pylib \<Rightarrow> ('d netops, int) prog" where
  "read_clock L s = (Inr (now_us L (ticks s)), s\<lparr>ticks := Suc (ticks s)\<rparr>)"

definition utc_now :: "pylib \<Rightarrow> ('d netops, string) prog" where
  "utc_now L = bind (read_clock L) (\<lambda>t. ret (isoz L t))"

definition fresh_uuid :: "pylib \<Rightarrow> ('d netops, string) prog" where
  "fresh_uuid L s = (Inr (uuid4 L (uuids s)), s\<lparr>uuids := Suc (uuids s)\<rparr>)"

definition next_id :: "nat list \<Rightarrow> nat" where
  "next_id ids = Suc (foldr max ids 0)"

lemma next_id_fresh: "i \<in> set ids \<Longrightarrow> i < next_id ids"
  by (induction ids) (auto simp: next_id_def)

section \<open>Digests\<close>

definition canonical_sha256 :: "pylib \<Rightarrow> json \<Rightarrow> string" where
  "canonical_sha256 L v = ''sha256:'' @ sha256 L (dumps (float_repr L) True v)"

text \<open>The text of a JSON column.\<close>

fun column_text :: "pylib \<Rightarrow> jtext \<Rightarrow> string" where
  "column_text L (Doc j) = dumps (float_repr L) True j"
| "column_text L Blank = []"
| "column_text L (Bad t) = t"

definition find_plan :: "plan_row list \<Rightarrow> string \<Rightarrow> plan_row option" where
  "find_plan ps k = find (\<lambda>p. pl_key p = k) ps"

definition plan_row_of :: "string \<Rightarrow> ('d netops, plan_row) prog" where
  "plan_row_of k = bind (gets (\<lambda>s. find_plan (plans s) k)) (\<lambda>r. case r of
     None \<Rightarrow> raise (ValueError ''change plan not found'') | Some p \<Rightarrow> ret p)"

definition steps_of :: "'d netops \<Rightarrow> nat \<Rightarrow> step_row list" where
  "steps_of s i = sort_key st_order (filter (\<lambda>st. st_plan_id st = i) (plan_steps s))"

definition step_digest_item :: "pylib \<Rightarrow> step_row \<Rightarrow> json" where
  "step_digest_item L st = JObj
     [(''step_order'', JInt (st_order st)), (''adapter'', JStr (st_adapter st)),
      (''operation'', JStr (st_operation st)), (''target_key'', JStr (st_target_key st)),
      (''request_json'', JStr (column_text L (st_request_json st)))]"

definition plan_digest_body :: "pylib \<Rightarrow> plan_row \<Rightarrow> step_row list \<Rightarrow> json" where
  "plan_digest_body L p sts = JObj
     [(''plan_key'', JStr (pl_key p)), (''reason'', JStr (pl_reason p)),
      (''subject_type'', JStr (pl_subject_type p)), (''subject_key'', JStr (pl_subject_key p)),
      (''operation_type'', JStr (pl_operation_type p)),
      (''desired_state_json'', JStr (column_text L (pl_desired_state_json p))),
      (''resolved_targets_json'', JStr (column_text L (pl_resolved_targets_json p))),
      (''context_evidence_hash'', JStr (pl_context_evidence_hash p)),
      (''precheck_json'', JStr (column_text L (pl_precheck_json p))),
      (''rollback_json'', JStr (column_text L (pl_rollback_json p))),
      (''plan_basis_json'', JStr (column_text L (pl_plan_basis_json p))),
      (''plan_basis_hash'', JStr (pl_plan_basis_hash p)),
      (''plan_schema_version'', JInt (pl_plan_schema_version p)),
      (''authorization_version'', JInt (pl_authorization_version p)),
      (''operation_version'', JInt (pl_operation_version p)),
      (''steps'', JList (map (step_digest_item L) sts))]"

definition plan_digest :: "pylib \<Rightarrow> string \<Rightarrow> ('d netops, string) prog" where
  "plan_digest L k = bind (plan_row_of k) (\<lambda>p.
     bind (gets (\<lambda>s. steps_of s (pl_id p))) (\<lambda>sts.
     ret (canonical_sha256 L (plan_digest_body L p sts))))"

text \<open>\<open>_public_plan\<close>: the row as a dictionary, with the five JSON columns decoded.\<close>

definition opt_text :: "string option \<Rightarrow> json" where
  "opt_text v = (case v of None \<Rightarrow> JNull | Some t \<Rightarrow> JStr t)"

definition public_plan :: "plan_row \<Rightarrow> json res" where
  "public_plan p =
     rbind (loads (pl_desired_state_json p)) (\<lambda>desired.
     rbind (loads (pl_resolved_targets_json p)) (\<lambda>targets.
     rbind (loads (pl_precheck_json p)) (\<lambda>precheck.
     rbind (loads (pl_rollback_json p)) (\<lambda>rollback.
     rbind (loads (pl_plan_basis_json p)) (\<lambda>basis.
     Inr (JObj
      [(''id'', JInt (int (pl_id p))), (''plan_key'', JStr (pl_key p)),
       (''actor'', JStr (pl_actor p)), (''reason'', JStr (pl_reason p)),
       (''subject_type'', JStr (pl_subject_type p)), (''subject_key'', JStr (pl_subject_key p)),
       (''operation_type'', JStr (pl_operation_type p)),
       (''context_evidence_hash'', JStr (pl_context_evidence_hash p)),
       (''status'', JStr (status_text (pl_status p))),
       (''created_at'', JStr (pl_created_at p)), (''approved_at'', opt_text (pl_approved_at p)),
       (''applied_at'', opt_text (pl_applied_at p)), (''verified_at'', opt_text (pl_verified_at p)),
       (''updated_at'', JStr (pl_updated_at p)), (''plan_basis_hash'', JStr (pl_plan_basis_hash p)),
       (''plan_schema_version'', JInt (pl_plan_schema_version p)),
       (''authorization_version'', JInt (pl_authorization_version p)),
       (''operation_version'', JInt (pl_operation_version p)),
       (''desired_state'', desired), (''resolved_targets'', targets), (''precheck'', precheck),
       (''rollback'', rollback), (''plan_basis'', basis)]))))))"

definition get_change_plan :: "string \<Rightarrow> ('d netops, json) prog" where
  "get_change_plan k = bind (plan_row_of k) (\<lambda>p. lift (public_plan p))"

section \<open>Writes\<close>

definition insert_plan :: "plan_row \<Rightarrow> ('d netops, nat) prog" where
  "insert_plan p s = (if pl_key p \<in> pl_key ` set (plans s) then (Inl IntegrityError, s)
     else let i = next_id (map pl_id (plans s)) in
       (Inr i, s\<lparr>plans := plans s @ [p\<lparr>pl_id := i\<rparr>]\<rparr>))"

definition update_plan :: "nat \<Rightarrow> (plan_row \<Rightarrow> plan_row) \<Rightarrow> ('d netops, unit) prog" where
  "update_plan i f = modify (\<lambda>s. s\<lparr>plans := map (\<lambda>p. if pl_id p = i then f p else p) (plans s)\<rparr>)"

text \<open>The arguments of \<open>create_change_plan\<close>.\<close>

record plan_args =
  ar_plan_key :: string
  ar_actor :: string
  ar_reason :: string
  ar_subject_type :: string
  ar_subject_key :: string
  ar_operation_type :: string
  ar_desired_state :: json
  ar_resolved_targets :: json
  ar_context_evidence_hash :: string
  ar_precheck :: json
  ar_rollback :: json
  ar_plan_basis :: json

definition new_plan_row :: "pylib \<Rightarrow> plan_args \<Rightarrow> string \<Rightarrow> plan_row" where
  "new_plan_row L a now = (let basis = py_or (ar_plan_basis a) (JObj []) in
     \<lparr>pl_id = 0, pl_key = ar_plan_key a, pl_actor = ar_actor a, pl_reason = ar_reason a,
      pl_subject_type = ar_subject_type a, pl_subject_key = ar_subject_key a,
      pl_operation_type = ar_operation_type a, pl_desired_state_json = Doc (ar_desired_state a),
      pl_resolved_targets_json = Doc (ar_resolved_targets a),
      pl_context_evidence_hash = ar_context_evidence_hash a,
      pl_precheck_json = Doc (ar_precheck a), pl_rollback_json = Doc (ar_rollback a),
      pl_status = Draft, pl_created_at = now, pl_approved_at = None, pl_applied_at = None,
      pl_verified_at = None, pl_updated_at = now, pl_plan_basis_json = Doc basis,
      pl_plan_basis_hash = canonical_sha256 L basis, pl_plan_schema_version = 1,
      pl_authorization_version = 1, pl_operation_version = 1\<rparr>)"

definition create_change_plan :: "pylib \<Rightarrow> plan_args \<Rightarrow> ('d netops, json) prog" where
  "create_change_plan L a =
     (if ar_subject_type a \<notin> {''asset'', ''user'', ''infrastructure''}
         \<or> ar_operation_type a \<notin> {''internet_access_set'', ''internet_policy_bootstrap''}
      then raise (ValueError ''unsupported change-plan subject or operation'')
      else if ar_plan_key a = [] \<or> ar_actor a = [] \<or> ar_reason a = [] \<or> ar_subject_key a = []
         \<or> length (ar_context_evidence_hash a) \<noteq> 64
      then raise (ValueError ''invalid change plan identity or evidence hash'')
      else bind (utc_now L) (\<lambda>now.
        bind (insert_plan (new_plan_row L a now)) (\<lambda>i.
        bind (gets (\<lambda>s. find (\<lambda>p. pl_id p = i) (plans s))) (\<lambda>r. case r of
          None \<Rightarrow> raise TypeError | Some p \<Rightarrow> lift (public_plan p)))))"

definition unfrozen :: "plan_status \<Rightarrow> bool" where
  "unfrozen st \<longleftrightarrow> st \<in> {Draft, Validated}"

definition update_draft_plan :: "pylib \<Rightarrow> string \<Rightarrow> string \<Rightarrow> ('d netops, json) prog" where
  "update_draft_plan L k new_reason = bind (plan_row_of k) (\<lambda>row.
     if \<not> unfrozen (pl_status row) then raise (ValueError ''approved change plan is immutable'')
     else if new_reason = [] then raise (ValueError ''reason is required'')
     else bind (utc_now L) (\<lambda>now.
       seq (update_plan (pl_id row) (\<lambda>p. p\<lparr>pl_reason := new_reason, pl_updated_at := now\<rparr>))
         (get_change_plan k)))"

definition next_step_order :: "step_row list \<Rightarrow> int" where
  "next_step_order sts = foldr max (map st_order sts) (-1) + 1"

definition insert_step :: "step_row \<Rightarrow> ('d netops, step_row) prog" where
  "insert_step st s = (let i = next_id (map st_id (plan_steps s)); st' = st\<lparr>st_id := i\<rparr> in
     (Inr st', s\<lparr>plan_steps := plan_steps s @ [st']\<rparr>))"

definition add_plan_step ::
    "string \<Rightarrow> string \<Rightarrow> string \<Rightarrow> string \<Rightarrow> json \<Rightarrow> ('d netops, step_row) prog" where
  "add_plan_step k adapter operation target request = bind (plan_row_of k) (\<lambda>row.
     if \<not> unfrozen (pl_status row) then raise (ValueError ''approved change plan is immutable'')
     else bind (gets (\<lambda>s. next_step_order
           (filter (\<lambda>st. st_plan_id st = pl_id row) (plan_steps s)))) (\<lambda>order.
       insert_step \<lparr>st_id = 0, st_plan_id = pl_id row, st_order = order, st_adapter = adapter,
         st_operation = operation, st_target_key = target, st_request_json = Doc request,
         st_result_json = Doc (JObj []), st_status = SPending\<rparr>))"

text \<open>The row written by a transition: only the timestamp of the new status is set.\<close>

definition stamp_status :: "plan_status \<Rightarrow> string \<Rightarrow> plan_row \<Rightarrow> plan_row" where
  "stamp_status target now p = p\<lparr>pl_status := target, pl_updated_at := now,
     pl_approved_at := (if target = Approved then Some now else pl_approved_at p),
     pl_applied_at := (if target = Applied then Some now else pl_applied_at p),
     pl_verified_at := (if target = Verified then Some now else pl_verified_at p)\<rparr>"

definition transition_plan :: "pylib \<Rightarrow> string \<Rightarrow> plan_status \<Rightarrow> ('d netops, json) prog" where
  "transition_plan L k target = bind (plan_row_of k) (\<lambda>row.
     if target \<notin> set (PLAN_TRANSITIONS (pl_status row))
     then raise (ValueError (''invalid status transition: '' @ status_text (pl_status row) @ '' -> ''
            @ status_text target))
     else bind (utc_now L) (\<lambda>now.
       seq (update_plan (pl_id row) (stamp_status target now)) (get_change_plan k)))"

definition same_policy :: "policy_row \<Rightarrow> policy_row \<Rightarrow> bool" where
  "same_policy a b \<longleftrightarrow> po_subject_type a = po_subject_type b \<and> po_subject_key a = po_subject_key b
     \<and> po_policy_type a = po_policy_type b \<and> po_enforcement_scope a = po_enforcement_scope b"

text \<open>\<open>INSERT ... ON CONFLICT(subject, policy type, scope) DO UPDATE\<close>.\<close>

definition upsert_policy_row :: "policy_row \<Rightarrow> policy_row list \<Rightarrow> policy_row list" where
  "upsert_policy_row new ps = (if \<exists>p \<in> set ps. same_policy p new
     then map (\<lambda>p. if same_policy p new
       then p\<lparr>po_desired_state := po_desired_state new, po_reason := po_reason new,
              po_valid_from := po_valid_from new, po_source_plan_id := po_source_plan_id new,
              po_status := ''active'', po_updated_at := po_updated_at new\<rparr>
       else p) ps
     else ps @ [new\<lparr>po_id := next_id (map po_id ps)\<rparr>])"

definition upsert_desired_policy ::
    "pylib \<Rightarrow> string \<Rightarrow> string \<Rightarrow> string \<Rightarrow> string \<Rightarrow> string \<Rightarrow> string \<Rightarrow> ('d netops, policy_row option) prog"
where
  "upsert_desired_policy L k subject_type subject_key desired_state reason scope =
     bind (plan_row_of k) (\<lambda>plan.
     if pl_status plan \<noteq> Verified
     then raise (ValueError ''desired policy requires a verified change plan'')
     else if subject_type \<notin> {''asset'', ''user''} \<or> desired_state \<notin> {''allow'', ''deny''}
     then raise (ValueError ''invalid desired policy'')
     else bind (utc_now L) (\<lambda>now.
       let new = \<lparr>po_id = 0, po_subject_type = subject_type, po_subject_key = subject_key,
             po_policy_type = ''internet_access'', po_desired_state = desired_state,
             po_enforcement_scope = scope, po_reason = reason, po_valid_from = now,
             po_source_plan_id = pl_id plan, po_status = ''active'', po_updated_at = now\<rparr> in
       seq (modify (\<lambda>s. s\<lparr>policies := upsert_policy_row new (policies s)\<rparr>))
         (gets (\<lambda>s. find (\<lambda>p. same_policy p new) (policies s)))))"

section \<open>Evolution of the database\<close>

definition plan_edge :: "plan_status \<Rightarrow> plan_status \<Rightarrow> bool" where
  "plan_edge a b \<longleftrightarrow> b \<in> set (PLAN_TRANSITIONS a)"

abbreviation plan_path :: "plan_status \<Rightarrow> plan_status \<Rightarrow> bool" where
  "plan_path \<equiv> plan_edge\<^sup>*\<^sup>*"

lemma plan_edge_unfrozen: "plan_edge a b \<Longrightarrow> unfrozen b \<Longrightarrow> unfrozen a"
  by (cases a) (auto simp: plan_edge_def unfrozen_def)

lemma plan_path_unfrozen: "plan_path a b \<Longrightarrow> unfrozen b \<Longrightarrow> unfrozen a"
  by (induction rule: converse_rtranclp_induct) (auto dest: plan_edge_unfrozen)

lemma plan_edge_terminal: "a \<in> {RolledBack, Cancelled} \<Longrightarrow> \<not> plan_edge a b"
  by (auto simp: plan_edge_def)

lemma plan_path_terminal: "plan_path a b \<Longrightarrow> a \<in> {RolledBack, Cancelled} \<Longrightarrow> b = a"
  by (erule converse_rtranclpE) (use plan_edge_terminal in blast)+

text \<open>What no operation may change in a plan row, and what it may.\<close>

definition pl_core :: "plan_row \<Rightarrow> plan_row" where
  "pl_core p = p\<lparr>pl_reason := [], pl_status := Draft, pl_approved_at := None,
     pl_applied_at := None, pl_verified_at := None, pl_updated_at := []\<rparr>"

definition row_evolves :: "plan_row \<Rightarrow> plan_row \<Rightarrow> bool" where
  "row_evolves r r' \<longleftrightarrow> pl_core r' = pl_core r
     \<and> (\<not> unfrozen (pl_status r) \<longrightarrow> pl_reason r' = pl_reason r)
     \<and> plan_path (pl_status r) (pl_status r')
     \<and> (pl_approved_at r \<noteq> None \<longrightarrow> pl_approved_at r' \<noteq> None)
     \<and> (pl_verified_at r \<noteq> None \<longrightarrow> pl_verified_at r' \<noteq> None)"

definition st_core :: "step_row \<Rightarrow> step_row" where
  "st_core st = st\<lparr>st_result_json := Blank, st_status := SPending\<rparr>"

definition evolves :: "'d netops \<Rightarrow> 'd netops \<Rightarrow> bool" where
  "evolves s t \<longleftrightarrow>
     (\<exists>new. \<exists>old. plans t = old @ new \<and> list_all2 row_evolves (plans s) old) \<and>
     (\<exists>new. \<exists>old. plan_steps t = old @ new \<and> map st_core old = map st_core (plan_steps s) \<and>
       (\<forall>st \<in> set new. \<forall>p \<in> set (plans s). pl_id p = st_plan_id st \<longrightarrow> unfrozen (pl_status p)))"

lemma row_evolves_refl [simp]: "row_evolves r r"
  by (simp add: row_evolves_def)

lemma row_evolves_trans: "row_evolves a b \<Longrightarrow> row_evolves b c \<Longrightarrow> row_evolves a c"
  unfolding row_evolves_def
  by (auto dest: plan_path_unfrozen intro: rtranclp_trans)

lemma pl_core_eqD:
  assumes "pl_core r' = pl_core r"
  shows "pl_id r' = pl_id r" "pl_key r' = pl_key r" "pl_subject_type r' = pl_subject_type r"
    "pl_subject_key r' = pl_subject_key r" "pl_operation_type r' = pl_operation_type r"
    "pl_desired_state_json r' = pl_desired_state_json r"
    "pl_resolved_targets_json r' = pl_resolved_targets_json r"
    "pl_context_evidence_hash r' = pl_context_evidence_hash r"
    "pl_precheck_json r' = pl_precheck_json r" "pl_rollback_json r' = pl_rollback_json r"
    "pl_plan_basis_json r' = pl_plan_basis_json r" "pl_plan_basis_hash r' = pl_plan_basis_hash r"
    "pl_plan_schema_version r' = pl_plan_schema_version r"
    "pl_authorization_version r' = pl_authorization_version r"
    "pl_operation_version r' = pl_operation_version r" "pl_created_at r' = pl_created_at r"
  using assms by (cases r, cases r', simp add: pl_core_def)+

lemma st_core_eqD:
  assumes "st_core r' = st_core r"
  shows "st_id r' = st_id r" "st_plan_id r' = st_plan_id r" "st_order r' = st_order r"
    "st_adapter r' = st_adapter r" "st_operation r' = st_operation r"
    "st_target_key r' = st_target_key r" "st_request_json r' = st_request_json r"
  using assms by (cases r, cases r', simp add: st_core_def)+

lemma row_evolves_id: "row_evolves r r' \<Longrightarrow> pl_id r' = pl_id r"
  by (auto simp: row_evolves_def dest: pl_core_eqD)

lemma evolvesI:
  assumes "plans t = old @ new" and "list_all2 row_evolves (plans s) old"
    and "plan_steps t = old' @ new'" and "map st_core old' = map st_core (plan_steps s)"
    and "\<And>st p. st \<in> set new' \<Longrightarrow> p \<in> set (plans s) \<Longrightarrow> pl_id p = st_plan_id st \<Longrightarrow>
      unfrozen (pl_status p)"
  shows "evolves s t"
  using assms unfolding evolves_def by blast

lemma evolves_same:
  assumes "plans t = plans s" and "map st_core (plan_steps t) = map st_core (plan_steps s)"
  shows "evolves s t"
  by (rule evolvesI [of _ "plans s" "[]" _ "plan_steps t" "[]"])
    (use assms in \<open>auto intro: list_all2_refl\<close>)

lemma evolves_refl [simp]: "evolves s s"
  by (rule evolves_same) simp_all

lemma list_all2_member:
  "list_all2 P xs ys \<Longrightarrow> x \<in> set xs \<Longrightarrow> \<exists>y \<in> set ys. P x y"
  by (auto simp: list_all2_iff in_set_conv_nth set_zip) (metis nth_mem)

lemma evolves_plan:
  assumes "evolves s t" and "p \<in> set (plans s)"
  shows "\<exists>p' \<in> set (plans t). row_evolves p p'"
  using assms unfolding evolves_def by (metis UnI1 list_all2_member set_append)

lemma evolves_trans:
  assumes st: "evolves s t" and tu: "evolves t u"
  shows "evolves s u"
proof -
  obtain n1 o1 where p1: "plans t = o1 @ n1" "list_all2 row_evolves (plans s) o1"
    using st by (auto simp: evolves_def)
  obtain n2 o2 where p2: "plans u = o2 @ n2" "list_all2 row_evolves (plans t) o2"
    using tu by (auto simp: evolves_def)
  obtain m1 q1 where s1: "plan_steps t = q1 @ m1" "map st_core q1 = map st_core (plan_steps s)"
      "\<forall>st \<in> set m1. \<forall>p \<in> set (plans s). pl_id p = st_plan_id st \<longrightarrow> unfrozen (pl_status p)"
    using st by (auto simp: evolves_def)
  obtain m2 q2 where s2: "plan_steps u = q2 @ m2" "map st_core q2 = map st_core (plan_steps t)"
      "\<forall>st \<in> set m2. \<forall>p \<in> set (plans t). pl_id p = st_plan_id st \<longrightarrow> unfrozen (pl_status p)"
    using tu by (auto simp: evolves_def)
  obtain oa ob where o2: "o2 = oa @ ob" "list_all2 row_evolves o1 oa"
    using p1(1) p2(2) by (auto simp: list_all2_append1)
  have plans: "plans u = oa @ (ob @ n2)" "list_all2 row_evolves (plans s) oa"
    using p2(1) o2 list_all2_trans [OF row_evolves_trans p1(2)] by auto
  obtain qa qb where q2: "q2 = qa @ qb" "map st_core qa = map st_core q1"
      "map st_core qb = map st_core m1"
    using s1(1) s2(2) by (auto simp: map_eq_append_conv)
  have new: "unfrozen (pl_status p)"
    if "st \<in> set (qb @ m2)" and p: "p \<in> set (plans s)" "pl_id p = st_plan_id st" for st p
  proof (cases "st \<in> set m2")
    case True
    obtain p' where "p' \<in> set (plans t)" and ev: "row_evolves p p'"
      using evolves_plan [OF \<open>evolves s t\<close> p(1)] by blast
    then have "unfrozen (pl_status p')"
      using s2(3) True p(2) row_evolves_id [OF ev] by simp
    with ev show ?thesis by (auto simp: row_evolves_def dest: plan_path_unfrozen)
  next
    case False
    with that(1) have "st_core st \<in> st_core ` set m1"
      using q2(3) by (metis Un_iff image_eqI list.set_map set_append)
    then show ?thesis using s1(3) p by (auto dest: st_core_eqD)
  qed
  show ?thesis
    unfolding evolves_def
  proof (intro conjI exI)
    show "plan_steps u = qa @ (qb @ m2)" by (simp add: s2(1) q2(1))
    show "map st_core qa = map st_core (plan_steps s)" by (simp add: q2(2) s1(2))
  qed (use plans new in auto)
qed

section \<open>Well-formed databases\<close>

text \<open>The timestamps tell the truth: nothing is applied that was not approved first.\<close>

definition stamps_ok :: "plan_row \<Rightarrow> bool" where
  "stamps_ok p \<longleftrightarrow>
     (pl_status p \<in> {Approved, Applying, Applied, Verified, Failed, RollingBack, RolledBack}
        \<longrightarrow> pl_approved_at p \<noteq> None) \<and>
     (pl_status p \<in> {Applied, Verified} \<longrightarrow> pl_applied_at p \<noteq> None) \<and>
     (pl_status p = Verified \<longrightarrow> pl_verified_at p \<noteq> None)"

definition policy_sourced :: "plan_row list \<Rightarrow> policy_row \<Rightarrow> bool" where
  "policy_sourced ps po \<longleftrightarrow>
     (\<exists>p \<in> set ps. pl_id p = po_source_plan_id po \<and> pl_verified_at p \<noteq> None)"

definition wf_db :: "'d netops \<Rightarrow> bool" where
  "wf_db s \<longleftrightarrow> distinct (map pl_id (plans s)) \<and> distinct (map pl_key (plans s)) \<and>
     (\<forall>p \<in> set (plans s). stamps_ok p) \<and>
     distinct (map st_id (plan_steps s)) \<and>
     (\<forall>po \<in> set (policies s). policy_sourced (plans s) po)"

definition safe :: "'d netops \<Rightarrow> 'd netops \<Rightarrow> bool" where
  "safe s t \<longleftrightarrow> (wf_db s \<longrightarrow> wf_db t \<and> evolves s t)"

interpretation sf: frame "safe :: 'd netops \<Rightarrow> 'd netops \<Rightarrow> bool"
  by unfold_locales (auto simp: safe_def intro: evolves_trans)

lemma safe_frameI:
  assumes "plans t = plans s" and "plan_steps t = plan_steps s" and "policies t = policies s"
  shows "safe s t"
  using assms evolves_same [of t s] by (simp add: safe_def wf_db_def)

lemma safe_modify:
  assumes "\<And>s. plans (f s) = plans s" and "\<And>s. plan_steps (f s) = plan_steps s"
    and "\<And>s. policies (f s) = policies s"
  shows "confined safe (modify f)"
  by (intro sf.w_modify safe_frameI assms)

lemma safe_clock [simp]: "confined safe (read_clock L)" "confined safe (fresh_uuid L)"
  by (auto simp: confined_def read_clock_def fresh_uuid_def intro!: safe_frameI)

lemma safe_utc_now [simp]: "confined safe (utc_now L)"
  unfolding utc_now_def by (intro sf.frame_rules safe_clock)

lemma safe_plan_row_of [simp]: "confined safe (plan_row_of k)"
  unfolding plan_row_of_def by (intro sf.frame_rules)

lemma safe_get_change_plan [simp]: "confined safe (get_change_plan k)"
  unfolding get_change_plan_def by (intro sf.frame_rules safe_plan_row_of)

lemma safe_plan_digest [simp]: "confined safe (plan_digest L k)"
  unfolding plan_digest_def by (intro sf.frame_rules safe_plan_row_of)

subsection \<open>The effect of each write\<close>

definition upd_rows :: "nat \<Rightarrow> (plan_row \<Rightarrow> plan_row) \<Rightarrow> plan_row list \<Rightarrow> plan_row list" where
  "upd_rows i f ps = map (\<lambda>p. if pl_id p = i then f p else p) ps"

lemma update_plan_run [simp]:
  "update_plan i f s = (Inr (), s\<lparr>plans := upd_rows i f (plans s)\<rparr>)"
  by (simp add: update_plan_def modify_def upd_rows_def)

lemma plan_row_of_run:
  "plan_row_of k s = ((case find_plan (plans s) k of
     None \<Rightarrow> Inl (ValueError ''change plan not found'') | Some p \<Rightarrow> Inr p), s)"
  by (simp add: plan_row_of_def prog_simps split: option.split)

lemma utc_now_run [simp]:
  "utc_now L s = (Inr (isoz L (now_us L (ticks s))), s\<lparr>ticks := Suc (ticks s)\<rparr>)"
  by (simp add: utc_now_def read_clock_def prog_simps)

lemma get_change_plan_pure [simp]: "snd (get_change_plan k s) = s"
  by (simp add: get_change_plan_def plan_row_of_run prog_simps split: option.split)

lemma get_change_plan_state: "get_change_plan k s = (r, t) \<Longrightarrow> t = s"
  using get_change_plan_pure [of k s] by simp

lemma find_map_stable:
  assumes "\<And>x. P (g x) = P x"
  shows "find P (map g xs) = map_option g (find P xs)"
  using assms by (induction xs) auto

lemma find_plan_upd_rows:
  assumes "\<And>p. pl_key (f p) = pl_key p"
  shows "find_plan (upd_rows i f ps) k =
    map_option (\<lambda>p. if pl_id p = i then f p else p) (find_plan ps k)"
  unfolding find_plan_def upd_rows_def by (rule find_map_stable) (simp add: assms)

lemma find_plan_Some:
  "find_plan ps k = Some p \<Longrightarrow> p \<in> set ps \<and> pl_key p = k"
  by (auto simp: find_plan_def find_Some_iff)

lemma upd_rows_eq_single:
  assumes "distinct (map pl_id ps)" and "row \<in> set ps" and "pl_id row = i"
  shows "upd_rows i f ps = map (\<lambda>p. if p = row then f p else p) ps"
  unfolding upd_rows_def
proof (rule map_cong [OF refl])
  fix p assume "p \<in> set ps"
  then have "pl_id p = i \<longleftrightarrow> p = row"
    using assms by (auto simp: distinct_map inj_on_def)
  then show "(if pl_id p = i then f p else p) = (if p = row then f p else p)" by simp
qed

lemma map_upd_rows:
  assumes "\<And>p. g (f p) = g p"
  shows "map g (upd_rows i f ps) = map g ps"
  by (simp add: upd_rows_def assms)

lemma policy_sourced_upd:
  assumes "list_all2 row_evolves ps qs" and "policy_sourced ps po"
  shows "policy_sourced qs po"
proof -
  obtain p where "p \<in> set ps" "pl_id p = po_source_plan_id po" "pl_verified_at p \<noteq> None"
    using assms(2) by (auto simp: policy_sourced_def)
  moreover obtain q where "q \<in> set qs" "row_evolves p q"
    using list_all2_member [OF assms(1) \<open>p \<in> set ps\<close>] by blast
  ultimately show ?thesis
    unfolding policy_sourced_def
    by (intro bexI [of _ q]) (simp_all add: row_evolves_id, simp add: row_evolves_def)
qed

lemma safe_update_row:
  assumes find: "find_plan (plans s) k = Some row"
    and ids: "\<And>p. pl_id (f p) = pl_id p" "\<And>p. pl_key (f p) = pl_key p"
    and ev: "row_evolves row (f row)" "stamps_ok row \<Longrightarrow> stamps_ok (f row)"
    and t: "plans t = upd_rows (pl_id row) f (plans s)" "plan_steps t = plan_steps s"
      "policies t = policies s"
  shows "safe s t"
  unfolding safe_def
proof
  assume wf: "wf_db s"
  have row: "row \<in> set (plans s)" using find by (rule find_plan_Some [THEN conjunct1])
  have upd: "plans t = map (\<lambda>p. if p = row then f p else p) (plans s)"
    using wf row by (simp add: t upd_rows_eq_single wf_db_def)
  have all2: "list_all2 row_evolves (plans s) (plans t)"
    unfolding upd list_all2_map2 by (rule list_all2_refl) (simp add: ev)
  have stamps: "\<forall>p \<in> set (plans t). stamps_ok p"
    unfolding upd using wf row ev(2) by (auto simp: wf_db_def)
  have names: "map pl_id (plans t) = map pl_id (plans s)" "map pl_key (plans t) = map pl_key (plans s)"
    by (simp_all add: t(1) map_upd_rows ids)
  have "wf_db t"
    using wf stamps names policy_sourced_upd [OF all2] by (simp add: wf_db_def t(2,3))
  moreover have "evolves s t"
    by (rule evolvesI [of _ "plans t" "[]" _ "plan_steps s" "[]"]) (simp_all add: all2 t(2,3))
  ultimately show "wf_db t \<and> evolves s t" ..
qed

lemma transition_plan_run:
  "transition_plan L k target s = (case find_plan (plans s) k of
     None \<Rightarrow> (Inl (ValueError ''change plan not found''), s)
   | Some row \<Rightarrow>
       if \<not> plan_edge (pl_status row) target
       then (Inl (ValueError (''invalid status transition: '' @ status_text (pl_status row)
              @ '' -> '' @ status_text target)), s)
       else get_change_plan k (s\<lparr>ticks := Suc (ticks s),
              plans := upd_rows (pl_id row)
                (stamp_status target (isoz L (now_us L (ticks s)))) (plans s)\<rparr>))"
  by (simp add: transition_plan_def plan_row_of_run plan_edge_def prog_simps split: option.split)

lemma stamp_status_fields [simp]:
  "pl_id (stamp_status target now p) = pl_id p"
  "pl_key (stamp_status target now p) = pl_key p"
  "pl_status (stamp_status target now p) = target"
  by (simp_all add: stamp_status_def)

lemma row_evolves_stamp:
  "plan_edge (pl_status p) target \<Longrightarrow> row_evolves p (stamp_status target now p)"
  by (auto simp: row_evolves_def stamp_status_def pl_core_def)

lemma stamps_ok_stamp:
  "plan_edge (pl_status p) target \<Longrightarrow> stamps_ok p \<Longrightarrow> stamps_ok (stamp_status target now p)"
  by (cases "pl_status p") (auto simp: plan_edge_def stamps_ok_def stamp_status_def)

lemma safe_transition_plan [simp]: "confined safe (transition_plan L k target)"
proof (rule confinedI)
  fix s r t assume run: "transition_plan L k target s = (r, t)"
  show "safe s t"
  proof (cases "\<exists>row. find_plan (plans s) k = Some row \<and> plan_edge (pl_status row) target")
    case True
    then obtain row where row: "find_plan (plans s) k = Some row"
      and edge: "plan_edge (pl_status row) target" by blast
    have t: "t = s\<lparr>ticks := Suc (ticks s), plans := upd_rows (pl_id row)
        (stamp_status target (isoz L (now_us L (ticks s)))) (plans s)\<rparr>"
      using run row edge by (intro get_change_plan_state) (simp add: transition_plan_run)
    show ?thesis
      by (rule safe_update_row [OF row,
            where f = "stamp_status target (isoz L (now_us L (ticks s)))"])
        (simp_all add: t edge row_evolves_stamp stamps_ok_stamp)
  next
    case False
    then have "t = s" using run by (auto simp: transition_plan_run split: option.splits if_splits)
    then show ?thesis by (simp add: sf.frame_refl)
  qed
qed

lemma safe_update_draft_plan [simp]: "confined safe (update_draft_plan L k new_reason)"
proof (rule confinedI)
  fix s r t assume run: "update_draft_plan L k new_reason s = (r, t)"
  let ?f = "\<lambda>p. p\<lparr>pl_reason := new_reason, pl_updated_at := isoz L (now_us L (ticks s))\<rparr>"
  show "safe s t"
  proof (cases "\<exists>row. find_plan (plans s) k = Some row \<and> unfrozen (pl_status row) \<and> new_reason \<noteq> []")
    case True
    then obtain row where row: "find_plan (plans s) k = Some row" and un: "unfrozen (pl_status row)"
      and ne: "new_reason \<noteq> []" by blast
    have t: "t = s\<lparr>ticks := Suc (ticks s), plans := upd_rows (pl_id row) ?f (plans s)\<rparr>"
      using run row un ne
      by (intro get_change_plan_state) (simp add: update_draft_plan_def plan_row_of_run prog_simps)
    show ?thesis
      by (rule safe_update_row [OF row, where f = ?f])
        (use un in \<open>auto simp: t row_evolves_def pl_core_def stamps_ok_def\<close>)
  next
    case False
    then have "t = s"
      using run
      by (auto simp: update_draft_plan_def plan_row_of_run prog_simps
          split: option.splits if_splits)
    then show ?thesis by (simp add: sf.frame_refl)
  qed
qed

lemma policy_sourced_mono: "policy_sourced ps po \<Longrightarrow> policy_sourced (ps @ qs) po"
  by (auto simp: policy_sourced_def)

lemma safe_insert_plan:
  assumes "pl_status p = Draft"
  shows "confined safe (insert_plan p)"
proof (rule confinedI)
  fix s r t assume run: "insert_plan p s = (r, t)"
  define i where "i = next_id (map pl_id (plans s))"
  show "safe s t"
  proof (cases "pl_key p \<in> pl_key ` set (plans s)")
    case True
    with run show ?thesis by (simp add: insert_plan_def sf.frame_refl)
  next
    case False
    with run have t: "t = s\<lparr>plans := plans s @ [p\<lparr>pl_id := i\<rparr>]\<rparr>"
      by (auto simp: insert_plan_def i_def Let_def)
    have fresh: "i \<notin> pl_id ` set (plans s)"
      using next_id_fresh [of i "map pl_id (plans s)"] by (auto simp: i_def)
    have "evolves s t"
      by (rule evolvesI [of _ "plans s" "[p\<lparr>pl_id := i\<rparr>]" _ "plan_steps s" "[]"])
        (auto simp: t intro: list_all2_refl)
    then show ?thesis
      using False fresh assms
      by (auto simp: safe_def wf_db_def t stamps_ok_def policy_sourced_mono)
  qed
qed

lemma safe_create_change_plan [simp]: "confined safe (create_change_plan L a)"
  unfolding create_change_plan_def
  by (intro sf.frame_rules safe_utc_now safe_insert_plan) (simp add: new_plan_row_def Let_def)

lemma safe_add_plan_step [simp]: "confined safe (add_plan_step k adapter operation target request)"
proof (rule confinedI)
  fix s r t assume run: "add_plan_step k adapter operation target request s = (r, t)"
  show "safe s t"
  proof (cases "\<exists>row. find_plan (plans s) k = Some row \<and> unfrozen (pl_status row)")
    case False
    then have "t = s"
      using run by (auto simp: add_plan_step_def plan_row_of_run prog_simps split: option.splits if_splits)
    then show ?thesis by (simp add: sf.frame_refl)
  next
    case True
    then obtain row where row: "find_plan (plans s) k = Some row" and un: "unfrozen (pl_status row)"
      by blast
    obtain st where t: "t = s\<lparr>plan_steps := plan_steps s @ [st]\<rparr>"
      and st: "st_plan_id st = pl_id row" "st_id st = next_id (map st_id (plan_steps s))"
      using run row un
      by (auto simp: add_plan_step_def plan_row_of_run insert_step_def Let_def prog_simps)
    have mem: "row \<in> set (plans s)" using find_plan_Some [OF row] by simp
    show ?thesis
      unfolding safe_def
    proof
      assume wf: "wf_db s"
      have "st_id st \<notin> st_id ` set (plan_steps s)"
        using next_id_fresh [of "st_id st" "map st_id (plan_steps s)"] st(2) by auto
      then have "wf_db t" using wf by (simp add: wf_db_def t)
      moreover have "evolves s t"
        using wf mem un st(1)
        by (intro evolvesI [of _ "plans s" "[]" _ "plan_steps s" "[st]"])
          (auto simp: t wf_db_def distinct_map inj_on_def intro: list_all2_refl)
      ultimately show "wf_db t \<and> evolves s t" ..
    qed
  qed
qed

lemma upsert_policy_row_set:
  "po \<in> set (upsert_policy_row new ps) \<Longrightarrow>
     po \<in> set ps \<or> po_source_plan_id po = po_source_plan_id new"
  by (auto simp: upsert_policy_row_def split: if_splits)

lemma safe_upsert_desired_policy [simp]:
  "confined safe (upsert_desired_policy L k st sk ds reason scope)"
proof (rule confinedI)
  fix s r t assume run: "upsert_desired_policy L k st sk ds reason scope s = (r, t)"
  show "safe s t"
  proof (cases "\<exists>plan. find_plan (plans s) k = Some plan \<and> pl_status plan = Verified
      \<and> st \<in> {''asset'', ''user''} \<and> ds \<in> {''allow'', ''deny''}")
    case False
    then have "t = s"
      using run
      by (auto simp: upsert_desired_policy_def plan_row_of_run prog_simps split: option.splits if_splits)
    then show ?thesis by (simp add: sf.frame_refl)
  next
    case True
    then obtain plan where plan: "find_plan (plans s) k = Some plan" "pl_status plan = Verified"
        "st \<in> {''asset'', ''user''}" "ds \<in> {''allow'', ''deny''}"
      by blast
    obtain new where t: "t = s\<lparr>ticks := Suc (ticks s), policies := upsert_policy_row new (policies s)\<rparr>"
      and new: "po_source_plan_id new = pl_id plan"
      using run plan
      by (auto simp: upsert_desired_policy_def plan_row_of_run Let_def prog_simps)
    have mem: "plan \<in> set (plans s)" using find_plan_Some [OF plan(1)] by simp
    show ?thesis
      unfolding safe_def
    proof
      assume wf: "wf_db s"
      have "pl_verified_at plan \<noteq> None"
        using wf mem plan(2) by (auto simp: wf_db_def stamps_ok_def)
      then have "policy_sourced (plans s) po" if "po \<in> set (upsert_policy_row new (policies s))" for po
        using upsert_policy_row_set [OF that] wf mem new by (auto simp: wf_db_def policy_sourced_def)
      with wf have "wf_db t" by (simp add: wf_db_def t)
      moreover have "evolves s t" by (rule evolves_same) (simp_all add: t)
      ultimately show "wf_db t \<and> evolves s t" ..
    qed
  qed
qed

section \<open>The digest of a frozen plan\<close>

lemma step_digest_item_core: "step_digest_item L (st_core st) = step_digest_item L st"
  by (simp add: step_digest_item_def st_core_def)

lemma st_core_sel [simp]:
  "st_order (st_core st) = st_order st" "st_plan_id (st_core st) = st_plan_id st"
  by (simp_all add: st_core_def)

lemma steps_of_core:
  "map st_core (steps_of s i) =
     sort_key st_order (filter (\<lambda>st. st_plan_id st = i) (map st_core (plan_steps s)))"
  unfolding steps_of_def
  by (subst map_sort_key [where k' = st_order], simp,
      subst map_filter_stable [where P' = "\<lambda>st. st_plan_id st = i"], simp_all)

lemma evolves_steps_of:
  assumes "evolves s t" and "p \<in> set (plans s)" and "\<not> unfrozen (pl_status p)"
  shows "map st_core (steps_of t (pl_id p)) = map st_core (steps_of s (pl_id p))"
proof -
  obtain new old where steps: "plan_steps t = old @ new"
      "map st_core old = map st_core (plan_steps s)"
    and new: "\<forall>st \<in> set new. \<forall>p \<in> set (plans s). pl_id p = st_plan_id st \<longrightarrow> unfrozen (pl_status p)"
    using assms(1) by (auto simp: evolves_def)
  have "filter (\<lambda>st. st_plan_id st = pl_id p) (map st_core new) = []"
    using new assms(2,3) by (auto simp: filter_empty_conv)
  then show ?thesis by (simp add: steps_of_core steps)
qed

lemma list_all2_find:
  assumes "list_all2 row_evolves ps qs"
  shows "find (\<lambda>p. pl_key p = k) ps = Some p \<Longrightarrow>
    \<exists>q. find (\<lambda>p. pl_key p = k) qs = Some q \<and> row_evolves p q"
  using assms
proof (induction rule: list_all2_induct)
  case (Cons x xs y ys)
  then have "pl_key y = pl_key x" unfolding row_evolves_def by (blast dest: pl_core_eqD(2))
  with Cons show ?case by (cases "pl_key x = k") auto
qed simp

lemma find_append: "find P xs = Some y \<Longrightarrow> find P (xs @ ys) = Some y"
  by (induction xs) auto

lemma evolves_find_plan:
  assumes "evolves s t" and "find_plan (plans s) k = Some p"
  shows "\<exists>q. find_plan (plans t) k = Some q \<and> row_evolves p q"
proof -
  obtain new old where t: "plans t = old @ new" and old: "list_all2 row_evolves (plans s) old"
    using assms(1) by (auto simp: evolves_def)
  from list_all2_find [OF old] assms(2) obtain q
    where "find (\<lambda>p. pl_key p = k) old = Some q" "row_evolves p q"
    unfolding find_plan_def by blast
  then show ?thesis unfolding find_plan_def t by (blast intro: find_append)
qed

lemma plan_digest_run:
  "plan_digest L k s = (case find_plan (plans s) k of
     None \<Rightarrow> (Inl (ValueError ''change plan not found''), s)
   | Some p \<Rightarrow> (Inr (canonical_sha256 L (plan_digest_body L p (steps_of s (pl_id p)))), s))"
  by (simp add: plan_digest_def plan_row_of_run prog_simps split: option.split)

lemma plan_digest_frozen:
  assumes ev: "evolves s t" and find: "find_plan (plans s) k = Some p"
    and frozen: "\<not> unfrozen (pl_status p)"
  shows "fst (plan_digest L k t) = fst (plan_digest L k s)"
proof -
  obtain q where q: "find_plan (plans t) k = Some q" and pq: "row_evolves p q"
    using evolves_find_plan [OF ev find] by blast
  have mem: "p \<in> set (plans s)" using find_plan_Some [OF find] by simp
  have items: "map (step_digest_item L) (steps_of t (pl_id p)) = map (step_digest_item L) (steps_of s (pl_id p))"
    using arg_cong [OF evolves_steps_of [OF ev mem frozen], of "map (step_digest_item L)"]
    by (simp add: step_digest_item_core comp_def)
  have core: "pl_core q = pl_core p" and reason: "pl_reason q = pl_reason p"
    using pq frozen by (simp_all add: row_evolves_def)
  have "plan_digest_body L q (steps_of t (pl_id q)) = plan_digest_body L p (steps_of s (pl_id p))"
    unfolding plan_digest_body_def pl_core_eqD [OF core] reason items ..
  then show ?thesis by (simp add: plan_digest_run find q)
qed

section \<open>Guarantees of the store\<close>

lemma find_plan_same_id:
  assumes "wf_db s" and "find_plan (plans s) k = Some p" and "find_plan (plans s) k' = Some q" and "pl_id q = pl_id p"
  shows "k' = k"
  using assms find_plan_Some [OF assms(2)] find_plan_Some [OF assms(3)]
  by (auto simp: wf_db_def distinct_map dest: inj_onD)


lemma same_policy_eqs:
  "same_policy a a" "same_policy a b \<Longrightarrow> same_policy b a" "same_policy a b \<Longrightarrow> same_policy b c \<Longrightarrow> same_policy a c"
  by (simp_all add: same_policy_def)

lemma same_policy_upd [simp]:
  "same_policy (p\<lparr>po_desired_state := a, po_reason := b, po_valid_from := c, po_source_plan_id := d,
     po_status := e, po_updated_at := f\<rparr>) q \<longleftrightarrow> same_policy p q"
  "same_policy (p\<lparr>po_id := i\<rparr>) q \<longleftrightarrow> same_policy p q"
  by (simp_all add: same_policy_def)

lemma upsert_policy_find:
  assumes st: "po_status new = ''active''"
  shows "\<exists>po. find (\<lambda>p. same_policy p new) (upsert_policy_row new ps) = Some po \<and>
      po_desired_state po = po_desired_state new \<and> po_source_plan_id po = po_source_plan_id new \<and>
      po_status po = ''active'' \<and> po_reason po = po_reason new"
    and "filter (\<lambda>p. \<not> same_policy p new) (upsert_policy_row new ps) = filter (\<lambda>p. \<not> same_policy p new) ps"
proof -
  let ?u = "\<lambda>p. if same_policy p new then p\<lparr>po_desired_state := po_desired_state new, po_reason := po_reason new,
      po_valid_from := po_valid_from new, po_source_plan_id := po_source_plan_id new,
      po_status := ''active'', po_updated_at := po_updated_at new\<rparr> else p"
  have fm: "find (\<lambda>p. same_policy p new) (map ?u ps) = map_option ?u (find (\<lambda>p. same_policy p new) ps)"
    by (rule find_map_stable) simp
  have fl: "filter (\<lambda>p. \<not> same_policy p new) (map ?u ps) = filter (\<lambda>p. \<not> same_policy p new) ps"
    by (induction ps) auto
  have none: "find (\<lambda>p. same_policy p new) (ps @ qs) = find (\<lambda>p. same_policy p new) qs"
    if "\<not> (\<exists>p \<in> set ps. same_policy p new)" for qs using that by (induction ps) auto
  show "\<exists>po. find (\<lambda>p. same_policy p new) (upsert_policy_row new ps) = Some po \<and>
      po_desired_state po = po_desired_state new \<and> po_source_plan_id po = po_source_plan_id new \<and>
      po_status po = ''active'' \<and> po_reason po = po_reason new"
  proof (cases "\<exists>p \<in> set ps. same_policy p new")
    case True
    then obtain p where p: "find (\<lambda>p. same_policy p new) ps = Some p" "same_policy p new"
      by (cases "find (\<lambda>p. same_policy p new) ps") (auto simp: find_None_iff dest: find_SomeD)
    with True show ?thesis by (simp add: upsert_policy_row_def fm)
  next
    case False
    then show ?thesis by (simp add: upsert_policy_row_def none same_policy_eqs(1) st)
  qed
  show "filter (\<lambda>p. \<not> same_policy p new) (upsert_policy_row new ps) = filter (\<lambda>p. \<not> same_policy p new) ps"
    using fl by (simp add: upsert_policy_row_def same_policy_eqs(1))
qed

text \<open>A desired policy is recorded only for a verified plan. Without one, or with a subject or a state
  outside the vocabulary, the call fails and the database is untouched. Otherwise the row of that subject and
  scope (inserted or rewritten) is active, carries the requested state and names the plan as its source;
  the policies of other subjects are untouched, and every policy of the database still comes from a plan that
  was verified.\<close>

theorem desired_policy_needs_verified_plan:
  assumes wf: "wf_db s" and p: "find_plan (plans s) k = Some p"
    and run: "upsert_desired_policy L k subject_type subject_key desired reason scope s = (r, t)"
  shows "(pl_status p \<noteq> Verified \<or> subject_type \<notin> {''asset'', ''user''} \<or> desired \<notin> {''allow'', ''deny''} \<longrightarrow>
       t = s \<and> isl r)
    \<and> (pl_status p = Verified \<and> subject_type \<in> {''asset'', ''user''} \<and> desired \<in> {''allow'', ''deny''} \<longrightarrow>
       (\<exists>po. r = Inr (Some po) \<and> po \<in> set (policies t) \<and> po_subject_type po = subject_type
          \<and> po_subject_key po = subject_key \<and> po_enforcement_scope po = scope \<and> po_desired_state po = desired
          \<and> po_source_plan_id po = pl_id p \<and> po_status po = ''active'')
       \<and> filter (\<lambda>q. \<not> (po_subject_type q = subject_type \<and> po_subject_key q = subject_key)) (policies t)
         = filter (\<lambda>q. \<not> (po_subject_type q = subject_type \<and> po_subject_key q = subject_key)) (policies s)
       \<and> plans t = plans s \<and> (\<forall>po \<in> set (policies t). policy_sourced (plans t) po))"
proof (cases "pl_status p = Verified \<and> subject_type \<in> {''asset'', ''user''} \<and> desired \<in> {''allow'', ''deny''}")
  case False
  then show ?thesis
    using run p by (auto simp: upsert_desired_policy_def plan_row_of_run prog_simps split: if_splits)
next
  case True
  define now where "now = isoz L (now_us L (ticks s))"
  define new where "new = \<lparr>po_id = 0, po_subject_type = subject_type, po_subject_key = subject_key,
      po_policy_type = ''internet_access'', po_desired_state = desired, po_enforcement_scope = scope,
      po_reason = reason, po_valid_from = now, po_source_plan_id = pl_id p, po_status = ''active'', po_updated_at = now\<rparr>"
  have "upsert_desired_policy L k subject_type subject_key desired reason scope s =
      (let s' = s\<lparr>ticks := Suc (ticks s), policies := upsert_policy_row new (policies s)\<rparr>
       in (Inr (find (\<lambda>q. same_policy q new) (policies s')), s'))"
    using p conjunct1 [OF True] conjunct2 [OF True]
    by (simp only: upsert_desired_policy_def plan_row_of_run Let_def prog_defs option.case prod.case sum.case
        new_def now_def if_False simp_thms utc_now_run not_not) simp
  with run have t: "t = s\<lparr>ticks := Suc (ticks s), policies := upsert_policy_row new (policies s)\<rparr>"
    and r: "r = Inr (find (\<lambda>q. same_policy q new) (policies t))"
    by (auto simp: Let_def)
  obtain po where po: "find (\<lambda>p. same_policy p new) (policies t) = Some po" "po_desired_state po = desired"
      "po_source_plan_id po = pl_id p" "po_status po = ''active''"
    using upsert_policy_find(1) [of new "policies s"] by (auto simp: t new_def)
  have "po \<in> set (policies t)" "same_policy po new" using find_SomeD [OF po(1)] by simp_all
  moreover have narrow: "filter (\<lambda>q. \<not> (po_subject_type q = subject_type \<and> po_subject_key q = subject_key)) xs
      = filter (\<lambda>q. \<not> (po_subject_type q = subject_type \<and> po_subject_key q = subject_key))
          (filter (\<lambda>q. \<not> same_policy q new) xs)" for xs
    unfolding filter_filter by (rule filter_cong) (auto simp: same_policy_def new_def)
  have kept: "filter (\<lambda>q. \<not> same_policy q new) (policies t) = filter (\<lambda>q. \<not> same_policy q new) (policies s)"
    using upsert_policy_find(2) [of new "policies s"] by (simp add: t new_def)
  have others: "filter (\<lambda>q. \<not> (po_subject_type q = subject_type \<and> po_subject_key q = subject_key)) (policies t)
      = filter (\<lambda>q. \<not> (po_subject_type q = subject_type \<and> po_subject_key q = subject_key)) (policies s)"
    by (simp only: narrow [of "policies t"] narrow [of "policies s"] kept)
  have wf': "wf_db t" using confinedD [OF safe_upsert_desired_policy run] wf by (simp add: safe_def)
  have "po_subject_type po = subject_type" "po_subject_key po = subject_key" "po_enforcement_scope po = scope"
    using \<open>same_policy po new\<close> by (simp_all add: same_policy_def new_def)
  moreover have "plans t = plans s" by (simp add: t)
  ultimately show ?thesis using True po r others \<open>po \<in> set (policies t)\<close> wf' unfolding wf_db_def by simp
qed

text \<open>A database with one verified plan.\<close>

definition demo_row :: "plan_status \<Rightarrow> plan_row" where
  "demo_row st = \<lparr>pl_id = 1, pl_key = ''plan-1'', pl_actor = ''user:7'', pl_reason = ''test'', pl_subject_type = ''asset'',
     pl_subject_key = ''a1'', pl_operation_type = ''internet_access_set'', pl_desired_state_json = Doc (JObj []),
     pl_resolved_targets_json = Doc (JList []), pl_context_evidence_hash = [], pl_precheck_json = Doc (JObj []),
     pl_rollback_json = Doc (JObj []), pl_status = st, pl_created_at = ''T0'', pl_approved_at = Some ''T0'',
     pl_applied_at = Some ''T0'', pl_verified_at = Some ''T0'', pl_updated_at = ''T0'', pl_plan_basis_json = Doc (JObj []),
     pl_plan_basis_hash = [], pl_plan_schema_version = 1, pl_authorization_version = 1, pl_operation_version = 1\<rparr>"

definition demo_store :: "plan_status \<Rightarrow> unit netops" where
  "demo_store st = (empty_db ())\<lparr>plans := [demo_row st]\<rparr>"

lemma demo_store_facts:
  "wf_db (demo_store st)" "find_plan (plans (demo_store st)) ''plan-1'' = Some (demo_row st)"
  "pl_status (demo_row st) = st"
  by (simp_all add: demo_store_def demo_row_def empty_db_def wf_db_def stamps_ok_def find_plan_def)


theorem desired_policy_needs_verified_plan_witness:
  "snd (upsert_desired_policy (demo_lib (\<lambda>_. 0)) ''plan-1'' ''asset'' ''a1'' ''deny'' ''r'' ''all-sites'' (demo_store Applied))
     = demo_store Applied
   \<and> (\<exists>po \<in> set (policies (snd (upsert_desired_policy (demo_lib (\<lambda>_. 0)) ''plan-1'' ''asset'' ''a1'' ''deny'' ''r'' ''all-sites''
        (demo_store Verified)))). po_desired_state po = ''deny'' \<and> po_source_plan_id po = 1)"
proof -
  have "pl_id (demo_row Verified) = 1" by (simp add: demo_row_def)
  with desired_policy_needs_verified_plan [OF demo_store_facts(1,2) surjective_pairing, of Applied
      "''asset''" "''deny''" "demo_lib (\<lambda>_. 0)" "''a1''" "''r''" "''all-sites''"]
    desired_policy_needs_verified_plan [OF demo_store_facts(1,2) surjective_pairing, of Verified
      "''asset''" "''deny''" "demo_lib (\<lambda>_. 0)" "''a1''" "''r''" "''all-sites''"]
  show ?thesis by (auto simp: demo_store_facts(3))
qed

end
