(* ===== verification/MikroTik_Adapter.thy ===== *)
theory MikroTik_Adapter
  imports Plan_Store
begin

text \<open>
  The enforcement adapter (\<open>netopsctl/adapters/mikrotik.py\<close>): the only code that writes to the
  firewall. It sees the router through one function, \<open>call\<close>, that takes the words of an API
  sentence and returns rows; \<open>call\<close> is a parameter, a program over an arbitrary device state. The
  operations are collected in the record \<open>adapter\<close> that the plan executor takes as an argument.

  Shown here, for any router: the adapter never sends a write other than adding the entry it was
  asked for, or removing one it owns, and only behind a valid anchor. For a router that keeps its
  tables (the locale \<open>router\<close>), the operations have the meaning the executor relies on (the locale
  \<open>device_adapter\<close>): ensure adds exactly the entry, remove deletes exactly the entry, inspection and
  listing change nothing.
\<close>

section \<open>Constants and row tests\<close>

definition ADDRESS_LIST_NAME :: string where
  "ADDRESS_LIST_NAME = ''WEBOVPN-INTERNET-DENY''"

definition MANAGED_COMMENT_PREFIX :: string where
  "MANAGED_COMMENT_PREFIX = ''web_ovpn:''"

definition ANCHOR_COMMENT :: string where
  "ANCHOR_COMMENT = ''web_ovpn:internet-policy-anchor:v1''"

definition policy_key_re :: "string \<Rightarrow> bool" where
  "policy_key_re = ident_match is_alnum (\<lambda>c. is_alnum c \<or> in_chars ''._-'' c) 127"

definition asset_key_re :: "string \<Rightarrow> bool" where
  "asset_key_re = ident_match is_alnum (\<lambda>c. is_alnum c \<or> in_chars ''._:-'' c) 180"

text \<open>\<open>str(row.get(key) or "")\<close>.\<close>

definition col :: "pylib \<Rightarrow> json \<Rightarrow> string \<Rightarrow> string" where
  "col L row key = str_or_empty L (get row key)"

definition falsy_flag :: "string \<Rightarrow> bool" where
  "falsy_flag s \<longleftrightarrow> lower s \<in> {''false'', ''no'', ''0'', []}"

definition is_anchor :: "pylib \<Rightarrow> json \<Rightarrow> bool" where
  "is_anchor L row \<longleftrightarrow> col L row ''chain'' = ''forward'' \<and> col L row ''action'' = ''drop''
     \<and> col L row ''src-address-list'' = ADDRESS_LIST_NAME
     \<and> col L row ''out-interface-list'' = ''WAN''
     \<and> falsy_flag (col L row ''disabled'') \<and> falsy_flag (col L row ''log'')
     \<and> col L row ''comment'' = ANCHOR_COMMENT"

section \<open>The anchor\<close>

type_synonym 'd router_call = "string list \<Rightarrow> ('d, json list) prog"

definition FILTER_PRINT :: "string list" where
  "FILTER_PRINT = [''/ip/firewall/filter/print'', ''=.proplist=.id,chain,action,src-address-list,out-interface-list,connection-state,disabled,log,comment,bytes,packets'']"

text \<open>The scan of the rules before the anchor for one that would bypass it.\<close>

fun bypass_reason :: "pylib \<Rightarrow> json list \<Rightarrow> string" where
  "bypass_reason L [] = []"
| "bypass_reason L (row # rows) =
     (if col L row ''chain'' \<noteq> ''forward'' then bypass_reason L rows
      else if \<not> falsy_flag (col L row ''disabled'') then bypass_reason L rows
      else if col L row ''action'' = ''fasttrack-connection'' then ''enabled_fasttrack_precedes_anchor''
      else if col L row ''action'' = ''accept'' then ''enabled_forward_accept_precedes_anchor''
      else bypass_reason L rows)"

definition project :: "pylib \<Rightarrow> string list \<Rightarrow> json \<Rightarrow> json" where
  "project L keys row = JObj (map (\<lambda>k. (k, JStr (col L row k))) keys)"

definition anchor_fingerprint :: "pylib \<Rightarrow> nat \<Rightarrow> json \<Rightarrow> json list \<Rightarrow> string" where
  "anchor_fingerprint L position anchor rows = ''sha256:'' @ sha256 L (dumps (float_repr L) True (JObj
     [(''anchor'', project L [''chain'', ''action'', ''src-address-list'', ''out-interface-list'',
         ''connection-state'', ''disabled'', ''log'', ''comment''] anchor),
      (''position'', JInt (int position)),
      (''preceding_forward_rules'', JList (map (project L [''chain'', ''action'', ''connection-state'',
          ''src-address-list'', ''out-interface-list'', ''disabled'', ''comment''])
        (filter (\<lambda>row. col L row ''chain'' = ''forward'') (take position rows))))]))"

definition anchor_report :: "pylib \<Rightarrow> json list \<Rightarrow> json" where
  "anchor_report L rows =
     (case filter (\<lambda>(i, row). is_anchor L row) (zip [0..<length rows] rows) of
        [(position, anchor)] \<Rightarrow>
          let reason = bypass_reason L (take position rows) in JObj
           [(''valid'', JBool (reason = [])), (''anchor'', JStr ADDRESS_LIST_NAME),
            (''match_count'', JInt 1), (''anchor_id'', JStr (col L anchor ''.id'')),
            (''anchor_position'', JInt (int position)),
            (''counters'', project L [''bytes'', ''packets''] anchor),
            (''reason'', JStr reason), (''fingerprint'', JStr (anchor_fingerprint L position anchor rows))]
      | matches \<Rightarrow> JObj
           [(''valid'', JBool False), (''anchor'', JStr ADDRESS_LIST_NAME),
            (''match_count'', JInt (int (length matches))), (''anchor_id'', JStr []),
            (''anchor_position'', JInt (-1)),
            (''counters'', JObj [(''bytes'', JStr []), (''packets'', JStr [])]),
            (''reason'', JStr ''anchor_count''), (''fingerprint'', JStr [])])"

definition inspect_internet_policy_anchor :: "pylib \<Rightarrow> 'd router_call \<Rightarrow> ('d, json) prog" where
  "inspect_internet_policy_anchor L call = bind (call FILTER_PRINT) (\<lambda>rows. ret (anchor_report L rows))"

definition require_anchor :: "pylib \<Rightarrow> 'd router_call \<Rightarrow> ('d, json) prog" where
  "require_anchor L call = bind (inspect_internet_policy_anchor L call) (\<lambda>inspection.
     if \<not> truthy (get inspection ''valid'')
     then raise (ValueError ''required Internet policy anchor is missing or does not match the approved signature'')
     else ret inspection)"

section \<open>Address-list entries\<close>

definition adapter_ipv4 :: "pylib \<Rightarrow> json \<Rightarrow> string res" where
  "adapter_ipv4 L address = (case ip_address L address of
     None \<Rightarrow> Inl (ValueError ''only IPv4 addresses are allowed'')
   | Some v \<Rightarrow> if ip_version v \<noteq> 4 then Inl (ValueError ''only IPv4 addresses are allowed'')
       else Inr (ip_text L v))"

definition ownership_comment :: "string \<Rightarrow> json \<Rightarrow> string res" where
  "ownership_comment policy_key asset_key =
     (if \<not> policy_key_re policy_key then Inl (ValueError ''invalid policy or asset key'')
      else if \<not> is_str asset_key then Inl TypeError
      else if \<not> asset_key_re (str_value asset_key) then Inl (ValueError ''invalid policy or asset key'')
      else Inr (''web_ovpn:policy:'' @ policy_key @ '':asset:'' @ str_value asset_key))"

definition LIST_PRINT :: "string list" where
  "LIST_PRINT = [''/ip/firewall/address-list/print'', ''=.proplist=.id,list,address,comment,disabled'',
     ''?list='' @ ADDRESS_LIST_NAME]"

definition ADD_ENTRY :: "string \<Rightarrow> string \<Rightarrow> string list" where
  "ADD_ENTRY address comment = [''/ip/firewall/address-list/add'', ''=list='' @ ADDRESS_LIST_NAME,
     ''=address='' @ address, ''=comment='' @ comment]"

definition REMOVE_ENTRY :: "string \<Rightarrow> string list" where
  "REMOVE_ENTRY entry_id = [''/ip/firewall/address-list/remove'', ''=.id='' @ entry_id]"

definition check_target :: "string \<Rightarrow> string \<Rightarrow> ('d, unit) prog" where
  "check_target source target = (if target \<noteq> source
     then raise (ValueError ''target is not the configured MikroTik enforcement source'') else ret ())"

definition in_list :: "pylib \<Rightarrow> string \<Rightarrow> json \<Rightarrow> bool" where
  "in_list L address row \<longleftrightarrow> col L row ''list'' = ADDRESS_LIST_NAME \<and> col L row ''address'' = address"

definition entry_result :: "string \<Rightarrow> string \<Rightarrow> json \<Rightarrow> json" where
  "entry_result status address anchor = JObj
     [(''status'', JStr status), (''address'', JStr address),
      (''anchor_before'', JObj [(''fingerprint'', get anchor ''fingerprint''), (''counters'', get anchor ''counters'')])]"

definition list_managed_address_list_entries ::
    "pylib \<Rightarrow> string \<Rightarrow> 'd router_call \<Rightarrow> string \<Rightarrow> ('d, json list) prog" where
  "list_managed_address_list_entries L source call target =
     seq (check_target source target)
       (bind (call LIST_PRINT) (\<lambda>rows.
         ret (map (project L [''address'', ''comment'', ''disabled''])
           (filter (\<lambda>row. col L row ''list'' = ADDRESS_LIST_NAME
              \<and> startswith (col L row ''comment'') MANAGED_COMMENT_PREFIX) rows))))"

definition ensure_address_list_entry ::
    "pylib \<Rightarrow> string \<Rightarrow> 'd router_call \<Rightarrow> string \<Rightarrow> json \<Rightarrow> string \<Rightarrow> json \<Rightarrow> ('d, json) prog" where
  "ensure_address_list_entry L source call target address policy_key asset_key =
     seq (check_target source target)
       (bind (lift (adapter_ipv4 L address)) (\<lambda>address.
        bind (lift (ownership_comment policy_key asset_key)) (\<lambda>comment.
        bind (require_anchor L call) (\<lambda>anchor.
        bind (call LIST_PRINT) (\<lambda>rows.
        case find (in_list L address) rows of
          Some row \<Rightarrow>
            if col L row ''comment'' \<noteq> comment
            then raise (ValueError ''existing address-list entry does not have this plan ownership'')
            else ret (entry_result ''already_present'' address anchor)
        | None \<Rightarrow>
            seq (call (ADD_ENTRY address comment)) (ret (entry_result ''added'' address anchor)))))))"

definition remove_address_list_entry ::
    "pylib \<Rightarrow> string \<Rightarrow> 'd router_call \<Rightarrow> string \<Rightarrow> json \<Rightarrow> string \<Rightarrow> json \<Rightarrow> ('d, json) prog" where
  "remove_address_list_entry L source call target address policy_key asset_key =
     seq (check_target source target)
       (bind (lift (adapter_ipv4 L address)) (\<lambda>address.
        bind (lift (ownership_comment policy_key asset_key)) (\<lambda>comment.
        bind (require_anchor L call) (\<lambda>anchor.
        bind (call LIST_PRINT) (\<lambda>rows.
        case find (in_list L address) rows of
          None \<Rightarrow> ret (entry_result ''already_absent'' address anchor)
        | Some row \<Rightarrow>
            if col L row ''comment'' \<noteq> comment
            then raise (ValueError ''existing address-list entry does not have this plan ownership'')
            else if col L row ''.id'' = []
            then raise (ValueError ''managed address-list entry has no identifier'')
            else seq (call (REMOVE_ENTRY (col L row ''.id'')))
              (ret (entry_result ''removed'' address anchor)))))))"

section \<open>The adapter as a value\<close>

record 'd adapter =
  ad_inspect :: "('d, json) prog"
  ad_comment :: "string \<Rightarrow> json \<Rightarrow> string res"
  ad_list :: "string \<Rightarrow> ('d, json list) prog"
  ad_ensure :: "string \<Rightarrow> json \<Rightarrow> string \<Rightarrow> json \<Rightarrow> ('d, json) prog"
  ad_remove :: "string \<Rightarrow> json \<Rightarrow> string \<Rightarrow> json \<Rightarrow> ('d, json) prog"

definition mikrotik :: "pylib \<Rightarrow> string \<Rightarrow> 'd router_call \<Rightarrow> 'd adapter" where
  "mikrotik L source call =
     \<lparr>ad_inspect = inspect_internet_policy_anchor L call,
      ad_comment = ownership_comment,
      ad_list = list_managed_address_list_entries L source call,
      ad_ensure = ensure_address_list_entry L source call,
      ad_remove = remove_address_list_entry L source call\<rparr>"

section \<open>What is sent to the router\<close>

text \<open>The same router with a log of the sentences it received.\<close>

definition logged :: "'d router_call \<Rightarrow> (string list list \<times> 'd) router_call" where
  "logged call ws = (\<lambda>(lg, d). case call ws d of (r, d') \<Rightarrow> (r, (lg @ [ws], d')))"

lemma logged_run: "logged call ws (lg, d) = (fst (call ws d), (lg @ [ws], snd (call ws d)))"
  by (simp add: logged_def split: prod.split)

lemma require_anchor_logged:
  "require_anchor L (logged call) (lg, d) =
     (case call FILTER_PRINT d of
        (Inl e, d') \<Rightarrow> (Inl e, (lg @ [FILTER_PRINT], d'))
      | (Inr rows, d') \<Rightarrow> (if truthy (get (anchor_report L rows) ''valid'') then Inr (anchor_report L rows)
          else Inl (ValueError ''required Internet policy anchor is missing or does not match the approved signature''),
          (lg @ [FILTER_PRINT], d')))"
  by (simp add: require_anchor_def inspect_internet_policy_anchor_def logged_run prog_simps
      split: prod.split sum.split)

lemma adapter_start_cases:
  assumes "(seq (check_target source target)
       (bind (lift (adapter_ipv4 L address)) (\<lambda>a.
        bind (lift (ownership_comment pk ak)) (\<lambda>c.
        bind (require_anchor L (logged call)) (\<lambda>anchor.
        bind (logged call LIST_PRINT) (k a c anchor)))))) ([], d) = (r, (lg, d'))"
  obtains (none) "lg = []" | (inspect) "lg = [FILTER_PRINT]" | (listing) "lg = [FILTER_PRINT, LIST_PRINT]"
    | (go) a c rules rows d1 where "target = source" and "adapter_ipv4 L address = Inr a"
      and "ownership_comment pk ak = Inr c" and "call FILTER_PRINT d = (Inr rules, d1)"
      and "truthy (get (anchor_report L rules) ''valid'')" and "fst (call LIST_PRINT d1) = Inr rows"
      and "k a c (anchor_report L rules) rows ([FILTER_PRINT, LIST_PRINT], snd (call LIST_PRINT d1)) = (r, (lg, d'))"
proof -
  from assms show thesis
    unfolding seq_def
  proof (elim bind_cases)
    fix e assume "check_target source target ([], d) = (Inl e, lg, d')"
    then show thesis by (intro none) (simp add: check_target_def ret_def raise_def split: if_splits)
  qed (auto simp: check_target_def lift_def ret_def raise_def logged_run require_anchor_logged
      split: if_splits prod.splits sum.splits intro: none inspect listing go)
qed

text \<open>The three ways an operation of the adapter ends without having written anything.\<close>

definition read_only_log :: "string list list \<Rightarrow> bool" where
  "read_only_log lg \<longleftrightarrow> lg \<in> {[], [FILTER_PRINT], [FILTER_PRINT, LIST_PRINT]}"

text \<open>A stateless router for evaluation: it shows one anchor rule and a fixed address list.\<close>

definition demo_anchor :: json where
  "demo_anchor = JObj [(''chain'', JStr ''forward''), (''action'', JStr ''drop''),
     (''src-address-list'', JStr ADDRESS_LIST_NAME), (''out-interface-list'', JStr ''WAN''),
     (''comment'', JStr ANCHOR_COMMENT)]"

definition demo_entry :: json where
  "demo_entry = JObj [(''.id'', JStr ''*1''), (''list'', JStr ADDRESS_LIST_NAME), (''address'', JStr ''10.0.0.5''),
     (''comment'', JStr ''web_ovpn:policy:p1:asset:a1'')]"

definition demo_call :: "json list \<Rightarrow> unit router_call" where
  "demo_call entries ws d = (Inr (if ws = FILTER_PRINT then [demo_anchor] else if ws = LIST_PRINT then entries else []), d)"

text \<open>C16: The only sentence \<open>ensure_address_list_entry\<close> can write is the addition of the requested address to
  the deny list with the ownership comment of the requested policy and asset, and it is sent at most
  once, last, after the router answered with a valid anchor and with a listing that does not hold the
  address. This holds for any behaviour of the router, including failing calls.\<close>

theorem ensure_sends_only_own_add:
  assumes "ensure_address_list_entry L source (logged call) target address pk ak ([], d) = (r, (lg, d'))"
  shows "read_only_log lg \<or> (\<exists>a c rules rows d1. target = source \<and> adapter_ipv4 L address = Inr a
    \<and> ownership_comment pk ak = Inr c \<and> lg = [FILTER_PRINT, LIST_PRINT, ADD_ENTRY a c]
    \<and> call FILTER_PRINT d = (Inr rules, d1) \<and> truthy (get (anchor_report L rules) ''valid'')
    \<and> fst (call LIST_PRINT d1) = Inr rows \<and> find (in_list L a) rows = None)"
  using assms unfolding ensure_address_list_entry_def
proof (cases rule: adapter_start_cases)
  case (go a c rules rows d1)
  then show ?thesis
    by (cases "find (in_list L a) rows")
      (auto simp: read_only_log_def logged_run prog_simps split: if_splits sum.splits)
qed (auto simp: read_only_log_def)

theorem ensure_sends_only_own_add_witness:
  "\<exists>r lg d'. ensure_address_list_entry (demo_lib (\<lambda>_. 0)) ''gw'' (logged (demo_call [])) ''gw'' (JStr ''10.0.0.5'') ''p1''
       (JStr ''a1'') ([], ()) = (r, (lg, d'))
     \<and> lg = [FILTER_PRINT, LIST_PRINT, ADD_ENTRY ''10.0.0.5'' ''web_ovpn:policy:p1:asset:a1'']
     \<and> (read_only_log lg \<or> (\<exists>a c. lg = [FILTER_PRINT, LIST_PRINT, ADD_ENTRY a c]))"
proof -
  obtain r lg d' where run: "ensure_address_list_entry (demo_lib (\<lambda>_. 0)) ''gw'' (logged (demo_call [])) ''gw''
      (JStr ''10.0.0.5'') ''p1'' (JStr ''a1'') ([], ()) = (r, (lg, d'))"
    by (metis prod.exhaust)
  have "fst (snd (ensure_address_list_entry (demo_lib (\<lambda>_. 0)) ''gw'' (logged (demo_call [])) ''gw''
      (JStr ''10.0.0.5'') ''p1'' (JStr ''a1'') ([], ())))
    = [FILTER_PRINT, LIST_PRINT, ADD_ENTRY ''10.0.0.5'' ''web_ovpn:policy:p1:asset:a1'']"
    by code_simp
  with run have "lg = [FILTER_PRINT, LIST_PRINT, ADD_ENTRY ''10.0.0.5'' ''web_ovpn:policy:p1:asset:a1'']"
    by simp
  with run ensure_sends_only_own_add [OF run] show ?thesis by blast
qed

text \<open>The only sentence \<open>remove_address_list_entry\<close> can write is the removal, by identifier, of one row of
  the listing the router just returned: a row of the deny list with the requested address and with the
  ownership comment of the requested policy and asset. An entry of another owner is never removed.\<close>

theorem remove_sends_only_own_remove:
  assumes "remove_address_list_entry L source (logged call) target address pk ak ([], d) = (r, (lg, d'))"
  shows "read_only_log lg \<or> (\<exists>a c rules rows row d1. target = source \<and> adapter_ipv4 L address = Inr a
    \<and> ownership_comment pk ak = Inr c \<and> lg = [FILTER_PRINT, LIST_PRINT, REMOVE_ENTRY (col L row ''.id'')]
    \<and> call FILTER_PRINT d = (Inr rules, d1) \<and> truthy (get (anchor_report L rules) ''valid'')
    \<and> fst (call LIST_PRINT d1) = Inr rows \<and> row \<in> set rows \<and> in_list L a row
    \<and> col L row ''comment'' = c \<and> col L row ''.id'' \<noteq> [])"
  using assms unfolding remove_address_list_entry_def
proof (cases rule: adapter_start_cases)
  case (go a c rules rows d1)
  show ?thesis
  proof (cases "find (in_list L a) rows")
    case None
    with go show ?thesis by (auto simp: read_only_log_def ret_def)
  next
    case (Some row)
    then have "row \<in> set rows" "in_list L a row" by (auto simp: find_Some_iff)
    with go Some show ?thesis
      by (cases "col L row ''comment'' = c \<and> col L row ''.id'' \<noteq> []")
        (auto simp: read_only_log_def logged_run prog_simps split: sum.splits if_splits)
  qed
qed (auto simp: read_only_log_def)

theorem remove_sends_only_own_remove_witness:
  "\<exists>r lg d'. remove_address_list_entry (demo_lib (\<lambda>_. 0)) ''gw'' (logged (demo_call [demo_entry])) ''gw''
       (JStr ''10.0.0.5'') ''p1'' (JStr ''a1'') ([], ()) = (r, (lg, d'))
     \<and> lg = [FILTER_PRINT, LIST_PRINT, REMOVE_ENTRY ''*1'']
     \<and> (read_only_log lg \<or> (\<exists>i. lg = [FILTER_PRINT, LIST_PRINT, REMOVE_ENTRY i]))"
proof -
  obtain r lg d' where run: "remove_address_list_entry (demo_lib (\<lambda>_. 0)) ''gw'' (logged (demo_call [demo_entry])) ''gw''
      (JStr ''10.0.0.5'') ''p1'' (JStr ''a1'') ([], ()) = (r, (lg, d'))"
    by (metis prod.exhaust)
  have "fst (snd (remove_address_list_entry (demo_lib (\<lambda>_. 0)) ''gw'' (logged (demo_call [demo_entry])) ''gw''
      (JStr ''10.0.0.5'') ''p1'' (JStr ''a1'') ([], ())))
    = [FILTER_PRINT, LIST_PRINT, REMOVE_ENTRY ''*1'']"
    by code_simp
  with run have "lg = [FILTER_PRINT, LIST_PRINT, REMOVE_ENTRY ''*1'']" by simp
  with run remove_sends_only_own_remove [OF run] show ?thesis by blast
qed

section \<open>The anchor in front of the deny list\<close>

lemma bypass_reason_empty:
  "bypass_reason L rows = [] \<longleftrightarrow> (\<forall>row \<in> set rows. col L row ''chain'' = ''forward'' \<longrightarrow>
     falsy_flag (col L row ''disabled'') \<longrightarrow> col L row ''action'' \<notin> {''fasttrack-connection'', ''accept''})"
  by (induction rows) auto

text \<open>What a valid anchor inspection means: exactly one rule of the printed table is the anchor (an enabled,
  unlogged drop of the deny list towards the WAN in the forward chain), it stands at the reported
  position, and no enabled forward rule before it accepts or fasttracks traffic.\<close>

theorem anchor_valid_meaning:
  "truthy (get (anchor_report L rows) ''valid'') \<longleftrightarrow>
     (\<exists>i anchor. filter (\<lambda>(i, row). is_anchor L row) (zip [0..<length rows] rows) = [(i, anchor)]
       \<and> get (anchor_report L rows) ''anchor_position'' = JInt (int i)
       \<and> (\<forall>row \<in> set (take i rows). col L row ''chain'' = ''forward'' \<longrightarrow>
            falsy_flag (col L row ''disabled'') \<longrightarrow> col L row ''action'' \<notin> {''fasttrack-connection'', ''accept''}))"
proof (cases "\<exists>i anchor. filter (\<lambda>(i, row). is_anchor L row) (zip [0..<length rows] rows) = [(i, anchor)]")
  case True
  then obtain i anchor where "filter (\<lambda>(i, row). is_anchor L row) (zip [0..<length rows] rows) = [(i, anchor)]"
    by blast
  then show ?thesis
    by (simp add: anchor_report_def Let_def get_default_def bypass_reason_empty)
next
  case False
  then have "get (anchor_report L rows) ''valid'' = JBool False"
    by (auto simp: anchor_report_def get_default_def split: list.split)
  with False show ?thesis by simp
qed

theorem anchor_valid_meaning_witness:
  "filter (\<lambda>(i, row). is_anchor (demo_lib (\<lambda>_. 0)) row) (zip [0..<length [demo_anchor]] [demo_anchor]) = [(0, demo_anchor)]
   \<and> truthy (get (anchor_report (demo_lib (\<lambda>_. 0)) [demo_anchor]) ''valid'')"
proof -
  have m: "filter (\<lambda>(i, row). is_anchor (demo_lib (\<lambda>_. 0)) row) (zip [0..<length [demo_anchor]] [demo_anchor]) = [(0, demo_anchor)]"
    by code_simp
  have "get (anchor_report (demo_lib (\<lambda>_. 0)) [demo_anchor]) ''anchor_position'' = JInt (int 0)" by code_simp
  with m have "truthy (get (anchor_report (demo_lib (\<lambda>_. 0)) [demo_anchor]) ''valid'')"
    unfolding anchor_valid_meaning [of "demo_lib (\<lambda>_. 0)" "[demo_anchor]"] by (metis empty_iff empty_set take0)
  with m show ?thesis by simp
qed

end
