(* ===== verification/Router_Contract.thy ===== *)
theory Router_Contract
  imports MikroTik_Adapter
begin

text \<open>
  What the plan executor may rely on. The locale \<open>device_adapter\<close> is the contract between the executor
  and an adapter: the pairs of address and owner that the device enforces, and how each operation
  changes them. The locale \<open>router\<close> is what the MikroTik adapter in turn relies on, the documented
  behaviour of the RouterOS address list: printing changes nothing, adding appends one row or fails,
  removing deletes the row with that identifier or fails, identifiers and addresses are unique within
  the list. Any call may fail. The sublocale shows that the adapter's own operations turn the second
  contract into the first; a simulated router shows that the second can be met.
\<close>

section \<open>The contract of an adapter\<close>

locale device_adapter =
  fixes L :: pylib and A :: "'d adapter" and view :: "'d \<Rightarrow> (string \<times> string) set"
    and nf :: "json \<Rightarrow> string res" and good :: "'d \<Rightarrow> bool"
  assumes inspect_frame: "good d \<Longrightarrow> ad_inspect A d = (r, d') \<Longrightarrow> good d' \<and> view d' = view d"
    and list_frame: "good d \<Longrightarrow> ad_list A t d = (rl, d') \<Longrightarrow> good d' \<and> view d' = view d"
    and list_rows: "good d \<Longrightarrow> ad_list A t d = (Inr rows, d') \<Longrightarrow>
      (\<lambda>row. (col L row ''address'', col L row ''comment'')) ` set rows
        = {(a, c) \<in> view d. startswith c MANAGED_COMMENT_PREFIX}"
    and ensure_ok: "good d \<Longrightarrow> ad_ensure A t x pk ak d = (Inr res, d') \<Longrightarrow>
      \<exists>a c. nf x = Inr a \<and> ad_comment A pk ak = Inr c \<and> good d' \<and> view d' = insert (a, c) (view d)"
    and ensure_err: "good d \<Longrightarrow> ad_ensure A t x pk ak d = (Inl e, d') \<Longrightarrow> good d' \<and>
      (view d' = view d \<or>
       (\<exists>a c. nf x = Inr a \<and> ad_comment A pk ak = Inr c \<and> view d' = insert (a, c) (view d)))"
    and remove_ok: "good d \<Longrightarrow> ad_remove A t x pk ak d = (Inr res, d') \<Longrightarrow>
      \<exists>a c. nf x = Inr a \<and> ad_comment A pk ak = Inr c \<and> good d' \<and> view d' = view d - {(a, c)}"
    and remove_err: "good d \<Longrightarrow> ad_remove A t x pk ak d = (Inl e, d') \<Longrightarrow> good d' \<and>
      (view d' = view d \<or>
       (\<exists>a c. nf x = Inr a \<and> ad_comment A pk ak = Inr c \<and> view d' = view d - {(a, c)}))"
    and comment_managed: "ad_comment A pk ak = Inr c \<Longrightarrow> startswith c MANAGED_COMMENT_PREFIX"
begin

text \<open>The entries of other owners survive every operation, successful or not.\<close>

lemma ensure_keeps:
  "good d \<Longrightarrow> ad_ensure A t x pk ak d = (r, d') \<Longrightarrow> good d' \<and> view d \<subseteq> view d'"
  by (cases r) (auto dest: ensure_ok ensure_err)

lemma remove_foreign:
  assumes "good d" and "ad_remove A t x pk ak d = (r, d')" and "(a, c) \<in> view d"
    and "ad_comment A pk ak \<noteq> Inr c"
  shows "(a, c) \<in> view d'"
  using assms by (cases r) (auto dest: remove_ok remove_err)

lemma ensure_foreign:
  assumes "good d" and "ad_ensure A t x pk ak d = (r, d')" and "ad_comment A pk ak \<noteq> Inr c"
  shows "(a, c) \<in> view d' \<longleftrightarrow> (a, c) \<in> view d"
  using assms by (cases r) (auto dest: ensure_ok ensure_err)

end

section \<open>The contract of a router\<close>

definition listed :: "pylib \<Rightarrow> json \<Rightarrow> bool" where
  "listed L row \<longleftrightarrow> col L row ''list'' = ADDRESS_LIST_NAME"

definition entry_view :: "pylib \<Rightarrow> json list \<Rightarrow> (string \<times> string) set" where
  "entry_view L rows = (\<lambda>row. (col L row ''address'', col L row ''comment'')) ` set (filter (listed L) rows)"

locale router =
  fixes L :: pylib and source :: string and call :: "'d router_call"
    and entries :: "'d \<Rightarrow> json list" and good :: "'d \<Rightarrow> bool"
  assumes filter_print: "good d \<Longrightarrow> call FILTER_PRINT d = (r, d') \<Longrightarrow> good d' \<and> entries d' = entries d"
    and list_print: "good d \<Longrightarrow> call LIST_PRINT d = (r, d') \<Longrightarrow> good d' \<and> entries d' = entries d
      \<and> (\<forall>rows. r = Inr rows \<longrightarrow> rows = filter (listed L) (entries d))"
    and add_entry: "good d \<Longrightarrow> call (ADD_ENTRY a c) d = (r, d') \<Longrightarrow> good d' \<and>
      ((\<exists>row. entries d' = entries d @ [row] \<and> listed L row \<and> col L row ''address'' = a
          \<and> col L row ''comment'' = c) \<or> isl r \<and> entries d' = entries d)"
    and remove_entry: "good d \<Longrightarrow> call (REMOVE_ENTRY i) d = (r, d') \<Longrightarrow> good d' \<and>
      (entries d' = filter (\<lambda>row. col L row ''.id'' \<noteq> i) (entries d) \<or> isl r \<and> entries d' = entries d)"
    and unique_ids: "good d \<Longrightarrow> distinct (map (\<lambda>row. col L row ''.id'') (entries d))"
    and unique_addresses: "good d \<Longrightarrow> distinct (map (\<lambda>row. col L row ''address'') (filter (listed L) (entries d)))"
begin

abbreviation view :: "'d \<Rightarrow> (string \<times> string) set" where
  "view d \<equiv> entry_view L (entries d)"

lemma inspect_spec:
  "good d \<Longrightarrow> inspect_internet_policy_anchor L call d = (r, d') \<Longrightarrow> good d' \<and> entries d' = entries d"
  unfolding inspect_internet_policy_anchor_def
  by (erule bind_cases) (auto simp: ret_def dest: filter_print)

lemma require_spec:
  "good d \<Longrightarrow> require_anchor L call d = (r, d') \<Longrightarrow> good d' \<and> entries d' = entries d"
  unfolding require_anchor_def
  by (erule bind_cases) (auto simp: ret_def raise_def if_app split: if_splits dest: inspect_spec)

lemma view_add:
  "entries d' = entries d @ [row] \<Longrightarrow> listed L row \<Longrightarrow>
    view d' = insert (col L row ''address'', col L row ''comment'') (view d)"
  by (simp add: entry_view_def insert_commute)

lemma view_absent: "find (in_list L a) (filter (listed L) (entries d)) = None \<Longrightarrow> (a, c) \<notin> view d"
  by (auto simp: find_None_iff entry_view_def in_list_def listed_def)

lemma view_remove:
  assumes g: "good d" and row: "row \<in> set (entries d)" "listed L row"
    and d': "entries d' = filter (\<lambda>r. col L r ''.id'' \<noteq> col L row ''.id'') (entries d)"
  shows "view d' = view d - {(col L row ''address'', col L row ''comment'')}"
proof -
  have ids: "r = row" if "r \<in> set (entries d)" "col L r ''.id'' = col L row ''.id''" for r
    using unique_ids [OF g] that row by (auto simp: distinct_map dest: inj_onD)
  have adr: "r = row" if "r \<in> set (entries d)" "listed L r" "col L r ''address'' = col L row ''address''" for r
    using unique_addresses [OF g] that row by (auto simp: distinct_map dest: inj_onD)
  have "set (filter (listed L) (entries d')) = set (filter (listed L) (entries d)) - {row}"
    using ids by (auto simp: d')
  then show ?thesis
    using adr row by (auto simp: entry_view_def)
qed

lemma found_row:
  "find (in_list L a) (filter (listed L) (entries d)) = Some row \<Longrightarrow>
    row \<in> set (entries d) \<and> listed L row \<and> col L row ''address'' = a"
  by (drule find_SomeD) (simp add: in_list_def)

lemma present_view:
  "find (in_list L a) (filter (listed L) (entries d)) = Some row \<Longrightarrow> (a, col L row ''comment'') \<in> view d"
  using found_row [of a d row] by (auto simp: entry_view_def)

text \<open>Both writing operations start by reading; what is known when they reach the listing.\<close>

lemma start_cases:
  assumes "good d" and "(seq (check_target source target)
       (bind (lift (adapter_ipv4 L address)) (\<lambda>a.
        bind (lift (ownership_comment pk ak)) (\<lambda>c.
        bind (require_anchor L call) (\<lambda>anchor.
        bind (call LIST_PRINT) (k a c anchor)))))) d = (r, d')"
  obtains (stopped) e where "r = Inl e" "good d'" "entries d' = entries d"
    | (go) a c anchor d2 where "adapter_ipv4 L address = Inr a" "ownership_comment pk ak = Inr c"
      "good d2" "entries d2 = entries d" "k a c anchor (filter (listed L) (entries d)) d2 = (r, d')"
  using assms(2) unfolding seq_def
proof (elim bind_cases)
  fix u x1 x2 x3 x4 s1 s2 s3 s4 s5
  assume "check_target source target d = (Inr u, s1)" "lift (adapter_ipv4 L address) s1 = (Inr x1, s2)"
    "lift (ownership_comment pk ak) s2 = (Inr x2, s3)" and q: "require_anchor L call s3 = (Inr x3, s4)"
    and l: "call LIST_PRINT s4 = (Inr x4, s5)" and kk: "k x1 x2 x3 x4 s5 = (r, d')"
  then have eq: "s3 = d" "adapter_ipv4 L address = Inr x1" "ownership_comment pk ak = Inr x2"
    by (auto simp: check_target_def lift_def ret_def raise_def split: if_splits)
  have "good s4" "entries s4 = entries d" using require_spec [OF assms(1)] q eq(1) by auto
  then have "good s5" "entries s5 = entries d" "x4 = filter (listed L) (entries d)"
    using list_print [OF _ l] by auto
  then show thesis using go eq kk by blast
next
  fix u x1 x2 x3 s1 s2 s3 s4 e
  assume "check_target source target d = (Inr u, s1)" "lift (adapter_ipv4 L address) s1 = (Inr x1, s2)"
    "lift (ownership_comment pk ak) s2 = (Inr x2, s3)" and q: "require_anchor L call s3 = (Inr x3, s4)"
    and l: "call LIST_PRINT s4 = (Inl e, d')" and r: "r = Inl e"
  then have "s3 = d" by (auto simp: check_target_def lift_def ret_def raise_def split: if_splits)
  then show thesis using require_spec [OF assms(1)] q list_print [OF _ l] stopped [OF r] by auto
qed (use assms(1) in \<open>auto simp: check_target_def lift_def ret_def raise_def split: if_splits
    dest: require_spec intro: stopped\<close>)

lemma ensure_spec:
  assumes "good d" and "ensure_address_list_entry L source call t x pk ak d = (r, d')"
  shows "good d' \<and> (isl r \<and> view d' = view d \<or> (\<exists>a c. adapter_ipv4 L x = Inr a
    \<and> ownership_comment pk ak = Inr c \<and> view d' = insert (a, c) (view d)))"
  using assms(2) unfolding ensure_address_list_entry_def
proof (cases rule: start_cases [OF assms(1), consumes 1, case_names stopped go])
  case (go a c anchor d2)
  show ?thesis
  proof (cases "find (in_list L a) (filter (listed L) (entries d))")
    case None
    obtain rr d3 where add: "call (ADD_ENTRY a c) d2 = (rr, d3)" by (rule prod.exhaust)
    from go None add have d3: "d' = d3" and r: "isl rr \<longrightarrow> isl r"
      by (auto simp: prog_simps split: sum.splits)
    from add_entry [OF go(3) add] show ?thesis
      using go d3 r by (auto simp: view_add [of d' d2] entry_view_def)
  next
    case (Some row)
    with go present_view [OF Some] show ?thesis
      by (cases "col L row ''comment'' = c") (auto simp: raise_def ret_def insert_absorb entry_view_def)
  qed
qed auto

lemma remove_spec:
  assumes "good d" and "remove_address_list_entry L source call t x pk ak d = (r, d')"
  shows "good d' \<and> (isl r \<and> view d' = view d \<or> (\<exists>a c. adapter_ipv4 L x = Inr a
    \<and> ownership_comment pk ak = Inr c \<and> view d' = view d - {(a, c)}))"
  using assms(2) unfolding remove_address_list_entry_def
proof (cases rule: start_cases [OF assms(1), consumes 1, case_names stopped go])
  case (go a c anchor d2)
  show ?thesis
  proof (cases "find (in_list L a) (filter (listed L) (entries d))")
    case None
    with go view_absent [OF None, of c] show ?thesis by (auto simp: ret_def)
  next
    case (Some row)
    note row = found_row [OF Some]
    show ?thesis
    proof (cases "col L row ''comment'' = c \<and> col L row ''.id'' \<noteq> []")
      case True
      obtain rr d3 where rem: "call (REMOVE_ENTRY (col L row ''.id'')) d2 = (rr, d3)" by (rule prod.exhaust)
      from go Some True rem have d3: "d' = d3" and r: "isl rr \<longrightarrow> isl r"
        by (auto simp: prog_simps split: sum.splits)
      from remove_entry [OF go(3) rem] go(4) d3
      consider "good d'" "entries d' = filter (\<lambda>r. col L r ''.id'' \<noteq> col L row ''.id'') (entries d)"
        | "good d'" "isl r" "entries d' = entries d"
        using r by auto
      then show ?thesis
      proof cases
        case 1
        from view_remove [OF assms(1) _ _ 1(2)] row True have "view d' = view d - {(a, c)}" by auto
        with 1 go show ?thesis by auto
      qed auto
    next
      case False
      with go Some show ?thesis by (auto simp: raise_def if_app split: if_splits)
    qed
  qed
qed auto

lemma list_spec:
  assumes "good d" and "list_managed_address_list_entries L source call t d = (rl, d')"
  shows "good d' \<and> entries d' = entries d \<and> (\<forall>rows. rl = Inr rows \<longrightarrow>
    rows = map (project L [''address'', ''comment'', ''disabled''])
      (filter (\<lambda>row. startswith (col L row ''comment'') MANAGED_COMMENT_PREFIX) (filter (listed L) (entries d))))"
  using assms unfolding list_managed_address_list_entries_def seq_def
  by (auto elim!: bind_cases simp: check_target_def ret_def raise_def listed_def conj_commute
      split: if_splits dest: list_print)

end

lemma col_project_entry:
  "col L (project L [''address'', ''comment'', ''disabled''] row) ''address'' = col L row ''address''"
  "col L (project L [''address'', ''comment'', ''disabled''] row) ''comment'' = col L row ''comment''"
  by (simp_all add: project_def get_default_def) (simp_all add: col_def get_default_def)

lemma ownership_comment_managed:
  "ownership_comment pk ak = Inr c \<Longrightarrow> startswith c MANAGED_COMMENT_PREFIX"
  by (auto simp: ownership_comment_def MANAGED_COMMENT_PREFIX_def startswith_def split: if_splits)

sublocale router \<subseteq> dev: device_adapter L "mikrotik L source call" "\<lambda>d. entry_view L (entries d)"
  "adapter_ipv4 L" good
proof unfold_locales
  fix d d' :: 'd and t :: string and r :: "json res" and rl :: "json list res" and rows :: "json list"
    and x ak :: json and pk c :: string and res :: json and e :: exn
  assume g: "good d"
  show "good d' \<and> entry_view L (entries d') = entry_view L (entries d)"
    if "ad_inspect (mikrotik L source call) d = (r, d')"
    using inspect_spec [OF g, of r d'] that by (simp add: mikrotik_def)
  show "good d' \<and> entry_view L (entries d') = entry_view L (entries d)"
    if "ad_list (mikrotik L source call) t d = (rl, d')"
    using list_spec [OF g, of t rl d'] that by (simp add: mikrotik_def)
  show "(\<lambda>row. (col L row ''address'', col L row ''comment'')) ` set rows
      = {(a, c) \<in> entry_view L (entries d). startswith c MANAGED_COMMENT_PREFIX}"
    if "ad_list (mikrotik L source call) t d = (Inr rows, d')"
    using list_spec [OF g, of t "Inr rows" d'] that
    by (auto simp: mikrotik_def entry_view_def image_image col_project_entry)
  show "\<exists>a c. adapter_ipv4 L x = Inr a \<and> ad_comment (mikrotik L source call) pk ak = Inr c \<and> good d'
      \<and> entry_view L (entries d') = insert (a, c) (entry_view L (entries d))"
    if "ad_ensure (mikrotik L source call) t x pk ak d = (Inr res, d')"
    using ensure_spec [OF g, of t x pk ak "Inr res" d'] that by (auto simp: mikrotik_def)
  show "good d' \<and> (entry_view L (entries d') = entry_view L (entries d) \<or>
      (\<exists>a c. adapter_ipv4 L x = Inr a \<and> ad_comment (mikrotik L source call) pk ak = Inr c
        \<and> entry_view L (entries d') = insert (a, c) (entry_view L (entries d))))"
    if "ad_ensure (mikrotik L source call) t x pk ak d = (Inl e, d')"
    using ensure_spec [OF g, of t x pk ak "Inl e" d'] that by (auto simp: mikrotik_def)
  show "\<exists>a c. adapter_ipv4 L x = Inr a \<and> ad_comment (mikrotik L source call) pk ak = Inr c \<and> good d'
      \<and> entry_view L (entries d') = entry_view L (entries d) - {(a, c)}"
    if "ad_remove (mikrotik L source call) t x pk ak d = (Inr res, d')"
    using remove_spec [OF g, of t x pk ak "Inr res" d'] that by (auto simp: mikrotik_def)
  show "good d' \<and> (entry_view L (entries d') = entry_view L (entries d) \<or>
      (\<exists>a c. adapter_ipv4 L x = Inr a \<and> ad_comment (mikrotik L source call) pk ak = Inr c
        \<and> entry_view L (entries d') = entry_view L (entries d) - {(a, c)}))"
    if "ad_remove (mikrotik L source call) t x pk ak d = (Inl e, d')"
    using remove_spec [OF g, of t x pk ak "Inl e" d'] that by (auto simp: mikrotik_def)
next
  show "startswith c MANAGED_COMMENT_PREFIX" if "ad_comment (mikrotik L source call) pk ak = Inr c" for pk ak c
    using that by (auto simp: mikrotik_def dest: ownership_comment_managed)
qed

section \<open>A router in memory\<close>

record sim_router =
  sr_entries :: "json list"
  sr_rules :: "json list"
  sr_next :: nat

text \<open>The value of the first word that starts with the given attribute.\<close>

definition word_value :: "string \<Rightarrow> string list \<Rightarrow> string" where
  "word_value p ws = (case find (\<lambda>w. startswith w p) ws of None \<Rightarrow> [] | Some w \<Rightarrow> drop (length p) w)"

definition sim_row :: "nat \<Rightarrow> string list \<Rightarrow> json" where
  "sim_row n ws = JObj [(''.id'', JStr (CHR ''*'' # nat_digits n)), (''list'', JStr (word_value ''=list='' ws)),
     (''address'', JStr (word_value ''=address='' ws)), (''comment'', JStr (word_value ''=comment='' ws))]"

definition same_slot :: "pylib \<Rightarrow> json \<Rightarrow> json \<Rightarrow> bool" where
  "same_slot L a b \<longleftrightarrow> col L a ''list'' = col L b ''list'' \<and> col L a ''address'' = col L b ''address''"

definition sim_call :: "pylib \<Rightarrow> sim_router router_call" where
  "sim_call L ws d =
     (if ws = [] then (Inl (RuntimeError ''empty sentence''), d)
      else if hd ws = ''/ip/firewall/filter/print'' then (Inr (sr_rules d), d)
      else if hd ws = ''/ip/firewall/address-list/print''
      then (Inr (filter (\<lambda>row. col L row ''list'' = word_value ''?list='' ws) (sr_entries d)), d)
      else if hd ws = ''/ip/firewall/address-list/add''
      then (let row = sim_row (sr_next d) ws in
        if list_ex (same_slot L row) (sr_entries d)
        then (Inl (RuntimeError ''failure: already have such entry''), d)
        else (Inr [], d\<lparr>sr_entries := sr_entries d @ [row], sr_next := Suc (sr_next d)\<rparr>))
      else if hd ws = ''/ip/firewall/address-list/remove''
      then (let i = word_value ''=.id='' ws in
        if list_ex (\<lambda>row. col L row ''.id'' = i) (sr_entries d)
        then (Inr [], d\<lparr>sr_entries := filter (\<lambda>row. col L row ''.id'' \<noteq> i) (sr_entries d)\<rparr>)
        else (Inl (RuntimeError ''no such item''), d))
      else (Inl (RuntimeError ''no such command''), d))"

definition sim_good :: "pylib \<Rightarrow> sim_router \<Rightarrow> bool" where
  "sim_good L d \<longleftrightarrow> distinct (map (\<lambda>row. col L row ''.id'') (sr_entries d))
     \<and> distinct (map (\<lambda>row. (col L row ''list'', col L row ''address'')) (sr_entries d))
     \<and> (\<forall>row \<in> set (sr_entries d). \<exists>k < sr_next d. col L row ''.id'' = CHR ''*'' # nat_digits k)"

lemma nat_digits_inj: "nat_digits m = nat_digits n \<Longrightarrow> m = n"
  by (metis digits_value_nat_digits option.inject)

lemma sim_row_cols [simp]:
  "col L (sim_row n ws) ''.id'' = CHR ''*'' # nat_digits n" "col L (sim_row n ws) ''list'' = word_value ''=list='' ws"
  "col L (sim_row n ws) ''address'' = word_value ''=address='' ws"
  "col L (sim_row n ws) ''comment'' = word_value ''=comment='' ws"
  by (simp_all add: sim_row_def col_def get_default_def)

lemma word_values [simp]:
  "word_value ''=list='' (ADD_ENTRY a c) = ADDRESS_LIST_NAME" "word_value ''=address='' (ADD_ENTRY a c) = a"
  "word_value ''=comment='' (ADD_ENTRY a c) = c" "word_value ''=.id='' (REMOVE_ENTRY i) = i"
  "word_value ''?list='' LIST_PRINT = ADDRESS_LIST_NAME"
  by (simp_all add: word_value_def ADD_ENTRY_def REMOVE_ENTRY_def LIST_PRINT_def startswith_def)

lemma sim_good_add:
  assumes "sim_good L d" and "\<not> list_ex (same_slot L (sim_row (sr_next d) ws)) (sr_entries d)"
  shows "sim_good L (d\<lparr>sr_entries := sr_entries d @ [sim_row (sr_next d) ws], sr_next := Suc (sr_next d)\<rparr>)"
proof -
  have "CHR ''*'' # nat_digits (sr_next d) \<noteq> col L row ''.id''" if "row \<in> set (sr_entries d)" for row
  proof -
    obtain k where "k < sr_next d" "col L row ''.id'' = CHR ''*'' # nat_digits k"
      using assms(1) \<open>row \<in> _\<close> by (auto simp: sim_good_def)
    then show ?thesis using nat_digits_inj [of "sr_next d" k] by auto
  qed
  with assms show ?thesis
    unfolding sim_good_def by (auto simp: list_ex_iff same_slot_def less_Suc_eq)
qed

lemma sim_good_remove:
  "sim_good L d \<Longrightarrow> sim_good L (d\<lparr>sr_entries := filter P (sr_entries d)\<rparr>)"
  by (auto simp: sim_good_def distinct_map_filter)

interpretation sim: router L source "sim_call L" sr_entries "sim_good L" for L source
proof unfold_locales
  fix d d' :: sim_router and r :: "json list res" and a c i :: string
  assume g: "sim_good L d"
  show "sim_good L d' \<and> sr_entries d' = sr_entries d" if "sim_call L FILTER_PRINT d = (r, d')"
    using g that by (auto simp: sim_call_def FILTER_PRINT_def)
  show "sim_good L d' \<and> sr_entries d' = sr_entries d \<and> (\<forall>rows. r = Inr rows \<longrightarrow> rows = filter (listed L) (sr_entries d))"
    if "sim_call L LIST_PRINT d = (r, d')"
  proof -
    have "hd LIST_PRINT = ''/ip/firewall/address-list/print''" "LIST_PRINT \<noteq> []" by (simp_all add: LIST_PRINT_def)
    with g that show ?thesis by (auto simp: sim_call_def listed_def [abs_def])
  qed
  show "sim_good L d' \<and> ((\<exists>row. sr_entries d' = sr_entries d @ [row] \<and> listed L row \<and> col L row ''address'' = a
      \<and> col L row ''comment'' = c) \<or> isl r \<and> sr_entries d' = sr_entries d)"
    if "sim_call L (ADD_ENTRY a c) d = (r, d')"
  proof -
    have "hd (ADD_ENTRY a c) = ''/ip/firewall/address-list/add''" "ADD_ENTRY a c \<noteq> []" by (simp_all add: ADD_ENTRY_def)
    with g that sim_good_add [OF g, of "ADD_ENTRY a c"] show ?thesis
      by (auto simp: sim_call_def Let_def listed_def split: if_splits)
  qed
  show "sim_good L d' \<and> (sr_entries d' = filter (\<lambda>row. col L row ''.id'' \<noteq> i) (sr_entries d)
      \<or> isl r \<and> sr_entries d' = sr_entries d)" if "sim_call L (REMOVE_ENTRY i) d = (r, d')"
  proof -
    have "hd (REMOVE_ENTRY i) = ''/ip/firewall/address-list/remove''" "REMOVE_ENTRY i \<noteq> []"
      by (simp_all add: REMOVE_ENTRY_def)
    with g that sim_good_remove [OF g] show ?thesis
      by (auto simp: sim_call_def Let_def split: if_splits)
  qed
  show "distinct (map (\<lambda>row. col L row ''.id'') (sr_entries d))" using g by (simp add: sim_good_def)
  show "distinct (map (\<lambda>row. col L row ''address'') (filter (listed L) (sr_entries d)))"
  proof -
    have "inj_on (\<lambda>row. (col L row ''list'', col L row ''address'')) (set (sr_entries d))" "distinct (sr_entries d)"
      using g by (auto simp: sim_good_def distinct_map)
    then show ?thesis by (auto simp: distinct_map inj_on_def listed_def)
  qed
qed

end
