(* ===== verification/Plan_Executor.thy ===== *)
theory Plan_Executor
  imports Router_Contract
begin

text \<open>
  Applying, verifying and rolling back a change plan, and reconciling desired policies with the device
  (\<open>netopsctl/reconcile.py\<close>). The adapter is an argument (a record of operations over the device
  state), as are the preflight check, the connectivity probe and the resolution of a policy to its
  targets, which the control service passes in. An operation holds a per-device lock, a row of the
  table \<open>device_operation_locks\<close>, while it works on the device.

  An exception leaves behind what was committed before it; the handlers of the source decide what
  happens next. The handler of \<open>apply_plan\<close> reads the loop variable \<open>step\<close>; when the exception came
  before the loop the variable is unbound, and the model raises \<open>UnboundLocalError\<close> there as Python does.
\<close>

section \<open>Shared steps\<close>

definition on_device :: "('d, 'a) prog \<Rightarrow> ('d netops, 'a) prog" where
  "on_device m s = (case m (device s) of (r, d) \<Rightarrow> (r, s\<lparr>device := d\<rparr>))"

definition policy_key_of :: "string \<Rightarrow> json \<Rightarrow> string res" where
  "policy_key_of plan_key request = (let v = get_default request ''policy_key'' (JStr plan_key) in
     if \<not> is_str v \<or> str_value v = [] then Inl (ValueError ''invalid policy ownership key'')
     else Inr (str_value v))"

definition plan_and_steps :: "string \<Rightarrow> ('d netops, plan_row \<times> step_row list) prog" where
  "plan_and_steps k = bind (plan_row_of k) (\<lambda>p. bind (gets (\<lambda>s. steps_of s (pl_id p))) (\<lambda>sts. ret (p, sts)))"

definition set_step :: "(step_row \<Rightarrow> bool) \<Rightarrow> (step_row \<Rightarrow> step_row) \<Rightarrow> ('d netops, unit) prog" where
  "set_step P f = modify (\<lambda>s. s\<lparr>plan_steps := map (\<lambda>st. if P st then f st else st) (plan_steps s)\<rparr>)"

definition add_execution :: "nat \<Rightarrow> string \<Rightarrow> string \<Rightarrow> json \<Rightarrow> ('d netops, unit) prog" where
  "add_execution plan_id kind status result = modify (\<lambda>s. s\<lparr>executions := executions s @
     [\<lparr>ex_plan_id = plan_id, ex_type = kind, ex_status = status, ex_result = result\<rparr>]\<rparr>)"

section \<open>Device locks\<close>

text \<open>What \<open>os.kill(pid, 0)\<close> may do.\<close>

datatype kill_result = Signalled | PermissionDenied | NoSuchProcess

record os_env =
  getpid :: int
  os_kill :: "int \<Rightarrow> kill_result"

definition process_is_alive :: "os_env \<Rightarrow> int \<Rightarrow> bool" where
  "process_is_alive E pid = (case os_kill E pid of
     PermissionDenied \<Rightarrow> True | NoSuchProcess \<Rightarrow> False | Signalled \<Rightarrow> True)"

text \<open>The device is the primary key of the lock table.\<close>

definition insert_lock :: "lock_row \<Rightarrow> ('d netops, unit) prog" where
  "insert_lock l s = (if lk_device_key l \<in> lk_device_key ` set (locks s) then (Inl IntegrityError, s)
     else (Inr (), s\<lparr>locks := locks s @ [l]\<rparr>))"

definition take_over_lock :: "os_env \<Rightarrow> string \<Rightarrow> string \<Rightarrow> ('d netops, unit) prog" where
  "take_over_lock E device_key holder =
     bind (gets (\<lambda>s. find (\<lambda>l. lk_device_key l = device_key) (locks s))) (\<lambda>existing.
     case existing of
       None \<Rightarrow> raise (ValueError ''device operation is already in progress'')
     | Some old \<Rightarrow>
         if lk_owner_pid old \<le> 0 \<or> process_is_alive E (lk_owner_pid old)
         then raise (ValueError ''device operation is already in progress'')
         else seq (modify (\<lambda>s. s\<lparr>locks := filter (\<lambda>l. \<not> (lk_device_key l = device_key
                \<and> lk_holder l = lk_holder old \<and> lk_owner_pid l = lk_owner_pid old)) (locks s)\<rparr>))
           (insert_lock \<lparr>lk_device_key = device_key, lk_holder = holder, lk_owner_pid = getpid E\<rparr>))"

definition device_lock_for_target ::
    "pylib \<Rightarrow> os_env \<Rightarrow> string \<Rightarrow> ('d netops, string \<times> string) prog" where
  "device_lock_for_target L E device_key = bind (fresh_uuid L) (\<lambda>holder.
     seq (catch (insert_lock \<lparr>lk_device_key = device_key, lk_holder = holder, lk_owner_pid = getpid E\<rparr>)
         (\<lambda>e. if e = IntegrityError then take_over_lock E device_key holder else raise e))
       (ret (device_key, holder)))"

definition device_lock :: "pylib \<Rightarrow> os_env \<Rightarrow> step_row list \<Rightarrow> ('d netops, string \<times> string) prog" where
  "device_lock L E sts = (case remdups (map st_target_key sts) of
     [target] \<Rightarrow> device_lock_for_target L E target
   | _ \<Rightarrow> raise (ValueError ''plan must target exactly one enforcement device''))"

definition release_device_lock :: "string \<times> string \<Rightarrow> ('d netops, unit) prog" where
  "release_device_lock lock = modify (\<lambda>s. s\<lparr>locks :=
     filter (\<lambda>l. \<not> (lk_device_key l = fst lock \<and> lk_holder l = snd lock)) (locks s)\<rparr>)"

text \<open>\<open>lock = ...; try: body finally: _release_device_lock(conn, lock)\<close>.\<close>

definition bracket ::
    "('d netops, string \<times> string) prog \<Rightarrow> ('d netops, 'a) prog \<Rightarrow> ('d netops, 'a) prog" where
  "bracket acquire body = bind acquire (\<lambda>lock. finalize body (release_device_lock lock))"

section \<open>Applying a plan\<close>

text \<open>One write of a plan or of its rollback.\<close>

definition run_operation ::
    "'d adapter \<Rightarrow> string \<Rightarrow> string \<Rightarrow> string \<Rightarrow> string \<Rightarrow> json \<Rightarrow> ('d netops, json) prog" where
  "run_operation A unsupported plan_key operation target request =
     (if operation = ''ensure_address_list_entry'' then
        bind (lift (getitem request ''address'')) (\<lambda>address.
        bind (lift (policy_key_of plan_key request)) (\<lambda>pk.
        bind (lift (getitem request ''asset_key'')) (\<lambda>asset.
        on_device (ad_ensure A target address pk asset))))
      else if operation = ''remove_address_list_entry'' then
        bind (lift (getitem request ''address'')) (\<lambda>address.
        bind (lift (policy_key_of plan_key request)) (\<lambda>pk.
        bind (lift (getitem request ''asset_key'')) (\<lambda>asset.
        on_device (ad_remove A target address pk asset))))
      else raise (ValueError unsupported))"

definition apply_step :: "'d adapter \<Rightarrow> string \<Rightarrow> step_row \<Rightarrow> ('d netops, unit) prog" where
  "apply_step A plan_key st = bind (lift (loads (st_request_json st))) (\<lambda>request.
     bind (run_operation A ''unsupported plan step'' plan_key (st_operation st) (st_target_key st) request) (\<lambda>result.
     set_step (\<lambda>x. st_id x = st_id st) (\<lambda>x. x\<lparr>st_status := SApplied, st_result_json := Doc result\<rparr>)))"

text \<open>The loop: the identifiers of the steps applied, and the step whose application raised, if any.\<close>

fun apply_steps ::
    "'d adapter \<Rightarrow> string \<Rightarrow> int list \<Rightarrow> step_row list \<Rightarrow> ('d netops, int list \<times> step_row option) prog" where
  "apply_steps A plan_key applied [] = ret (applied, None)"
| "apply_steps A plan_key applied (st # sts) = bind (attempt (apply_step A plan_key st)) (\<lambda>r.
     case r of Inl e \<Rightarrow> ret (applied, Some st)
     | Inr u \<Rightarrow> apply_steps A plan_key (applied @ [int (st_id st)]) sts)"

definition stale_response :: "string \<Rightarrow> string list \<Rightarrow> json" where
  "stale_response plan_key changed = JObj
     [(''status'', JStr ''stale_precondition''), (''plan_key'', JStr plan_key),
      (''replan_required'', JBool True), (''changed_preconditions'', JList (map JStr (sort (remdups changed))))]"

definition apply_response :: "string \<Rightarrow> string \<Rightarrow> int list \<Rightarrow> json" where
  "apply_response status plan_key applied = JObj [(''status'', JStr status), (''plan_key'', JStr plan_key),
     (''applied_step_ids'', JList (map JInt applied))]"

text \<open>Up to the loop: the preflight, and the transition it decides. \<open>Some\<close> is an early return.\<close>

definition begin_apply ::
    "pylib \<Rightarrow> string \<Rightarrow> plan_row \<Rightarrow> (plan_row \<Rightarrow> ('d netops, string list) prog) \<Rightarrow> ('d netops, json option) prog" where
  "begin_apply L plan_key plan preflight = bind (preflight plan) (\<lambda>changed.
     if changed \<noteq> [] then seq (transition_plan L plan_key Failed) (ret (Some (stale_response plan_key changed)))
     else seq (transition_plan L plan_key Applying) (ret None))"

text \<open>The body under the lock; \<open>Inl\<close> is a response returned from inside the \<open>try\<close>.\<close>

definition apply_body ::
    "pylib \<Rightarrow> 'd adapter \<Rightarrow> string \<Rightarrow> plan_row \<Rightarrow> step_row list \<Rightarrow>
     (plan_row \<Rightarrow> ('d netops, string list) prog) \<Rightarrow> ('d netops, json + int list) prog" where
  "apply_body L A plan_key plan sts preflight =
     bind (catch (begin_apply L plan_key plan preflight) (\<lambda>e. raise UnboundLocalError)) (\<lambda>early.
     case early of
       Some response \<Rightarrow> ret (Inl response)
     | None \<Rightarrow> bind (apply_steps A plan_key [] sts) (\<lambda>(applied, failed).
         case failed of
           None \<Rightarrow> ret (Inr applied)
         | Some st \<Rightarrow>
             seq (set_step (\<lambda>x. st_id x = st_id st) (\<lambda>x. x\<lparr>st_status := SFailed\<rparr>))
             (seq (transition_plan L plan_key Failed)
               (ret (Inl (apply_response ''failed'' plan_key applied))))))"

definition apply_plan ::
    "pylib \<Rightarrow> os_env \<Rightarrow> 'd adapter \<Rightarrow> string \<Rightarrow> (plan_row \<Rightarrow> ('d netops, string list) prog) \<Rightarrow> ('d netops, json) prog" where
  "apply_plan L E A plan_key preflight = bind (plan_and_steps plan_key) (\<lambda>(plan, sts).
     if pl_status plan = Applied
     then ret (JObj [(''status'', JStr ''already_applied''), (''plan_key'', JStr plan_key)])
     else if pl_status plan \<noteq> Approved then raise (ValueError ''only approved plans can be applied'')
     else bind (bracket (device_lock L E sts) (apply_body L A plan_key plan sts preflight)) (\<lambda>out.
       case out of
         Inl response \<Rightarrow> ret response
       | Inr applied \<Rightarrow>
           seq (transition_plan L plan_key Applied) (ret (apply_response ''applied'' plan_key applied))))"

section \<open>Verifying a plan\<close>

type_synonym 'd probe = "string \<Rightarrow> bool \<Rightarrow> 'd \<Rightarrow> json res"

definition expected_entry :: "pylib \<Rightarrow> 'd adapter \<Rightarrow> string \<Rightarrow> json \<Rightarrow> (string \<times> string) res" where
  "expected_entry L A plan_key request = rbind (getitem request ''address'') (\<lambda>address.
     rbind (policy_key_of plan_key request) (\<lambda>pk.
     rbind (getitem request ''asset_key'') (\<lambda>asset.
     rbind (ad_comment A pk (JStr (py_str L asset))) (\<lambda>comment.
     Inr (py_str L address, comment)))))"

definition active_connectivity_result ::
    "pylib \<Rightarrow> 'd probe option \<Rightarrow> plan_row \<Rightarrow> bool option \<Rightarrow> ('d netops, json option) prog" where
  "active_connectivity_result L probe plan expected_internet =
     (case loads_or_empty (pl_desired_state_json plan) of
        Inl _ \<Rightarrow> raise (ValueError ''invalid Internet-policy desired state'')
      | Inr desired \<Rightarrow>
          bind (lift (get_attr desired ''internet_access'')) (\<lambda>state.
          bind (lift (in_str_set state [''allow'', ''deny''])) (\<lambda>known.
          if \<not> known then ret None
          else case probe of
            None \<Rightarrow> raise (ValueError ''active connectivity probe is required for Internet-policy verification'')
          | Some verify \<Rightarrow>
              let asset_key = py_str L (py_or (get desired ''resolved_enforcement_asset_key'')
                    (JStr (pl_subject_key plan)));
                  expected = (case expected_internet of None \<Rightarrow> state = JStr ''allow'' | Some b \<Rightarrow> b) in
              bind (gets device) (\<lambda>d.
              bind (lift (verify asset_key expected d)) (\<lambda>result.
              if \<not> is_dict result
              then raise (ValueError ''active connectivity probe returned invalid result'')
              else ret (Some result))))))"

text \<open>The fingerprints recorded in the plan basis, by source; a later item wins.\<close>

definition expected_fingerprints :: "pylib \<Rightarrow> json \<Rightarrow> (string \<times> string) list res" where
  "expected_fingerprints L basis =
     rbind (if is_dict basis then py_iter (get_default basis ''firewall_anchors'' (JList [])) else Inl AttributeError)
       (\<lambda>anchors. Inr (rev (map (\<lambda>item. (py_str L (get item ''source''), py_str L (get item ''fingerprint'')))
         (filter (\<lambda>item. is_dict item \<and> truthy (get item ''source'') \<and> truthy (get item ''fingerprint'')) anchors))))"

definition anchor_check_of :: "pylib \<Rightarrow> json \<Rightarrow> json res" where
  "anchor_check_of L inspection =
     rbind (py_int L (py_or (get inspection ''anchor_position'') (JInt 0))) (\<lambda>position.
     let counters = py_or (get inspection ''counters'') (JObj []) in
     if \<not> is_dict counters then Inl TypeError
     else Inr (JObj [(''fingerprint'', JStr (str_or_empty L (get inspection ''fingerprint''))),
       (''anchor_position'', JInt position), (''counters'', counters)]))"

text \<open>The anchor loop: \<open>None\<close> is a failed inspection, \<open>Some\<close> the checks by target.\<close>

fun check_anchors ::
    "pylib \<Rightarrow> 'd adapter \<Rightarrow> (string \<times> string) list \<Rightarrow> (string \<times> json) list \<Rightarrow> string list \<Rightarrow>
     ('d netops, (string \<times> json) list option) prog" where
  "check_anchors L A fps acc [] = ret (Some acc)"
| "check_anchors L A fps acc (target # targets) = bind (on_device (ad_inspect A)) (\<lambda>inspection.
     let expected = (case map_of fps target of None \<Rightarrow> [] | Some f \<Rightarrow> f) in
     if \<not> is_dict inspection \<or> \<not> truthy (get inspection ''valid'')
        \<or> (expected \<noteq> [] \<and> get inspection ''fingerprint'' \<noteq> JStr expected)
     then ret None
     else bind (lift (anchor_check_of L inspection)) (\<lambda>c. check_anchors L A fps (acc @ [(target, c)]) targets))"

definition record_verification :: "step_row \<Rightarrow> (string \<times> json) list \<Rightarrow> json option \<Rightarrow> json res" where
  "record_verification st anchors active = (let recorded = loads_or_dict (st_result_json st) in
     if \<not> is_dict recorded \<and> (map_of anchors (st_target_key st) \<noteq> None \<or> active \<noteq> None) then Inl TypeError
     else let r1 = (case map_of anchors (st_target_key st) of
                None \<Rightarrow> recorded | Some c \<Rightarrow> set_field recorded ''anchor_after'' c) in
          Inr (case active of None \<Rightarrow> r1 | Some a \<Rightarrow> set_field r1 ''active_connectivity'' a))"

definition entry_present :: "pylib \<Rightarrow> string \<times> string \<Rightarrow> json list \<Rightarrow> bool" where
  "entry_present L expected entries \<longleftrightarrow>
     list_ex (\<lambda>e. col L e ''address'' = fst expected \<and> col L e ''comment'' = snd expected) entries"

text \<open>The loop over the steps; \<open>False\<close> is a step whose entry is not as it should be.\<close>

fun verify_steps ::
    "pylib \<Rightarrow> 'd adapter \<Rightarrow> string \<Rightarrow> (string \<times> json) list \<Rightarrow> json option \<Rightarrow> step_row list \<Rightarrow> ('d netops, bool) prog" where
  "verify_steps L A plan_key anchors active [] = ret True"
| "verify_steps L A plan_key anchors active (st # sts) =
     bind (lift (loads (st_request_json st))) (\<lambda>request.
     bind (lift (expected_entry L A plan_key request)) (\<lambda>expected.
     bind (on_device (ad_list A (st_target_key st))) (\<lambda>entries.
     if entry_present L expected entries \<noteq> (st_operation st = ''ensure_address_list_entry'')
     then seq (set_step (\<lambda>x. st_id x = st_id st) (\<lambda>x. x\<lparr>st_status := SFailed\<rparr>)) (ret False)
     else bind (lift (record_verification st anchors active)) (\<lambda>recorded.
       seq (set_step (\<lambda>x. st_id x = st_id st) (\<lambda>x. x\<lparr>st_result_json := Doc recorded\<rparr>))
         (verify_steps L A plan_key anchors active sts)))))"

definition failed_response :: "string \<Rightarrow> string \<Rightarrow> json" where
  "failed_response plan_key reason = JObj [(''status'', JStr ''failed''), (''plan_key'', JStr plan_key),
     (''reason'', JStr reason)]"

definition verify_plan ::
    "pylib \<Rightarrow> 'd adapter \<Rightarrow> string \<Rightarrow> 'd probe option \<Rightarrow> ('d netops, json) prog" where
  "verify_plan L A plan_key probe = bind (plan_and_steps plan_key) (\<lambda>(plan, sts).
     if pl_status plan \<noteq> Applied \<or> list_ex (\<lambda>st. st_status st \<noteq> SApplied) sts
     then raise (ValueError ''plan has not applied all steps'')
     else bind (lift (expected_fingerprints L
          (case loads_or_empty (pl_plan_basis_json plan) of Inl _ \<Rightarrow> JObj [] | Inr j \<Rightarrow> j))) (\<lambda>fps.
       bind (check_anchors L A fps [] (sort (remdups (map st_target_key sts)))) (\<lambda>checks.
       case checks of
         None \<Rightarrow>
           seq (set_step (\<lambda>x. st_plan_id x = pl_id plan) (\<lambda>x. x\<lparr>st_status := SFailed\<rparr>))
           (seq (transition_plan L plan_key Failed)
             (ret (failed_response plan_key ''firewall anchor verification failed'')))
       | Some anchors \<Rightarrow>
           bind (active_connectivity_result L probe plan None) (\<lambda>active.
           bind (verify_steps L A plan_key anchors active sts) (\<lambda>ok.
           if \<not> ok then seq (transition_plan L plan_key Failed)
             (ret (failed_response plan_key ''device verification mismatch''))
           else seq (set_step (\<lambda>x. st_plan_id x = pl_id plan) (\<lambda>x. x\<lparr>st_status := SVerified\<rparr>))
             (seq (transition_plan L plan_key Verified)
               (ret (JObj [(''status'', JStr ''verified''), (''plan_key'', JStr plan_key)]))))))))"

section \<open>Rolling a plan back\<close>

definition rollback_step :: "'d adapter \<Rightarrow> string \<Rightarrow> json \<Rightarrow> ('d netops, json) prog" where
  "rollback_step A plan_key step =
     (if \<not> is_dict step then raise (ValueError ''unsupported rollback adapter'')
      else bind (lift (if get step ''adapter'' = JNull then Inr True else in_str_set (get step ''adapter'') [''mikrotik''])) (\<lambda>ok.
        if \<not> ok then raise (ValueError ''unsupported rollback adapter'')
        else if \<not> is_dict (get step ''request'') \<or> \<not> is_str (get step ''target_key'')
        then raise (ValueError ''invalid rollback step'')
        else run_operation A ''unsupported rollback operation'' plan_key
          (str_value (get step ''operation'')) (str_value (get step ''target_key'')) (get step ''request'')))"

text \<open>The loop: how many steps were completed, and whether one raised.\<close>

fun rollback_steps ::
    "'d adapter \<Rightarrow> string \<Rightarrow> nat \<Rightarrow> nat \<Rightarrow> json list \<Rightarrow> ('d netops, nat \<times> bool) prog" where
  "rollback_steps A plan_key plan_id n [] = ret (n, True)"
| "rollback_steps A plan_key plan_id n (step # steps) = bind (attempt (rollback_step A plan_key step)) (\<lambda>r.
     case r of Inl e \<Rightarrow> ret (n, False)
     | Inr result \<Rightarrow> seq (add_execution plan_id ''rollback'' ''success'' result)
         (rollback_steps A plan_key plan_id (Suc n) steps))"

definition completed_indices :: "nat \<Rightarrow> json" where
  "completed_indices n = JList (map (\<lambda>i. JInt (int i)) [0..<n])"

definition rollback_failed :: "pylib \<Rightarrow> string \<Rightarrow> nat \<Rightarrow> nat \<Rightarrow> ('d netops, json) prog" where
  "rollback_failed L plan_key plan_id n =
     seq (add_execution plan_id ''rollback'' ''failed'' (JObj [(''completed_steps'', completed_indices n)]))
     (seq (transition_plan L plan_key Failed)
       (ret (JObj [(''status'', JStr ''failed''), (''plan_key'', JStr plan_key),
         (''completed_rollback_steps'', completed_indices n)])))"

definition rollback_body ::
    "pylib \<Rightarrow> 'd adapter \<Rightarrow> string \<Rightarrow> plan_row \<Rightarrow> json list \<Rightarrow> 'd probe option \<Rightarrow> ('d netops, json) prog" where
  "rollback_body L A plan_key plan steps probe =
     seq (transition_plan L plan_key RollingBack)
     (bind (rollback_steps A plan_key (pl_id plan) 0 steps) (\<lambda>(n, ok).
      if \<not> ok then rollback_failed L plan_key (pl_id plan) n
      else bind (attempt (active_connectivity_result L probe plan (Some True))) (\<lambda>r. case r of
        Inl e \<Rightarrow> rollback_failed L plan_key (pl_id plan) n
      | Inr active \<Rightarrow>
          seq (case active of None \<Rightarrow> ret ()
               | Some a \<Rightarrow> add_execution (pl_id plan) ''rollback'' ''success'' (JObj [(''active_connectivity'', a)]))
          (seq (set_step (\<lambda>x. st_plan_id x = pl_id plan) (\<lambda>x. x\<lparr>st_status := SRolledBack\<rparr>))
          (seq (transition_plan L plan_key RolledBack)
            (ret (JObj ([(''status'', JStr ''rolled_back''), (''plan_key'', JStr plan_key),
               (''completed_rollback_steps'', completed_indices n)]
               @ (case active of None \<Rightarrow> [] | Some a \<Rightarrow> [(''active_connectivity'', a)])))))))))"

definition rollback_plan ::
    "pylib \<Rightarrow> os_env \<Rightarrow> 'd adapter \<Rightarrow> string \<Rightarrow> 'd probe option \<Rightarrow> ('d netops, json) prog" where
  "rollback_plan L E A plan_key probe = bind (plan_and_steps plan_key) (\<lambda>(plan, plan_sts).
     if pl_status plan = RolledBack
     then ret (JObj [(''status'', JStr ''already_rolled_back''), (''plan_key'', JStr plan_key)])
     else if pl_status plan \<notin> {Applied, Verified, Failed}
     then raise (ValueError ''only applied, verified, or failed plans can be rolled back'')
     else bind (lift (loads (pl_rollback_json plan))) (\<lambda>rollback.
       bind (lift (get_attr rollback ''steps'')) (\<lambda>steps.
       if \<not> is_list steps then raise (ValueError ''invalid rollback payload'')
       else bracket (device_lock L E plan_sts) (rollback_body L A plan_key plan (elems steps) probe))))"

section \<open>Reconciling desired policies\<close>

definition record_policy_stale_identity :: "nat \<Rightarrow> string \<Rightarrow> ('d netops, unit) prog" where
  "record_policy_stale_identity policy_id reason = modify (\<lambda>s.
     let new = \<lparr>fi_policy_id = policy_id, fi_type = ''policy_stale_identity'', fi_status = ''open'',
           fi_details = JObj [(''reason'', JStr reason)]\<rparr>;
         same = (\<lambda>f. fi_policy_id f = policy_id \<and> fi_type f = ''policy_stale_identity'') in
     s\<lparr>findings := (if list_ex same (findings s)
       then map (\<lambda>f. if same f then f\<lparr>fi_status := ''open'', fi_details := fi_details new\<rparr> else f) (findings s)
       else findings s @ [new])\<rparr>)"

definition resolve_policy_finding :: "nat \<Rightarrow> ('d netops, unit) prog" where
  "resolve_policy_finding policy_id = modify (\<lambda>s. s\<lparr>findings :=
     map (\<lambda>f. if fi_policy_id f = policy_id \<and> fi_type f = ''policy_stale_identity''
       then f\<lparr>fi_status := ''resolved''\<rparr> else f) (findings s)\<rparr>)"

text \<open>The joined query: active policies with the plan each comes from.\<close>

definition reconcile_rows :: "'d netops \<Rightarrow> nat \<Rightarrow> (policy_row \<times> plan_row) list" where
  "reconcile_rows s limit = take limit (concat (map (\<lambda>po.
       map (\<lambda>p. (po, p)) (filter (\<lambda>p. pl_id p = po_source_plan_id po) (plans s)))
     (sort_key po_id (filter (\<lambda>po. po_status po = ''active'' \<and> po_policy_type po = ''internet_access'') (policies s)))))"

definition addresses_for :: "pylib \<Rightarrow> string \<Rightarrow> json list \<Rightarrow> string list" where
  "addresses_for L comment entries =
     map (\<lambda>e. col L e ''address'') (filter (\<lambda>e. col L e ''comment'' = comment) entries)"

definition sorted_diff :: "string list \<Rightarrow> string list \<Rightarrow> string list" where
  "sorted_diff xs ys = sort (remdups (filter (\<lambda>x. x \<notin> set ys) xs))"

fun ensure_each :: "'d adapter \<Rightarrow> string \<Rightarrow> string \<Rightarrow> string \<Rightarrow> string list \<Rightarrow> ('d netops, unit) prog" where
  "ensure_each A device_key policy_key asset_key [] = ret ()"
| "ensure_each A device_key policy_key asset_key (address # rest) =
     seq (on_device (ad_ensure A device_key (JStr address) policy_key (JStr asset_key)))
       (ensure_each A device_key policy_key asset_key rest)"

fun remove_each :: "'d adapter \<Rightarrow> string \<Rightarrow> string \<Rightarrow> string \<Rightarrow> string list \<Rightarrow> ('d netops, unit) prog" where
  "remove_each A device_key policy_key asset_key [] = ret ()"
| "remove_each A device_key policy_key asset_key (address # rest) =
     seq (on_device (ad_remove A device_key (JStr address) policy_key (JStr asset_key)))
       (remove_each A device_key policy_key asset_key rest)"

text \<open>The device part for one policy, under the lock: add what is missing, check that everything
  expected is there, only then remove what is no longer expected.\<close>

definition converge ::
    "pylib \<Rightarrow> 'd adapter \<Rightarrow> string \<Rightarrow> string \<Rightarrow> string \<Rightarrow> string list \<Rightarrow> ('d netops, unit) prog" where
  "converge L A device_key policy_key asset_key expected =
     bind (lift (ad_comment A policy_key (JStr asset_key))) (\<lambda>comment.
     bind (on_device (ad_list A device_key)) (\<lambda>entries.
     let existing = addresses_for L comment entries in
     seq (ensure_each A device_key policy_key asset_key (sorted_diff expected existing))
     (bind (on_device (ad_list A device_key)) (\<lambda>entries'.
      let verified = addresses_for L comment entries' in
      if \<not> set expected \<subseteq> set verified then raise (ValueError ''new deny entry did not verify'')
      else remove_each A device_key policy_key asset_key (sorted_diff existing expected)))))"

record tally =
  reconciled :: int
  stale_identity :: int
  skipped :: int

text \<open>One policy: \<open>resolve\<close> reads the context snapshot and returns the asset and its targets.\<close>

definition reconcile_policy ::
    "pylib \<Rightarrow> os_env \<Rightarrow> 'd adapter \<Rightarrow> (policy_row \<Rightarrow> ('d netops, string \<times> json list) prog) \<Rightarrow>
     tally \<Rightarrow> policy_row \<times> plan_row \<Rightarrow> ('d netops, tally) prog" where
  "reconcile_policy L E A resolve t row = (let policy = fst row; plan = snd row;
       stale = (\<lambda>reason. seq (record_policy_stale_identity (po_id policy) reason)
         (ret (t\<lparr>stale_identity := stale_identity t + 1\<rparr>))) in
     if po_desired_state policy \<noteq> ''deny'' then ret (t\<lparr>skipped := skipped t + 1\<rparr>)
     else bind (attempt (resolve policy)) (\<lambda>r. case r of
       Inl e \<Rightarrow> if is_ValueError e then stale (exn_text e) else raise e
     | Inr (asset_key, targets) \<Rightarrow>
         (case remdups (map (\<lambda>x. py_str L (get x ''source'')) targets) of
            [device_key] \<Rightarrow>
              let source_desired = loads_or_dict (pl_desired_state_json plan) in
              if \<not> is_dict source_desired then raise AttributeError
              else let policy_key = py_str L (py_or (get source_desired ''policy_key'') (JStr (pl_key plan)));
                       expected = remdups (map (\<lambda>x. py_str L (get x ''address'')) targets) in
                bracket (device_lock_for_target L E device_key)
                  (catch (seq (converge L A device_key policy_key asset_key expected)
                     (seq (add_execution (po_source_plan_id policy) ''reconcile'' ''success''
                         (JObj [(''addresses'', JList (map JStr (sort expected)))]))
                     (seq (resolve_policy_finding (po_id policy))
                       (ret (t\<lparr>reconciled := reconciled t + 1\<rparr>)))))
                   (\<lambda>e. stale (exn_text e)))
          | _ \<Rightarrow> stale ''policy spans multiple enforcement devices'')))"

definition reconcile_desired_policies ::
    "pylib \<Rightarrow> os_env \<Rightarrow> 'd adapter \<Rightarrow> (policy_row \<Rightarrow> ('d netops, string \<times> json list) prog) \<Rightarrow> int \<Rightarrow> ('d netops, json) prog" where
  "reconcile_desired_policies L E A resolve limit =
     (if \<not> (1 \<le> limit \<and> limit \<le> 256) then raise (ValueError ''invalid reconcile limit'')
      else bind (gets (\<lambda>s. reconcile_rows s (nat limit))) (\<lambda>rows.
        bind (foldM (reconcile_policy L E A resolve) \<lparr>reconciled = 0, stale_identity = 0, skipped = 0\<rparr> rows) (\<lambda>t.
        ret (JObj [(''reconciled'', JInt (reconciled t)), (''stale_identity'', JInt (stale_identity t)),
          (''skipped'', JInt (skipped t))]))))"

section \<open>Database effects of the executor\<close>

lemma on_device_fields [simp]: "snd (on_device m s) = s\<lparr>device := snd (m (device s))\<rparr>"
  by (simp add: on_device_def split: prod.split)

lemma safe_on_device [simp]: "confined safe (on_device m)"
  by (auto simp: confined_def intro: safe_frameI)

lemma safe_set_step:
  assumes "\<And>st. st_core (f st) = st_core st"
  shows "confined safe (set_step P f)"
proof -
  have *: "safe s (s\<lparr>plan_steps := map (\<lambda>st. if P st then f st else st) (plan_steps s)\<rparr>)" for s :: "'a netops"
  proof -
    let ?t = "s\<lparr>plan_steps := map (\<lambda>st. if P st then f st else st) (plan_steps s)\<rparr>"
    have core: "map st_core (plan_steps ?t) = map st_core (plan_steps s)" by (simp add: assms)
    have ids: "map st_id (plan_steps ?t) = map st_id (plan_steps s)"
      using arg_cong [OF core, of "map st_id"] by (simp add: comp_def st_core_def)
    have "wf_db s \<longrightarrow> wf_db ?t" unfolding wf_db_def ids by simp
    moreover have "evolves s ?t" by (rule evolves_same) (use core in simp_all)
    ultimately show ?thesis by (simp add: safe_def)
  qed
  then show ?thesis unfolding set_step_def by (intro sf.w_modify)
qed

lemma safe_step_writes [simp]:
  "confined safe (set_step P (\<lambda>x. x\<lparr>st_status := a\<rparr>))"
  "confined safe (set_step P (\<lambda>x. x\<lparr>st_status := a, st_result_json := j\<rparr>))"
  "confined safe (set_step P (\<lambda>x. x\<lparr>st_result_json := j\<rparr>))"
  by (rule safe_set_step, simp add: st_core_def)+

lemma safe_other_writes [simp]:
  "confined safe (add_execution i k st r)" "confined safe (release_device_lock lock)"
  "confined safe (record_policy_stale_identity i reason)" "confined safe (resolve_policy_finding i)"
  unfolding add_execution_def release_device_lock_def record_policy_stale_identity_def
    resolve_policy_finding_def Let_def
  by (rule safe_modify; simp)+

lemma safe_insert_lock [simp]: "confined safe (insert_lock l)"
  by (auto simp: confined_def insert_lock_def intro: safe_frameI)

lemma safe_device_lock_for_target [simp]: "confined safe (device_lock_for_target L E k)"
  unfolding device_lock_for_target_def take_over_lock_def
  by (intro sf.frame_rules safe_clock safe_insert_lock safe_modify) simp_all

lemma safe_device_lock [simp]: "confined safe (device_lock L E sts)"
  by (auto simp: device_lock_def intro: sf.frame_rules split: list.split)

lemma safe_bracket [intro]:
  "confined safe acquire \<Longrightarrow> confined safe m \<Longrightarrow> confined safe (bracket acquire m)"
  unfolding bracket_def by (intro sf.frame_rules safe_other_writes)

lemma safe_plan_and_steps [simp]: "confined safe (plan_and_steps k)"
  unfolding plan_and_steps_def by (intro sf.frame_rules safe_plan_row_of)

lemma safe_run_operation [simp]: "confined safe (run_operation A u k o' t r)"
  unfolding run_operation_def by (intro sf.frame_rules safe_on_device)

lemma safe_apply_steps [simp]: "confined safe (apply_steps A k acc sts)"
  by (induction sts arbitrary: acc) (auto simp: apply_step_def intro!: sf.frame_rules)

lemma safe_apply_plan [simp]:
  assumes "\<And>p. confined safe (preflight p)"
  shows "confined safe (apply_plan L E A k preflight)"
  unfolding apply_plan_def apply_body_def begin_apply_def
  by (intro sf.frame_rules safe_bracket safe_plan_and_steps safe_device_lock safe_other_writes safe_step_writes
      safe_apply_steps safe_transition_plan assms)

lemma safe_check_anchors [simp]: "confined safe (check_anchors L A fps acc ts)"
  by (induction ts arbitrary: acc) (auto simp: Let_def intro!: sf.frame_rules)

lemma safe_verify_steps [simp]: "confined safe (verify_steps L A k anchors active sts)"
  by (induction sts) (auto intro!: sf.frame_rules)

lemma safe_active_connectivity [simp]: "confined safe (active_connectivity_result L probe p e)"
  unfolding active_connectivity_result_def by (intro sf.frame_rules)

lemma safe_verify_plan [simp]: "confined safe (verify_plan L A k probe)"
  unfolding verify_plan_def
  by (intro sf.frame_rules safe_plan_and_steps safe_step_writes safe_transition_plan safe_check_anchors
      safe_verify_steps safe_active_connectivity)

lemma safe_rollback_steps [simp]: "confined safe (rollback_steps A k i n steps)"
  by (induction steps arbitrary: n) (auto simp: rollback_step_def intro!: sf.frame_rules)

lemma safe_rollback_plan [simp]: "confined safe (rollback_plan L E A k probe)"
  unfolding rollback_plan_def rollback_body_def rollback_failed_def
  by (intro sf.frame_rules safe_bracket safe_plan_and_steps safe_device_lock safe_other_writes safe_step_writes
      safe_rollback_steps safe_transition_plan safe_active_connectivity)

lemma safe_each [simp]:
  "confined safe (ensure_each A dk pk ak xs)" "confined safe (remove_each A dk pk ak xs)"
  by (induction xs) (auto intro!: sf.frame_rules)

lemma safe_converge [simp]: "confined safe (converge L A dk pk ak expected)"
  unfolding converge_def by (intro sf.frame_rules safe_on_device safe_each)

lemma safe_reconcile [simp]:
  assumes "\<And>po. confined safe (resolve po)"
  shows "confined safe (reconcile_desired_policies L E A resolve limit)"
proof -
  have "confined safe (reconcile_policy L E A resolve t row)" for t row
    unfolding reconcile_policy_def Let_def
    by (auto intro!: sf.frame_rules safe_bracket assms split: list.split)
  then show ?thesis
    unfolding reconcile_desired_policies_def by (intro sf.frame_rules)
qed

section \<open>What the executor leaves alone\<close>

text \<open>The tables no executor operation writes, and with them the locks, which only the two lock
  operations write.\<close>

definition rest :: "'d netops \<Rightarrow> audit_row list \<times> nonce_row list \<times> json list \<times> policy_row list" where
  "rest s = (audit_events s, used_nonces s, delivered s, policies s)"

definition rest_locks :: "'d netops \<Rightarrow> (audit_row list \<times> nonce_row list \<times> json list \<times> policy_row list) \<times> lock_row list" where
  "rest_locks s = (rest s, locks s)"

lemma rest_modify:
  assumes "\<And>s. rest_locks (f s) = rest_locks s"
  shows "confined (same rest_locks) (modify f)"
  by (intro sm.w_modify) (simp add: same_def assms)

lemma rest_store [simp]:
  "confined (same rest_locks) (read_clock L)" "confined (same rest_locks) (fresh_uuid L)"
  "confined (same rest_locks) (utc_now L)" "confined (same rest_locks) (plan_row_of k)"
  "confined (same rest_locks) (get_change_plan k)" "confined (same rest_locks) (update_plan i f)"
  "confined (same rest_locks) (on_device m)" "confined (same rest_locks) (set_step P g)"
  "confined (same rest_locks) (add_execution j kd st r)"
  "confined (same rest_locks) (record_policy_stale_identity j reason)"
  "confined (same rest_locks) (resolve_policy_finding j)"
  by (simp_all add: confined_def same_def rest_locks_def rest_def read_clock_def fresh_uuid_def
      plan_row_of_run set_step_def modify_def add_execution_def record_policy_stale_identity_def
      resolve_policy_finding_def Let_def)

lemma rest_transition_plan [simp]: "confined (same rest_locks) (transition_plan L k st)"
  unfolding transition_plan_def by (intro sm.frame_rules rest_store)

lemma rest_plan_and_steps [simp]: "confined (same rest_locks) (plan_and_steps k)"
  unfolding plan_and_steps_def by (intro sm.frame_rules rest_store)

lemma rest_run_operation [simp]: "confined (same rest_locks) (run_operation A u k o' t r)"
  unfolding run_operation_def by (intro sm.frame_rules rest_store)

lemma rest_apply_steps [simp]: "confined (same rest_locks) (apply_steps A k acc sts)"
  by (induction sts arbitrary: acc) (auto simp: apply_step_def intro!: sm.frame_rules)

lemma rest_apply_body:
  assumes "\<And>p. confined (same rest_locks) (preflight p)"
  shows "confined (same rest_locks) (apply_body L A k p sts preflight)"
  unfolding apply_body_def begin_apply_def
  by (intro sm.frame_rules rest_store rest_apply_steps rest_transition_plan assms)

lemma rest_active_connectivity [simp]: "confined (same rest_locks) (active_connectivity_result L probe p e)"
  unfolding active_connectivity_result_def by (intro sm.frame_rules)

lemma rest_rollback_body [simp]: "confined (same rest_locks) (rollback_body L A k p steps probe)"
proof -
  have "confined (same rest_locks) (rollback_steps A k i n steps)" for i n
    by (induction steps arbitrary: n) (auto simp: rollback_step_def intro!: sm.frame_rules)
  then show ?thesis
    unfolding rollback_body_def rollback_failed_def
    by (intro sm.frame_rules rest_store rest_transition_plan rest_active_connectivity)
qed

lemma rest_verify_plan [simp]: "confined (same rest_locks) (verify_plan L A k probe)"
proof -
  have "confined (same rest_locks) (check_anchors L A fps acc ts)" for fps acc ts
    by (induction ts arbitrary: acc) (auto simp: Let_def intro!: sm.frame_rules)
  moreover have "confined (same rest_locks) (verify_steps L A k anchors active sts)" for anchors active sts
    by (induction sts) (auto intro!: sm.frame_rules)
  ultimately show ?thesis
    unfolding verify_plan_def
    by (intro sm.frame_rules rest_plan_and_steps rest_store rest_transition_plan rest_active_connectivity)
qed

lemma rest_each [simp]:
  "confined (same rest_locks) (ensure_each A dk pk ak xs)" "confined (same rest_locks) (remove_each A dk pk ak xs)"
  by (induction xs) (auto intro!: sm.frame_rules)

lemma rest_converge [simp]: "confined (same rest_locks) (converge L A dk pk ak expected)"
  unfolding converge_def by (intro sm.frame_rules rest_store rest_each)

section \<open>Locks\<close>

text \<open>What taking and releasing a lock does to the table.\<close>

lemma lock_run:
  "device_lock_for_target L E k s = (let h = uuid4 L (uuids s); s' = s\<lparr>uuids := Suc (uuids s)\<rparr>;
     new = \<lparr>lk_device_key = k, lk_holder = h, lk_owner_pid = getpid E\<rparr> in
   case find (\<lambda>l. lk_device_key l = k) (locks s) of
     None \<Rightarrow> (Inr (k, h), s'\<lparr>locks := locks s @ [new]\<rparr>)
   | Some old \<Rightarrow>
       if lk_owner_pid old \<le> 0 \<or> process_is_alive E (lk_owner_pid old)
       then (Inl (ValueError ''device operation is already in progress''), s')
       else let ls = filter (\<lambda>l. \<not> (lk_device_key l = k \<and> lk_holder l = lk_holder old
              \<and> lk_owner_pid l = lk_owner_pid old)) (locks s) in
         if k \<in> lk_device_key ` set ls then (Inl IntegrityError, s'\<lparr>locks := ls\<rparr>)
         else (Inr (k, h), s'\<lparr>locks := ls @ [new]\<rparr>))"
proof (cases "find (\<lambda>l. lk_device_key l = k) (locks s)")
  case None
  then have "k \<notin> lk_device_key ` set (locks s)" by (auto simp: find_None_iff)
  with None show ?thesis
    by (simp add: device_lock_for_target_def fresh_uuid_def insert_lock_def prog_simps Let_def)
next
  case (Some old)
  then have "k \<in> lk_device_key ` set (locks s)" by (auto dest: find_SomeD)
  with Some show ?thesis
    by (simp add: device_lock_for_target_def take_over_lock_def fresh_uuid_def insert_lock_def prog_simps Let_def)
qed

lemma lock_acquired:
  assumes "device_lock_for_target L E k s = (Inr lock, s')"
  shows "lock = (k, uuid4 L (uuids s))" and "rest s' = rest s" and "device s' = device s"
    and "filter (\<lambda>l. \<not> (lk_device_key l = fst lock \<and> lk_holder l = snd lock)) (locks s') = filter (\<lambda>l. lk_device_key l \<noteq> k) (locks s)"
proof -
  have absent: "filter (\<lambda>l. lk_device_key l \<noteq> k) ls = ls" if "k \<notin> lk_device_key ` set ls" for ls
    using that by (auto simp: filter_id_conv)
  show "lock = (k, uuid4 L (uuids s))" "rest s' = rest s" "device s' = device s"
    using assms by (auto simp: lock_run Let_def rest_def split: option.splits if_splits)
  show "filter (\<lambda>l. \<not> (lk_device_key l = fst lock \<and> lk_holder l = snd lock)) (locks s') = filter (\<lambda>l. lk_device_key l \<noteq> k) (locks s)"
  proof (cases "find (\<lambda>l. lk_device_key l = k) (locks s)")
    case None
    then have "k \<notin> lk_device_key ` set (locks s)" by (auto simp: find_None_iff)
    then show ?thesis using assms None by (auto simp: lock_run Let_def absent filter_id_conv)
  next
    case (Some old)
    define ls where "ls = filter (\<lambda>l. \<not> (lk_device_key l = k \<and> lk_holder l = lk_holder old
              \<and> lk_owner_pid l = lk_owner_pid old)) (locks s)"
    have l: "k \<notin> lk_device_key ` set ls" "lock = (k, uuid4 L (uuids s))"
      "locks s' = ls @ [\<lparr>lk_device_key = k, lk_holder = uuid4 L (uuids s), lk_owner_pid = getpid E\<rparr>]"
      using assms Some by (auto simp: lock_run Let_def ls_def split: if_splits)
    have "filter (\<lambda>l. lk_device_key l \<noteq> k) (locks s) = filter (\<lambda>l. lk_device_key l \<noteq> k) ls"
      unfolding ls_def by (auto intro: filter_cong)
    then show ?thesis using l by (auto simp: absent filter_id_conv)
  qed
qed

text \<open>A program that, seen from outside, takes no lock and touches none of the other tables.\<close>

definition released :: "'d netops \<Rightarrow> 'd netops \<Rightarrow> bool" where
  "released s t \<longleftrightarrow> set (locks t) \<subseteq> set (locks s) \<and> rest t = rest s"

interpretation rl: frame "released :: 'd netops \<Rightarrow> 'd netops \<Rightarrow> bool"
  by unfold_locales (auto simp: released_def)

lemma released_same: "confined (same rest_locks) m \<Longrightarrow> confined released m"
  by (erule confined_mono) (simp add: same_def released_def rest_locks_def)

lemma under_lock:
  assumes "device_lock_for_target L E k s = (Inr lock, s1)" and "confined (same rest_locks) m"
    and "finalize m (release_device_lock lock) s1 = (r, t)"
  shows "locks t = filter (\<lambda>l. lk_device_key l \<noteq> k) (locks s) \<and> rest t = rest s
    \<and> (\<exists>s2. m s1 = (r, s2) \<and> t = s2\<lparr>locks := filter (\<lambda>l. lk_device_key l \<noteq> k) (locks s)\<rparr>)"
proof -
  obtain r' s2 where m: "m s1 = (r', s2)" by (cases "m s1")
  then have "rest_locks s2 = rest_locks s1" using assms(2) by (blast dest: confined_sameD)
  then have eq: "rest s2 = rest s1" "locks s2 = locks s1" by (simp_all add: rest_locks_def)
  have "r = r'" and "t = s2\<lparr>locks := filter (\<lambda>l. \<not> (lk_device_key l = fst lock \<and> lk_holder l = snd lock)) (locks s2)\<rparr>"
    using assms(3) m by (auto simp: finalize_def release_device_lock_def modify_def)
  with lock_acquired [OF assms(1)] eq m show ?thesis by (simp add: rest_def)
qed

lemma lock_failed: "device_lock_for_target L E k s = (Inl e, t) \<Longrightarrow> released s t \<and> device t = device s"
  by (auto simp: lock_run Let_def rest_def released_def split: option.splits if_splits)

lemma released_bracket_target:
  assumes "confined (same rest_locks) m"
  shows "confined released (bracket (device_lock_for_target L E k) m)"
proof (rule confinedI)
  fix s r t assume "bracket (device_lock_for_target L E k) m s = (r, t)"
  then show "released s t"
    unfolding bracket_def
  proof (cases rule: bind_cases)
    case (ok lock s1)
    from under_lock [OF ok(1) assms ok(2)] show ?thesis by (auto simp: released_def)
  qed (simp add: lock_failed)
qed

lemma device_lock_cases:
  assumes "device_lock L E sts s = (r, t)"
  obtains (bad) "r = Inl (ValueError ''plan must target exactly one enforcement device'')" "t = s"
    | (one) k where "remdups (map st_target_key sts) = [k]" "device_lock_for_target L E k s = (r, t)"
  using assms by (auto simp: device_lock_def raise_def split: list.splits)

lemma released_bracket:
  assumes "confined (same rest_locks) m"
  shows "confined released (bracket (device_lock L E sts) m)"
proof (rule confinedI)
  fix s r t assume run: "bracket (device_lock L E sts) m s = (r, t)"
  show "released s t"
  proof (cases "\<exists>k. remdups (map st_target_key sts) = [k]")
    case True
    then obtain k where "remdups (map st_target_key sts) = [k]" by blast
    with run have "bracket (device_lock_for_target L E k) m s = (r, t)" by (simp add: device_lock_def)
    then show ?thesis by (rule confinedD [OF released_bracket_target [OF assms]])
  next
    case False
    then have "t = s"
      using run by (auto simp: bracket_def device_lock_def bind_def raise_def split: list.splits)
    then show ?thesis by (simp add: rl.frame_refl)
  qed
qed

lemma released_apply_plan:
  assumes "\<And>p. confined (same rest_locks) (preflight p)"
  shows "confined released (apply_plan L E A k preflight)"
  unfolding apply_plan_def
  by (intro rl.frame_rules released_bracket rest_apply_body assms released_same rest_plan_and_steps
      rest_transition_plan)

lemma released_rollback_plan [simp]: "confined released (rollback_plan L E A k probe)"
  unfolding rollback_plan_def
  by (intro rl.frame_rules released_bracket rest_rollback_body released_same rest_plan_and_steps)

lemma released_reconcile:
  assumes "\<And>po. confined (same rest_locks) (resolve po)"
  shows "confined released (reconcile_desired_policies L E A resolve limit)"
proof -
  have leaf: "confined released (record_policy_stale_identity i reason)" "confined released (resolve po)"
    for i reason po
    by (intro released_same rest_store assms)+
  have body: "confined (same rest_locks) (catch (seq (converge L A dk pk ak ex) (seq (add_execution i a b c)
      (seq (resolve_policy_finding j) (ret x)))) (\<lambda>e. seq (record_policy_stale_identity j (exn_text e)) (ret y)))"
    for dk pk ak ex i j a b c x y
    by (intro sm.frame_rules rest_store rest_converge)
  have "confined released (reconcile_policy L E A resolve t row)" for t row
    unfolding reconcile_policy_def Let_def
    by (auto intro!: rl.frame_rules released_bracket_target leaf body split: list.split)
  then show ?thesis
    unfolding reconcile_desired_policies_def by (intro rl.frame_rules)
qed

end
