(* ===== verification/Policy_Resolver.thy ===== *)
theory Policy_Resolver
  imports Plan_Executor
begin

text \<open>
  From a policy subject to enforcement targets (\<open>netopsctl/policy_resolver.py\<close>, the user bindings of
  \<open>netctl/user_context.py\<close>, and the asset lookup of \<open>netopsctl/reconcile.py\<close>). The resolver reads one
  snapshot of the collector's database, refuses every ambiguous or stale identity, and freezes what it
  saw into the basis of a plan; right before the plan is applied it resolves again and compares.

  The tables of the collector that are read have one record type each, with an option for a column that
  may be NULL. The collector writes its database while the broker runs: \<open>snap n\<close> is what the n-th snapshot
  the broker opens shows, or the database error it fails with.
\<close>

section \<open>The collector's database\<close>

record asset_row =
  as_id :: int
  as_key :: string
  as_provisional :: bool
  as_status :: string
  as_updated_at :: string

record source_row =
  so_id :: int
  so_name :: string
  so_site :: "string option"
  so_last_collect_at :: "string option"
  so_last_status :: "string option"
  so_updated_at :: string

record interface_row =
  if_id :: int
  if_asset_id :: int
  if_mac :: "string option"
  if_lifecycle :: string
  if_first_seen_at :: string
  if_last_seen_at :: string

record ip_row =
  ob_id :: int
  ob_asset_id :: int
  ob_interface_id :: "int option"
  ob_site :: string
  ob_source_id :: "int option"
  ob_ip :: string
  ob_first_seen_at :: string
  ob_last_seen_at :: string
  ob_is_current :: bool

record identity_finding =
  ri_asset_id :: "int option"
  ri_status :: string
  ri_finding_type :: string

record attachment_row =
  at_interface_id :: int
  at_asset_id :: int
  at_status :: string
  at_source_id :: "int option"
  at_port_key :: string
  at_vlan_key :: string
  at_vlan_id :: "int option"
  at_correlation_run_id :: int
  at_last_seen_at :: string

record head_row =
  he_context_id :: string
  he_revision_id :: int

record revision_row =
  rv_id :: int
  rv_sha256 :: string

record user_row =
  us_id :: int
  us_key :: string
  us_status :: string

record binding_row =
  bi_id :: int
  bi_user_id :: int
  bi_asset_id :: int
  bi_relation :: string
  bi_status :: string
  bi_confidence :: int
  bi_valid_from :: string
  bi_valid_until :: "string option"

record context_db =
  c_assets :: "asset_row list"
  c_sources :: "source_row list"
  c_interfaces :: "interface_row list"
  c_observations :: "ip_row list"
  c_findings :: "identity_finding list"
  c_attachments :: "attachment_row list"
  c_heads :: "head_row list"
  c_revisions :: "revision_row list"
  c_users :: "user_row list"
  c_bindings :: "binding_row list"

type_synonym snapshot = "nat \<Rightarrow> context_db res"

text \<open>\<open>read_context_snapshot\<close>: one read-only transaction.\<close>

definition read_context_snapshot :: "snapshot \<Rightarrow> ('d netops, context_db) prog" where
  "read_context_snapshot snap s = (snap (snapshots s), s\<lparr>snapshots := Suc (snapshots s)\<rparr>)"

definition find_asset :: "context_db \<Rightarrow> string \<Rightarrow> asset_row option" where
  "find_asset ctx k = find (\<lambda>a. as_key a = k) (c_assets ctx)"

definition opt_str :: "string option \<Rightarrow> string" where
  "opt_str v = (case v of None \<Rightarrow> [] | Some s \<Rightarrow> s)"

definition opt_int :: "int option \<Rightarrow> json" where
  "opt_int v = (case v of None \<Rightarrow> JNull | Some i \<Rightarrow> JInt i)"

section \<open>Users\<close>

definition binding_live :: "string \<Rightarrow> binding_row \<Rightarrow> bool" where
  "binding_live now b \<longleftrightarrow> bi_valid_from b \<le> now \<and>
     (case bi_valid_until b of None \<Rightarrow> True | Some u \<Rightarrow> now < u)"

definition primary_bindings :: "context_db \<Rightarrow> string \<Rightarrow> string \<Rightarrow> (binding_row \<times> asset_row) list" where
  "primary_bindings ctx user_key now = concat (map (\<lambda>b.
       concat (map (\<lambda>u. map (\<lambda>a. (b, a)) (filter (\<lambda>a. as_id a = bi_asset_id b) (c_assets ctx)))
         (filter (\<lambda>u. us_id u = bi_user_id b \<and> us_key u = user_key \<and> us_status u = ''active'') (c_users ctx))))
     (sort_key bi_id (filter (\<lambda>b. bi_relation b = ''primary_user'' \<and> bi_status b = ''confirmed''
        \<and> bi_confidence b = 100 \<and> binding_live now b) (c_bindings ctx))))"

definition resolve_policy_asset_for_user ::
    "pylib \<Rightarrow> context_db \<Rightarrow> string \<Rightarrow> ('d netops, string option) prog" where
  "resolve_policy_asset_for_user L ctx user_key = bind (utc_now L) (\<lambda>now.
     ret (case primary_bindings ctx user_key now of
       [(b, a)] \<Rightarrow>
         if \<exists>x \<in> set (c_bindings ctx). bi_asset_id x = bi_asset_id b \<and> bi_relation x = ''shared_user''
             \<and> bi_status x = ''confirmed'' \<and> binding_live now x
         then None else Some (as_key a)
     | _ \<Rightarrow> None))"

section \<open>Targets\<close>

definition MAX_PLAN_TTL_SECONDS :: int where
  "MAX_PLAN_TTL_SECONDS = 900"

definition DEFAULT_IDENTITY_OBSERVATION_MAX_AGE_SECONDS :: int where
  "DEFAULT_IDENTITY_OBSERVATION_MAX_AGE_SECONDS = 900"

definition internet_policy_key :: "pylib \<Rightarrow> string \<Rightarrow> string \<Rightarrow> string \<Rightarrow> string res" where
  "internet_policy_key L subject_type subject_key enforcement_scope =
     (if subject_type \<notin> {''asset'', ''user''} \<or> subject_key = [] \<or> enforcement_scope = []
      then Inl (ValueError ''invalid Internet policy identity'')
      else Inr (''policy-'' @ removeprefix (canonical_sha256 L (JObj
        [(''policy_type'', JStr ''internet_access''), (''subject_type'', JStr subject_type),
         (''subject_key'', JStr subject_key), (''enforcement_scope'', JStr enforcement_scope)])) ''sha256:''))"

definition is_fresh :: "pylib \<Rightarrow> string \<Rightarrow> int \<Rightarrow> ('d netops, bool) prog" where
  "is_fresh L v max_age_seconds = (case fromiso L (replace_Z v) of
     None \<Rightarrow> ret False
   | Some observed \<Rightarrow> bind (read_clock L) (\<lambda>now. ret (now - stamp_utc observed \<le> max_age_seconds * second)))"

definition validate_security_thresholds :: "int \<Rightarrow> int \<Rightarrow> unit res" where
  "validate_security_thresholds plan_ttl_seconds identity_age =
     (if \<not> (0 < plan_ttl_seconds \<and> plan_ttl_seconds \<le> MAX_PLAN_TTL_SECONDS)
      then Inl (ValueError ''plan TTL must be between one second and fifteen minutes'')
      else if \<not> (0 < identity_age \<and> identity_age \<le> MAX_PLAN_TTL_SECONDS)
      then Inl (ValueError ''identity observation maximum age must be between one second and fifteen minutes'')
      else Inr ())"

text \<open>The current observations of an asset with their sources, in the order of the query.\<close>

definition current_rows :: "context_db \<Rightarrow> int \<Rightarrow> (ip_row \<times> source_row) list" where
  "current_rows ctx asset_id = sort_key (\<lambda>(ob, so). (ob_ip ob, so_name so)) (concat (map (\<lambda>ob.
       map (\<lambda>so. (ob, so)) (filter (\<lambda>so. ob_source_id ob = Some (so_id so)) (c_sources ctx)))
     (filter (\<lambda>ob. ob_asset_id ob = asset_id \<and> ob_is_current ob) (c_observations ctx))))"

definition has_collision :: "context_db \<Rightarrow> int \<Rightarrow> bool" where
  "has_collision ctx asset_id \<longleftrightarrow> list_ex (\<lambda>f. ri_asset_id f = Some asset_id \<and> ri_status f = ''open''
     \<and> contains_str ''collision'' (lower (ri_finding_type f))) (c_findings ctx)"

definition ambiguous_attachment :: "context_db \<Rightarrow> int \<Rightarrow> bool" where
  "ambiguous_attachment ctx asset_id \<longleftrightarrow> list_ex (\<lambda>r. at_asset_id r = asset_id
     \<and> at_status r \<in> {''ambiguous'', ''uplink_only'', ''unresolved''}) (c_attachments ctx)"

definition duplicate_ip :: "context_db \<Rightarrow> int \<Rightarrow> string \<Rightarrow> bool" where
  "duplicate_ip ctx asset_id ip \<longleftrightarrow>
     list_ex (\<lambda>ob. ob_ip ob = ip \<and> ob_is_current ob \<and> ob_asset_id ob \<noteq> asset_id) (c_observations ctx)"

definition site_of :: "ip_row \<Rightarrow> source_row \<Rightarrow> string" where
  "site_of ob so = (if ob_site ob \<noteq> [] then ob_site ob else opt_str (so_site so))"

definition anchor_facts :: "pylib \<Rightarrow> json \<Rightarrow> bool \<times> string \<times> string" where
  "anchor_facts L anchor = (if is_dict anchor
     then (truthy (get anchor ''valid''), str_or_empty L (get anchor ''fingerprint''), str_or_empty L (get anchor ''anchor''))
     else (truthy anchor, [], []))"

definition target_item :: "string \<Rightarrow> string \<Rightarrow> string \<Rightarrow> string \<Rightarrow> string \<Rightarrow> json" where
  "target_item source address site fingerprint address_list = JObj
     [(''source'', JStr source), (''address'', JStr address), (''site'', JStr site),
      (''anchor_fingerprint'', JStr fingerprint), (''address_list'', JStr address_list)]"

text \<open>The configuration of the resolver: the enforcement source of each site, how old a collection and an
  observation may be, and the check of the policy anchor.\<close>

record 'd resolver =
  enforcement_sources_by_site :: "(string \<times> string) list"
  source_sla_seconds :: int
  anchor_check :: "string \<Rightarrow> ('d netops, json) prog"

definition collection_healthy :: "pylib \<Rightarrow> 'd resolver \<Rightarrow> source_row \<Rightarrow> ('d netops, bool) prog" where
  "collection_healthy L R so = (if opt_str (so_last_status so) \<notin> {''ok'', ''success''} then ret False
     else is_fresh L (opt_str (so_last_collect_at so)) (source_sla_seconds R))"

definition anchored_target :: "pylib \<Rightarrow> 'd resolver \<Rightarrow> string \<Rightarrow> string \<Rightarrow> string \<Rightarrow> ('d netops, json) prog" where
  "anchored_target L R source address site = bind (anchor_check R source) (\<lambda>anchor.
     let facts = anchor_facts L anchor in
     if \<not> fst facts then raise (ValueError ''Internet policy anchor pre-check failed'')
     else ret (target_item source address site (fst (snd facts)) (snd (snd facts))))"

text \<open>One observation: nothing for an address that is not IPv4, else a target or the first objection.\<close>

definition resolve_row ::
    "pylib \<Rightarrow> 'd resolver \<Rightarrow> int \<Rightarrow> context_db \<Rightarrow> int \<Rightarrow> ip_row \<times> source_row \<Rightarrow> ('d netops, json option) prog" where
  "resolve_row L R identity_age ctx asset_id row = (let ob = fst row; so = snd row in
     case ip_address L (JStr (ob_ip ob)) of None \<Rightarrow> ret None
     | Some a \<Rightarrow>
        if ip_version a \<noteq> 4 then ret None
        else bind (is_fresh L (ob_last_seen_at ob) identity_age) (\<lambda>seen.
          if \<not> seen then raise (ValueError ''current IP observation is stale'')
          else if duplicate_ip ctx asset_id (ip_text L a)
          then raise (ValueError ''duplicate current IP is bound to another asset'')
          else let site = site_of ob so; source = opt_str (map_of (enforcement_sources_by_site R) site) in
            if site = [] \<or> source = [] then raise (ValueError ''current IP has unresolved enforcement point'')
            else bind (collection_healthy L R so) (\<lambda>collected.
              if \<not> collected then raise (ValueError ''source collection is stale or failed'')
              else bind (anchored_target L R source (ip_text L a) site) (\<lambda>target. ret (Some target)))))"

definition resolve_rows ::
    "pylib \<Rightarrow> 'd resolver \<Rightarrow> int \<Rightarrow> context_db \<Rightarrow> int \<Rightarrow> json list \<Rightarrow> (ip_row \<times> source_row) list \<Rightarrow> ('d netops, json list) prog" where
  "resolve_rows L R identity_age ctx asset_id = foldM (\<lambda>acc row.
     bind (resolve_row L R identity_age ctx asset_id row) (\<lambda>t. ret (case t of None \<Rightarrow> acc | Some x \<Rightarrow> acc @ [x])))"

definition target_key_of :: "json \<Rightarrow> string \<times> string \<times> string" where
  "target_key_of t = (str_value (get t ''source''), str_value (get t ''address''), str_value (get t ''site''))"

text \<open>\<open>{key: item for item in targets}\<close> read back in key order: the last item of each key.\<close>

definition unique_targets :: "json list \<Rightarrow> json list" where
  "unique_targets ts = map (\<lambda>k. last (filter (\<lambda>t. target_key_of t = k) ts)) (sort (remdups (map target_key_of ts)))"

definition resolve_asset_targets ::
    "pylib \<Rightarrow> 'd resolver \<Rightarrow> int \<Rightarrow> context_db \<Rightarrow> string \<Rightarrow> ('d netops, json list) prog" where
  "resolve_asset_targets L R identity_age ctx asset_key = (case find_asset ctx asset_key of
     None \<Rightarrow> raise (ValueError ''asset is absent or provisional'')
   | Some asset \<Rightarrow>
       if as_provisional asset \<or> lower (as_status asset) = ''retired''
       then raise (ValueError ''asset is absent or provisional'')
       else if has_collision ctx (as_id asset) then raise (ValueError ''asset has an open identity collision'')
       else if ambiguous_attachment ctx (as_id asset)
       then raise (ValueError ''asset attachment is ambiguous or unresolved'')
       else bind (resolve_rows L R identity_age ctx (as_id asset) [] (current_rows ctx (as_id asset))) (\<lambda>targets.
         if targets = [] then raise (ValueError ''asset has no current IPv4 observation'')
         else ret (unique_targets targets)))"

section \<open>The basis of a plan\<close>

definition asset_json :: "asset_row \<Rightarrow> json" where
  "asset_json a = JObj [(''id'', JInt (as_id a)), (''asset_key'', JStr (as_key a)),
     (''provisional'', JInt (if as_provisional a then 1 else 0)), (''status'', JStr (as_status a)),
     (''updated_at'', JStr (as_updated_at a))]"

definition interface_json :: "interface_row \<Rightarrow> json" where
  "interface_json i = JObj [(''id'', JInt (if_id i)), (''mac'', opt_text (if_mac i)),
     (''lifecycle'', JStr (if_lifecycle i)), (''first_seen_at'', JStr (if_first_seen_at i)),
     (''last_seen_at'', JStr (if_last_seen_at i))]"

definition observation_json :: "ip_row \<Rightarrow> json" where
  "observation_json ob = JObj [(''id'', JInt (ob_id ob)), (''asset_interface_id'', opt_int (ob_interface_id ob)),
     (''source_id'', opt_int (ob_source_id ob)), (''ip'', JStr (ob_ip ob)),
     (''first_seen_at'', JStr (ob_first_seen_at ob)), (''last_seen_at'', JStr (ob_last_seen_at ob)),
     (''is_current'', JInt (if ob_is_current ob then 1 else 0))]"

definition source_json :: "source_row \<Rightarrow> json" where
  "source_json so = JObj [(''id'', JInt (so_id so)), (''name'', JStr (so_name so)), (''site'', opt_text (so_site so)),
     (''last_collect_at'', opt_text (so_last_collect_at so)), (''last_status'', opt_text (so_last_status so)),
     (''updated_at'', JStr (so_updated_at so))]"

definition attachment_json :: "attachment_row \<Rightarrow> json" where
  "attachment_json r = JObj [(''asset_interface_id'', JInt (at_interface_id r)), (''asset_id'', JInt (at_asset_id r)),
     (''status'', JStr (at_status r)), (''selected_source_id'', opt_int (at_source_id r)),
     (''selected_port_key'', JStr (at_port_key r)), (''selected_vlan_key'', JStr (at_vlan_key r)),
     (''selected_vlan_id'', opt_int (at_vlan_id r)), (''correlation_run_id'', JInt (at_correlation_run_id r)),
     (''last_seen_at'', JStr (at_last_seen_at r))]"

definition head_items :: "context_db \<Rightarrow> json list" where
  "head_items ctx = concat (map (\<lambda>h. map (\<lambda>r. JObj [(''context_id'', JStr (he_context_id h)),
       (''context_revision_id'', JInt (he_revision_id h)), (''sha256'', JStr (rv_sha256 r))])
     (filter (\<lambda>r. rv_id r = he_revision_id h) (c_revisions ctx))) (sort_key he_context_id (c_heads ctx)))"

definition plan_basis :: "context_db \<Rightarrow> asset_row \<Rightarrow> json list \<Rightarrow> json" where
  "plan_basis ctx asset targets =
     (let observations = sort_key ob_id (filter (\<lambda>ob. ob_asset_id ob = as_id asset \<and> ob_is_current ob) (c_observations ctx));
          sources = sort_key so_id (filter (\<lambda>so. Some (so_id so) \<in> set (map ob_source_id observations)) (c_sources ctx)) in
      JObj
       [(''basis_version'', JInt 1),
        (''context_heads'', JList (head_items ctx)),
        (''asset'', asset_json asset),
        (''interfaces'', JList (map interface_json (sort_key if_id (filter (\<lambda>i. if_asset_id i = as_id asset) (c_interfaces ctx))))),
        (''ip_observations'', JList (map observation_json observations)),
        (''source_health'', JList (map source_json sources)),
        (''attachments'', JList (map attachment_json (sort_key at_interface_id
            (filter (\<lambda>r. at_asset_id r = as_id asset) (c_attachments ctx))))),
        (''enforcement'', JList (map (\<lambda>t. JObj [(''source'', get t ''source''), (''site'', get t ''site''),
            (''address_list'', get t ''address_list'')]) targets)),
        (''firewall_anchors'', JList (map (\<lambda>t. JObj [(''source'', get t ''source''),
            (''fingerprint'', get t ''anchor_fingerprint'')]) targets))])"

definition asset_plan_basis ::
    "pylib \<Rightarrow> 'd resolver \<Rightarrow> int \<Rightarrow> context_db \<Rightarrow> string \<Rightarrow> ('d netops, json list \<times> json) prog" where
  "asset_plan_basis L R identity_age ctx asset_key =
     bind (resolve_asset_targets L R identity_age ctx asset_key) (\<lambda>targets.
       case find_asset ctx asset_key of
         None \<Rightarrow> raise (ValueError ''asset is absent or provisional'')
       | Some asset \<Rightarrow> ret (targets, plan_basis ctx asset targets))"

definition BASIS_DIMENSIONS :: "(string \<times> string) list" where
  "BASIS_DIMENSIONS =
     [(''context_heads'', ''context_head''), (''asset'', ''asset''), (''interfaces'', ''asset_interfaces''),
      (''ip_observations'', ''ip_observations''), (''source_health'', ''source_health''),
      (''attachments'', ''attachment_resolution''), (''enforcement'', ''enforcement_point''),
      (''firewall_anchors'', ''firewall_anchor_fingerprint'')]"

definition basis_changes :: "json \<Rightarrow> json \<Rightarrow> string list" where
  "basis_changes planned current =
     map snd (filter (\<lambda>(key, name). \<not> py_eq (get planned key) (get current key)) BASIS_DIMENSIONS)"

section \<open>Creating plans\<close>

definition step_request :: "string \<Rightarrow> string \<Rightarrow> json \<Rightarrow> json" where
  "step_request policy_key asset_key item = JObj
     [(''address'', get item ''address''), (''asset_key'', JStr asset_key), (''policy_key'', JStr policy_key)]"

definition forward_operation :: "string \<Rightarrow> string" where
  "forward_operation desired_state =
     (if desired_state = ''deny'' then ''ensure_address_list_entry'' else ''remove_address_list_entry'')"

definition rollback_operation :: "string \<Rightarrow> string" where
  "rollback_operation desired_state =
     (if desired_state = ''deny'' then ''remove_address_list_entry'' else ''ensure_address_list_entry'')"

definition rollback_document :: "string \<Rightarrow> string \<Rightarrow> string \<Rightarrow> json list \<Rightarrow> json" where
  "rollback_document desired_state policy_key asset_key targets = JObj [(''steps'', JList (map (\<lambda>item. JObj
     [(''adapter'', JStr ''mikrotik''), (''operation'', JStr (rollback_operation desired_state)),
      (''target_key'', get item ''source''), (''request'', step_request policy_key asset_key item)]) targets))]"

text \<open>The part shared by both kinds of subject: store the plan, then one step per target.\<close>

definition store_access_plan ::
    "pylib \<Rightarrow> string \<Rightarrow> string \<Rightarrow> string \<Rightarrow> string \<Rightarrow> string \<Rightarrow> string \<Rightarrow> json \<Rightarrow> string \<Rightarrow> string \<Rightarrow> json list \<Rightarrow> json \<Rightarrow> int \<Rightarrow>
     ('d netops, json) prog" where
  "store_access_plan L plan_key actor reason subject_type subject_key desired_state desired_json policy_key asset_key targets basis ttl =
     bind (create_change_plan L \<lparr>ar_plan_key = plan_key, ar_actor = actor, ar_reason = reason,
        ar_subject_type = subject_type, ar_subject_key = subject_key, ar_operation_type = ''internet_access_set'',
        ar_desired_state = desired_json, ar_resolved_targets = JList targets,
        ar_context_evidence_hash = removeprefix (canonical_sha256 L basis) ''sha256:'',
        ar_precheck = JObj [(''anchor'', JStr ''validated''), (''plan_ttl_seconds'', JInt ttl)],
        ar_rollback = rollback_document desired_state policy_key asset_key targets, ar_plan_basis = basis\<rparr>) (\<lambda>plan.
     seq (foldM (\<lambda>u item. seq (add_plan_step plan_key ''mikrotik'' (forward_operation desired_state)
            (str_value (get item ''source'')) (step_request policy_key asset_key item)) (ret ())) () targets)
       (ret plan))"

definition snapshot_error :: "exn \<Rightarrow> exn" where
  "snapshot_error e = (if is_sqlite_Error e then ContextSnapshotUnavailable ''context snapshot is unavailable'' else e)"

definition create_asset_internet_access_plan ::
    "pylib \<Rightarrow> snapshot \<Rightarrow> 'd resolver \<Rightarrow> int \<Rightarrow> int \<Rightarrow> string \<Rightarrow> string \<Rightarrow> string \<Rightarrow> string \<Rightarrow> string \<Rightarrow> ('d netops, json) prog" where
  "create_asset_internet_access_plan L snap R ttl identity_age plan_key actor asset_key desired_state reason =
     (if desired_state \<notin> {''allow'', ''deny''} then raise (ValueError ''unknown desired state'')
      else seq (lift (validate_security_thresholds ttl identity_age))
       (bind (catch (bind (read_context_snapshot snap) (\<lambda>ctx. asset_plan_basis L R identity_age ctx asset_key))
          (\<lambda>e. raise (snapshot_error e))) (\<lambda>(targets, basis).
        bind (lift (internet_policy_key L ''asset'' asset_key ''all-sites'')) (\<lambda>policy_key.
        store_access_plan L plan_key actor reason ''asset'' asset_key desired_state
          (JObj [(''internet_access'', JStr desired_state), (''policy_key'', JStr policy_key)])
          policy_key asset_key targets basis ttl))))"

definition create_user_internet_access_plan ::
    "pylib \<Rightarrow> snapshot \<Rightarrow> 'd resolver \<Rightarrow> int \<Rightarrow> int \<Rightarrow> string \<Rightarrow> string \<Rightarrow> string \<Rightarrow> string \<Rightarrow> string \<Rightarrow> ('d netops, json) prog" where
  "create_user_internet_access_plan L snap R ttl identity_age plan_key actor user_key desired_state reason =
     (if desired_state \<notin> {''allow'', ''deny''} then raise (ValueError ''unknown desired state'')
      else seq (lift (validate_security_thresholds ttl identity_age))
       (bind (catch (bind (read_context_snapshot snap) (\<lambda>ctx.
            bind (resolve_policy_asset_for_user L ctx user_key) (\<lambda>resolved. case resolved of
              None \<Rightarrow> raise (ValueError ''user has no eligible confirmed primary asset'')
            | Some asset_key \<Rightarrow> bind (asset_plan_basis L R identity_age ctx asset_key) (\<lambda>(targets, basis).
                ret (asset_key, targets, set_field basis ''user_policy_binding''
                  (JObj [(''user_key'', JStr user_key), (''asset_key'', JStr asset_key)]))))))
          (\<lambda>e. raise (snapshot_error e))) (\<lambda>(asset_key, targets, basis).
        bind (lift (internet_policy_key L ''user'' user_key ''all-sites'')) (\<lambda>policy_key.
        store_access_plan L plan_key actor reason ''user'' user_key desired_state
          (JObj [(''internet_access'', JStr desired_state), (''resolved_enforcement_asset_key'', JStr asset_key),
            (''policy_key'', JStr policy_key)])
          policy_key asset_key targets basis ttl))))"

section \<open>Preconditions of an approved plan\<close>

text \<open>The outcome of reading the age of the plan: a finding, or none.\<close>

definition age_finding :: "pylib \<Rightarrow> plan_row \<Rightarrow> int \<Rightarrow> ('d netops, string list) prog" where
  "age_finding L plan ttl = (case fromiso L (replace_Z (pl_created_at plan)) of
     Some (Aware created) \<Rightarrow> bind (read_clock L) (\<lambda>now.
       let age = now - created in
       ret (if age < 0 \<or> ttl * second < age then [''plan_expired''] else []))
   | _ \<Rightarrow> ret [''plan_created_at''])"

definition current_basis ::
    "pylib \<Rightarrow> snapshot \<Rightarrow> 'd resolver \<Rightarrow> int \<Rightarrow> plan_row \<Rightarrow> string \<Rightarrow> ('d netops, json list \<times> json \<times> json) prog" where
  "current_basis L snap R identity_age plan asset_key = bind (read_context_snapshot snap) (\<lambda>ctx.
     bind (asset_plan_basis L R identity_age ctx asset_key) (\<lambda>(targets, basis).
       if pl_subject_type plan = ''user'' then
         bind (resolve_policy_asset_for_user L ctx (pl_subject_key plan)) (\<lambda>resolved.
           ret (targets, basis, case resolved of None \<Rightarrow> JNull
             | Some a \<Rightarrow> JObj [(''user_key'', JStr (pl_subject_key plan)), (''asset_key'', JStr a)]))
       else ret (targets, basis, JNull)))"

definition compare_basis ::
    "pylib \<Rightarrow> plan_row \<Rightarrow> json list \<Rightarrow> json \<Rightarrow> json \<Rightarrow> string list res" where
  "compare_basis L plan targets basis binding = (case loads (pl_plan_basis_json plan) of
     Inl e \<Rightarrow> Inr [''plan_basis'']
   | Inr planned \<Rightarrow>
       if pl_plan_basis_hash plan \<noteq> canonical_sha256 L planned then Inr [''plan_basis'']
       else if \<not> is_dict planned then Inl AttributeError
       else if pl_subject_type plan = ''user'' \<and> \<not> py_eq (get planned ''user_policy_binding'') binding
       then Inr [''user_policy_binding'']
       else if basis_changes planned basis \<noteq> [] then Inr (basis_changes planned basis)
       else rbind (loads (pl_resolved_targets_json plan)) (\<lambda>planned_targets.
         Inr (if py_eq (JList targets) planned_targets then [] else [''ip_observations''])))"

definition changed_plan_preconditions ::
    "pylib \<Rightarrow> snapshot \<Rightarrow> 'd resolver \<Rightarrow> int \<Rightarrow> int \<Rightarrow> plan_row \<Rightarrow> ('d netops, string list) prog" where
  "changed_plan_preconditions L snap R ttl identity_age plan =
     seq (lift (validate_security_thresholds ttl identity_age))
       (bind (age_finding L plan ttl) (\<lambda>aged. if aged \<noteq> [] then ret aged
        else bind (lift (loads (pl_desired_state_json plan))) (\<lambda>desired.
          bind (lift (get_attr desired ''resolved_enforcement_asset_key'')) (\<lambda>resolved.
          bind (attempt (current_basis L snap R identity_age plan (py_str L (py_or resolved (JStr (pl_subject_key plan)))))) (\<lambda>r.
          case r of
            Inl e \<Rightarrow> if is_sqlite_Error e then ret [''context_snapshot_unavailable'']
                     else if is_ValueError e then ret [exn_text e] else raise e
          | Inr (targets, basis, binding) \<Rightarrow> lift (compare_basis L plan targets basis binding))))))"

section \<open>Resolution for the reconciler\<close>

definition resolve_reconcile_asset :: "pylib \<Rightarrow> context_db \<Rightarrow> policy_row \<Rightarrow> ('d netops, string) prog" where
  "resolve_reconcile_asset L ctx policy =
     (if po_subject_type policy = ''asset'' then ret (po_subject_key policy)
      else if po_subject_type policy = ''user'' then
        bind (resolve_policy_asset_for_user L ctx (po_subject_key policy)) (\<lambda>resolved. case resolved of
          None \<Rightarrow> raise (ValueError ''user policy no longer has an eligible confirmed primary asset'')
        | Some a \<Rightarrow> ret a)
      else raise (ValueError ''unsupported desired policy subject''))"

definition resolve_for_reconcile ::
    "pylib \<Rightarrow> snapshot \<Rightarrow> 'd resolver \<Rightarrow> policy_row \<Rightarrow> ('d netops, string \<times> json list) prog" where
  "resolve_for_reconcile L snap R policy = bind (read_context_snapshot snap) (\<lambda>ctx.
     bind (resolve_reconcile_asset L ctx policy) (\<lambda>asset_key.
     bind (resolve_asset_targets L R DEFAULT_IDENTITY_OBSERVATION_MAX_AGE_SECONDS ctx asset_key) (\<lambda>targets.
     ret (asset_key, targets))))"

end
