(* ===== verification/Resolver_Correctness.thy ===== *)
theory Resolver_Correctness
  imports Policy_Resolver
begin

text \<open>
  What the resolver guarantees: its targets are exactly the current IPv4 addresses of an eligible asset,
  each fresh, unshared and behind a checked anchor; an approved plan passes its preconditions only while it
  is young and everything it was based on still holds; a created plan has one step per target and a rollback
  that inverts them. The resolver writes nothing but the plan.
\<close>

section \<open>Frames\<close>

text \<open>The clock only moves forward.\<close>

definition later :: "'d netops \<Rightarrow> 'd netops \<Rightarrow> bool" where
  "later s t \<longleftrightarrow> ticks s \<le> ticks t"

interpretation lt: frame "later :: 'd netops \<Rightarrow> 'd netops \<Rightarrow> bool"
  by unfold_locales (auto simp: later_def)

lemma later_clock [simp]: "confined later (read_clock L)" "confined later (utc_now L)"
  by (simp_all add: confined_def later_def read_clock_def)

lemma is_fresh_run:
  "is_fresh L v age s = (case fromiso L (replace_Z v) of None \<Rightarrow> (Inr False, s)
     | Some ob \<Rightarrow> (Inr (now_us L (ticks s) - stamp_utc ob \<le> age * second), s\<lparr>ticks := Suc (ticks s)\<rparr>))"
  by (simp add: is_fresh_def read_clock_def prog_simps split: option.split)

lemma frame_is_fresh [simp]:
  "confined later (is_fresh L v age)" "confined safe (is_fresh L v age)" "confined (same rest_locks) (is_fresh L v age)"
  unfolding is_fresh_def by (auto intro!: lt.frame_rules sf.frame_rules sm.frame_rules)

lemma frame_snapshot [simp]:
  "confined later (read_context_snapshot snap)" "confined safe (read_context_snapshot snap)"
  "confined (same rest_locks) (read_context_snapshot snap)"
  by (auto simp: confined_def later_def read_context_snapshot_def same_def rest_locks_def rest_def intro: safe_frameI)

lemma frame_user [simp]:
  "confined later (resolve_policy_asset_for_user L ctx u)" "confined safe (resolve_policy_asset_for_user L ctx u)"
  "confined (same rest_locks) (resolve_policy_asset_for_user L ctx u)"
  unfolding resolve_policy_asset_for_user_def by (auto intro!: lt.frame_rules sf.frame_rules sm.frame_rules)

text \<open>A resolver inherits every frame that holds of the clock, the snapshot and its anchor check.\<close>

locale resolver_frame = frame R0 for R0 :: "'d netops \<Rightarrow> 'd netops \<Rightarrow> bool" +
  fixes L :: pylib and R :: "'d resolver"
  assumes fresh: "confined R0 (is_fresh L v age)"
    and snapshot: "confined R0 (read_context_snapshot snap)"
    and user: "confined R0 (resolve_policy_asset_for_user L ctx u)"
    and clock: "confined R0 (read_clock L)"
    and anchor: "confined R0 (anchor_check R x)"
begin

lemma collection_healthy: "confined R0 (collection_healthy L R so)"
  unfolding collection_healthy_def by (intro frame_rules fresh)

lemma anchored_target: "confined R0 (anchored_target L R source address site)"
  unfolding anchored_target_def by (intro frame_rules anchor)

lemma resolve_row: "confined R0 (resolve_row L R age ctx i row)"
  unfolding resolve_row_def by (intro frame_rules fresh collection_healthy anchored_target)

lemma resolve_rows: "confined R0 (resolve_rows L R age ctx i acc rows)"
  unfolding resolve_rows_def by (intro frame_rules resolve_row)

lemma resolve_asset_targets: "confined R0 (resolve_asset_targets L R age ctx k)"
  unfolding resolve_asset_targets_def by (intro frame_rules resolve_rows)

lemma asset_plan_basis: "confined R0 (asset_plan_basis L R age ctx k)"
  unfolding asset_plan_basis_def by (intro frame_rules resolve_asset_targets)

lemma changed_plan_preconditions: "confined R0 (changed_plan_preconditions L snap R ttl age plan)"
  unfolding changed_plan_preconditions_def current_basis_def age_finding_def Let_def
  by (auto intro!: frame_rules snapshot user clock asset_plan_basis split: option.split stamp.split sum.split)

lemma resolve_for_reconcile: "confined R0 (resolve_for_reconcile L snap R policy)"
  unfolding resolve_for_reconcile_def resolve_reconcile_asset_def
  by (intro frame_rules snapshot user resolve_asset_targets)

end

text \<open>The plans and their steps, which resolving never writes.\<close>

definition tables :: "'d netops \<Rightarrow> plan_row list \<times> step_row list" where
  "tables s = (plans s, plan_steps s)"

lemma tables_resolver:
  assumes "\<And>x. confined (same tables) (anchor_check R x)"
  shows "resolver_frame (same tables) L R"
proof -
  have clock: "confined (same tables) (read_clock L)" and utc: "confined (same tables) (utc_now L)"
    by (simp_all add: confined_def same_def tables_def read_clock_def)
  have "confined (same tables) (is_fresh L v age)" for v age
    unfolding is_fresh_def by (intro sm.frame_rules clock)
  moreover have "confined (same tables) (resolve_policy_asset_for_user L ctx u)" for ctx u
    unfolding resolve_policy_asset_for_user_def by (intro sm.frame_rules utc)
  moreover have "confined (same tables) (read_context_snapshot snap)" for snap
    by (simp add: confined_def same_def tables_def read_context_snapshot_def)
  ultimately show ?thesis
    by (intro resolver_frame.intro sm.frame_axioms resolver_frame_axioms.intro) (simp_all add: assms clock)
qed

section \<open>Targets\<close>

text \<open>What a target says of the observation it comes from, with the clock readings between \<open>lo\<close> and \<open>hi\<close>.\<close>

definition seen_within :: "pylib \<Rightarrow> nat \<Rightarrow> nat \<Rightarrow> string \<Rightarrow> int \<Rightarrow> bool" where
  "seen_within L lo hi v age \<longleftrightarrow> (\<exists>ob k. fromiso L (replace_Z v) = Some ob \<and> lo \<le> k \<and> k < hi
     \<and> now_us L k - stamp_utc ob \<le> age * second)"

definition row_target ::
    "pylib \<Rightarrow> 'd resolver \<Rightarrow> int \<Rightarrow> context_db \<Rightarrow> int \<Rightarrow> nat \<Rightarrow> nat \<Rightarrow> ip_row \<times> source_row \<Rightarrow> json \<Rightarrow> bool" where
  "row_target L R age ctx i lo hi row x \<longleftrightarrow> (\<exists>a source fp al.
     x = target_item source (ip_text L a) (site_of (fst row) (snd row)) fp al
     \<and> ip_address L (JStr (ob_ip (fst row))) = Some a \<and> ip_version a = 4
     \<and> seen_within L lo hi (ob_last_seen_at (fst row)) age
     \<and> \<not> duplicate_ip ctx i (ip_text L a)
     \<and> map_of (enforcement_sources_by_site R) (site_of (fst row) (snd row)) = Some source \<and> source \<noteq> []
     \<and> opt_str (so_last_status (snd row)) \<in> {''ok'', ''success''}
     \<and> seen_within L lo hi (opt_str (so_last_collect_at (snd row))) (source_sla_seconds R))"

definition is_ipv4_row :: "pylib \<Rightarrow> ip_row \<times> source_row \<Rightarrow> bool" where
  "is_ipv4_row L row \<longleftrightarrow> (\<exists>a. ip_address L (JStr (ob_ip (fst row))) = Some a \<and> ip_version a = 4)"

lemma seen_within_mono: "seen_within L lo hi v age \<Longrightarrow> lo' \<le> lo \<Longrightarrow> hi \<le> hi' \<Longrightarrow> seen_within L lo' hi' v age"
  unfolding seen_within_def by (meson order.strict_trans2 order.trans)

lemma row_target_mono:
  "row_target L R age ctx i lo hi row x \<Longrightarrow> lo' \<le> lo \<Longrightarrow> hi \<le> hi' \<Longrightarrow> row_target L R age ctx i lo' hi' row x"
  unfolding row_target_def by (blast intro: seen_within_mono)

lemma is_fresh_True: "is_fresh L v age s = (Inr True, t) \<Longrightarrow> seen_within L (ticks s) (ticks t) v age"
  by (auto simp: is_fresh_run seen_within_def split: option.splits)

lemma opt_str_Some: "opt_str v \<noteq> [] \<Longrightarrow> v = Some (opt_str v)"
  by (cases v) (simp_all add: opt_str_def)

lemma later_resolver:
  assumes "\<And>x. confined later (anchor_check R x)"
  shows "resolver_frame later L R"
  by (intro resolver_frame.intro lt.frame_axioms resolver_frame_axioms.intro) (simp_all add: assms)

lemma anchored_target_Inr:
  "anchored_target L R source address site s = (Inr x, t) \<Longrightarrow> \<exists>fp al. x = target_item source address site fp al"
  by (auto simp: anchored_target_def bind_Inr Let_def raise_def ret_def split: if_splits)

lemma collection_healthy_True:
  assumes "collection_healthy L R so s = (Inr True, t)"
  shows "opt_str (so_last_status so) \<in> {''ok'', ''success''} \<and>
    seen_within L (ticks s) (ticks t) (opt_str (so_last_collect_at so)) (source_sla_seconds R)"
proof (cases "opt_str (so_last_status so) \<in> {''ok'', ''success''}")
  case True
  then have "is_fresh L (opt_str (so_last_collect_at so)) (source_sla_seconds R) s = (Inr True, t)"
    using assms unfolding collection_healthy_def by (simp only: if_True if_False not_True_eq_False)
  with True show ?thesis by (simp add: is_fresh_True)
next
  case False
  then have "collection_healthy L R so s = (Inr False, s)"
    unfolding collection_healthy_def by (simp only: if_True ret_def not_False_eq_True)
  with assms show ?thesis by simp
qed

lemma resolve_row_Inr:
  assumes anchor: "\<And>x. confined later (anchor_check R x)"
    and run: "resolve_row L R age ctx i row s = (Inr o', t)"
  shows "(\<not> is_ipv4_row L row \<and> o' = None) \<or> (\<exists>x. o' = Some x \<and> row_target L R age ctx i (ticks s) (ticks t) row x)"
proof (cases "is_ipv4_row L row")
  case False
  have "o' = None"
  proof (cases "ip_address L (JStr (ob_ip (fst row)))")
    case None
    with run show ?thesis by (simp add: resolve_row_def Let_def ret_def)
  next
    case (Some a)
    with False have "ip_version a \<noteq> 4" by (auto simp: is_ipv4_row_def)
    with run Some show ?thesis by (simp add: resolve_row_def Let_def ret_def)
  qed
  with False show ?thesis by simp
next
  case True
  obtain ob so where row: "row = (ob, so)" by (cases row)
  from True obtain a where a: "ip_address L (JStr (ob_ip ob)) = Some a" "ip_version a = 4" by (auto simp: is_ipv4_row_def row)
  let ?site = "site_of ob so"
  let ?source = "opt_str (map_of (enforcement_sources_by_site R) ?site)"
  from run obtain seen s1 where s1: "is_fresh L (ob_last_seen_at ob) age s = (Inr seen, s1)"
      and r1: "(if \<not> seen then raise (ValueError ''current IP observation is stale'')
          else if duplicate_ip ctx i (ip_text L a) then raise (ValueError ''duplicate current IP is bound to another asset'')
          else if ?site = [] \<or> ?source = [] then raise (ValueError ''current IP has unresolved enforcement point'')
            else bind (collection_healthy L R so) (\<lambda>collected.
              if \<not> collected then raise (ValueError ''source collection is stale or failed'')
              else bind (anchored_target L R ?source (ip_text L a) ?site) (\<lambda>target. ret (Some target)))) s1 = (Inr o', t)"
    unfolding resolve_row_def row Let_def fst_conv snd_conv a option.case
    by (simp only: a(2) not_True_eq_False if_False simp_thms bind_Inr) blast
  have ok: "seen" "\<not> duplicate_ip ctx i (ip_text L a)" "?site \<noteq> []" "?source \<noteq> []"
    using r1 by (auto simp: raise_def split: if_splits)
  obtain collected s2 where s2: "collection_healthy L R so s1 = (Inr collected, s2)"
      and r2: "(if \<not> collected then raise (ValueError ''source collection is stale or failed'')
              else bind (anchored_target L R ?source (ip_text L a) ?site) (\<lambda>target. ret (Some target))) s2 = (Inr o', t)"
    using r1 ok by (simp add: bind_Inr) blast
  have col: "collected" using r2 by (auto simp: raise_def split: if_splits)
  obtain x where x: "anchored_target L R ?source (ip_text L a) ?site s2 = (Inr x, t)" "o' = Some x"
    using r2 col by (auto simp: bind_Inr ret_def)
  note R = later_resolver [OF anchor]
  have le: "ticks s \<le> ticks s1" "ticks s1 \<le> ticks s2" "ticks s2 \<le> ticks t"
    using confinedD [OF frame_is_fresh(1) s1] confinedD [OF resolver_frame.collection_healthy [OF R] s2]
      confinedD [OF resolver_frame.anchored_target [OF R] x(1)]
    by (simp_all add: later_def)
  have "seen_within L (ticks s) (ticks t) (ob_last_seen_at ob) age"
    using seen_within_mono [OF is_fresh_True] s1 ok(1) le by (metis (full_types) order.refl order.trans)
  moreover have "opt_str (so_last_status so) \<in> {''ok'', ''success''}"
      "seen_within L (ticks s) (ticks t) (opt_str (so_last_collect_at so)) (source_sla_seconds R)"
    using collection_healthy_True [of L R so s1 s2] s2 col le seen_within_mono by auto
  moreover have "map_of (enforcement_sources_by_site R) ?site = Some ?source" by (rule opt_str_Some [OF ok(4)])
  ultimately have "row_target L R age ctx i (ticks s) (ticks t) row x"
    unfolding row_target_def row fst_conv snd_conv using a ok anchored_target_Inr [OF x(1)] by blast
  with x(2) show ?thesis by simp
qed

lemma resolve_rows_sound:
  assumes anchor: "\<And>x. confined later (anchor_check R x)"
    and run: "resolve_rows L R age ctx i acc rows s = (Inr out, t)"
  shows "\<exists>ts. out = acc @ ts
    \<and> (\<forall>x \<in> set ts. \<exists>row \<in> set rows. row_target L R age ctx i (ticks s) (ticks t) row x)
    \<and> (\<forall>row \<in> set rows. is_ipv4_row L row \<longrightarrow> (\<exists>x \<in> set ts. row_target L R age ctx i (ticks s) (ticks t) row x))"
  using run
proof (induction rows arbitrary: acc s)
  case Nil
  then show ?case by (simp add: resolve_rows_def ret_def)
next
  case (Cons row rows)
  from Cons.prems obtain o' s1 where s1: "resolve_row L R age ctx i row s = (Inr o', s1)"
    and rest: "resolve_rows L R age ctx i (case o' of None \<Rightarrow> acc | Some x \<Rightarrow> acc @ [x]) rows s1 = (Inr out, t)"
    by (auto simp: resolve_rows_def bind_Inr ret_def)
  have le: "ticks s \<le> ticks s1" "ticks s1 \<le> ticks t"
    using confinedD [OF resolver_frame.resolve_row [OF later_resolver [OF anchor]] s1]
      confinedD [OF resolver_frame.resolve_rows [OF later_resolver [OF anchor]] rest]
    by (simp_all add: later_def)
  obtain ts where out: "out = (case o' of None \<Rightarrow> acc | Some x \<Rightarrow> acc @ [x]) @ ts"
    and from_rows: "\<And>x. x \<in> set ts \<Longrightarrow> \<exists>row \<in> set rows. row_target L R age ctx i (ticks s1) (ticks t) row x"
    and all_rows: "\<And>row. row \<in> set rows \<Longrightarrow> is_ipv4_row L row \<Longrightarrow>
      \<exists>x \<in> set ts. row_target L R age ctx i (ticks s1) (ticks t) row x"
    using Cons.IH [OF rest] by blast
  have widen: "row_target L R age ctx i (ticks s) (ticks t) r x" if "row_target L R age ctx i (ticks s1) (ticks t) r x" for r x
    using row_target_mono [OF that le(1)] by simp
  show ?case
  proof (cases o')
    case None
    with resolve_row_Inr [OF anchor s1] have "\<not> is_ipv4_row L row" by simp
    have f: "\<exists>r \<in> set (row # rows). row_target L R age ctx i (ticks s) (ticks t) r y" if "y \<in> set ts" for y
      using from_rows [OF that] widen by auto
    have a: "\<exists>y \<in> set ts. row_target L R age ctx i (ticks s) (ticks t) r y"
      if "r \<in> set (row # rows)" "is_ipv4_row L r" for r
    proof -
      have "r \<in> set rows" using that \<open>\<not> is_ipv4_row L row\<close> by auto
      from all_rows [OF this that(2)] widen show ?thesis by blast
    qed
    from out None have "out = acc @ ts" by simp
    with f a show ?thesis by blast
  next
    case (Some x)
    have x: "row_target L R age ctx i (ticks s) (ticks t) row x"
      using resolve_row_Inr [OF anchor s1] Some le(2)
        row_target_mono [of L R age ctx i "ticks s" "ticks s1" row x "ticks s" "ticks t"] by simp
    have f: "\<exists>r \<in> set (row # rows). row_target L R age ctx i (ticks s) (ticks t) r y" if "y \<in> set (x # ts)" for y
    proof (cases "y = x")
      case True
      with x show ?thesis by auto
    next
      case False
      with that have "y \<in> set ts" by simp
      from from_rows [OF this] widen show ?thesis by (meson list.set_intros(2))
    qed
    have a: "\<exists>y \<in> set (x # ts). row_target L R age ctx i (ticks s) (ticks t) r y"
      if "r \<in> set (row # rows)" "is_ipv4_row L r" for r
    proof (cases "r = row")
      case True
      with x show ?thesis by auto
    next
      case False
      with that have "r \<in> set rows" by simp
      from all_rows [OF this that(2)] widen show ?thesis by (meson list.set_intros(2))
    qed
    from out Some have "out = acc @ (x # ts)" by simp
    with f a show ?thesis by blast
  qed
qed

lemma unique_targets_set:
  assumes "x \<in> set (unique_targets ts)"
  shows "x \<in> set ts"
proof -
  from assms obtain k where "k \<in> set (map target_key_of ts)" "x = last (filter (\<lambda>t. target_key_of t = k) ts)"
    by (auto simp: unique_targets_def)
  moreover then have "filter (\<lambda>t. target_key_of t = k) ts \<noteq> []" by (auto simp: filter_empty_conv)
  ultimately have "x \<in> set (filter (\<lambda>t. target_key_of t = k) ts)" using last_in_set by blast
  then show ?thesis by simp
qed

lemma unique_targets_keys: "map target_key_of (unique_targets ts) = sort (remdups (map target_key_of ts))"
proof -
  have "target_key_of (last (filter (\<lambda>t. target_key_of t = k) ts)) = k" if "k \<in> target_key_of ` set ts" for k
  proof -
    have "filter (\<lambda>t. target_key_of t = k) ts \<noteq> []" using that by (auto simp: filter_empty_conv)
    then have "last (filter (\<lambda>t. target_key_of t = k) ts) \<in> set (filter (\<lambda>t. target_key_of t = k) ts)"
      by (rule last_in_set)
    then show ?thesis by simp
  qed
  then show ?thesis unfolding unique_targets_def map_map comp_def by (intro map_idI) simp
qed

lemma unique_targets_complete:
  assumes "x \<in> set ts"
  shows "\<exists>y \<in> set (unique_targets ts). target_key_of y = target_key_of x"
proof -
  have "target_key_of x \<in> set (map target_key_of (unique_targets ts))"
    unfolding unique_targets_keys using assms by simp
  then show ?thesis by auto
qed

lemma target_key_item [simp]: "target_key_of (target_item s a si fp al) = (s, a, si)"
  by (simp add: target_key_of_def target_item_def get_default_def)

text \<open>C9: The targets of an asset. When resolution succeeds, the asset exists, is neither provisional nor
  retired, has no open identity collision and no ambiguous attachment. Every target comes from a current
  observation of that asset: an IPv4 address seen recently enough, held by no other asset, at a site with an
  enforcement source, from a source whose last collection succeeded recently enough. Conversely, every current
  IPv4 observation of the asset has its address among the targets: none is silently left out. The targets are
  in strictly increasing key order, so there are no duplicates, and there is at least one.\<close>

theorem resolve_asset_targets_exact:
  assumes anchor: "\<And>x. confined later (anchor_check R x)"
    and run: "resolve_asset_targets L R age ctx asset_key s = (Inr targets, t)"
  shows "\<exists>asset. find_asset ctx asset_key = Some asset \<and> \<not> as_provisional asset \<and> lower (as_status asset) \<noteq> ''retired''
    \<and> \<not> has_collision ctx (as_id asset) \<and> \<not> ambiguous_attachment ctx (as_id asset)
    \<and> targets \<noteq> [] \<and> sorted_wrt (<) (map target_key_of targets)
    \<and> (\<forall>x \<in> set targets. \<exists>row \<in> set (current_rows ctx (as_id asset)).
          row_target L R age ctx (as_id asset) (ticks s) (ticks t) row x)
    \<and> (\<forall>row \<in> set (current_rows ctx (as_id asset)). \<forall>a. ip_address L (JStr (ob_ip (fst row))) = Some a \<and> ip_version a = 4
          \<longrightarrow> (\<exists>x \<in> set targets. get x ''address'' = JStr (ip_text L a)))"
proof -
  from run obtain asset raw where asset: "find_asset ctx asset_key = Some asset" "\<not> as_provisional asset"
      "lower (as_status asset) \<noteq> ''retired''" "\<not> has_collision ctx (as_id asset)" "\<not> ambiguous_attachment ctx (as_id asset)"
    and raw: "resolve_rows L R age ctx (as_id asset) [] (current_rows ctx (as_id asset)) s = (Inr raw, t)"
    and targets: "raw \<noteq> []" "targets = unique_targets raw"
    by (auto simp: resolve_asset_targets_def bind_Inr raise_def ret_def split: option.splits if_splits)
  let ?T = "row_target L R age ctx (as_id asset) (ticks s) (ticks t)"
  from resolve_rows_sound [OF anchor raw]
  have sound: "\<And>x. x \<in> set raw \<Longrightarrow> \<exists>row \<in> set (current_rows ctx (as_id asset)). ?T row x"
    and complete: "\<And>row. row \<in> set (current_rows ctx (as_id asset)) \<Longrightarrow> is_ipv4_row L row \<Longrightarrow> \<exists>x \<in> set raw. ?T row x"
    by simp_all
  have keys: "map target_key_of targets = sort (remdups (map target_key_of raw))"
    by (simp add: targets unique_targets_keys)
  have "sorted_wrt (<) (map target_key_of targets)"
    unfolding keys by (simp add: strict_sorted_iff)
  moreover have "set (map target_key_of targets) = set (map target_key_of raw)" unfolding keys by simp
  then have "targets \<noteq> []" using targets(1) by auto
  moreover have "\<exists>x \<in> set targets. get x ''address'' = JStr (ip_text L a)"
    if row: "row \<in> set (current_rows ctx (as_id asset))" and a: "ip_address L (JStr (ob_ip (fst row))) = Some a" "ip_version a = 4"
    for row a
  proof -
    from complete [OF row] a obtain x where x: "x \<in> set raw" "?T row x" by (auto simp: is_ipv4_row_def)
    then obtain source where kx: "target_key_of x = (source, ip_text L a, site_of (fst row) (snd row))"
      using a by (auto simp: row_target_def)
    from unique_targets_complete [OF x(1)] obtain y where y: "y \<in> set targets" "target_key_of y = target_key_of x"
      unfolding targets by blast
    from unique_targets_set y(1) sound obtain row' where "?T row' y" unfolding targets by blast
    then have "get y ''address'' = JStr (ip_text L a)"
      using y(2) kx by (auto simp: row_target_def target_item_def target_key_of_def get_default_def)
    with y(1) show ?thesis by blast
  qed
  ultimately show ?thesis
    using asset sound unique_targets_set unfolding targets(2) by (intro exI [of _ asset]) (simp add: Ball_def)
qed

section \<open>Preconditions\<close>

lemma basis_changes_Nil:
  "basis_changes planned current = [] \<longleftrightarrow> (\<forall>(key, name) \<in> set BASIS_DIMENSIONS. py_eq (get planned key) (get current key))"
  by (auto simp: basis_changes_def filter_empty_conv)

lemma compare_basis_Nil:
  assumes "compare_basis L plan targets basis binding = Inr []"
  shows "\<exists>planned planned_targets. loads (pl_plan_basis_json plan) = Inr planned \<and> is_dict planned
    \<and> pl_plan_basis_hash plan = canonical_sha256 L planned
    \<and> (pl_subject_type plan = ''user'' \<longrightarrow> py_eq (get planned ''user_policy_binding'') binding)
    \<and> (\<forall>(key, name) \<in> set BASIS_DIMENSIONS. py_eq (get planned key) (get basis key))
    \<and> loads (pl_resolved_targets_json plan) = Inr planned_targets \<and> py_eq (JList targets) planned_targets"
  using assms
  by (auto simp: compare_basis_def rbind_Inr_iff basis_changes_Nil split: sum.splits if_splits)

lemma age_finding_Nil:
  assumes "age_finding L plan ttl s = (Inr [], t)"
  shows "\<exists>created. fromiso L (replace_Z (pl_created_at plan)) = Some (Aware created)
    \<and> created \<le> now_us L (ticks s) \<and> now_us L (ticks s) \<le> created + ttl * second \<and> t = s\<lparr>ticks := Suc (ticks s)\<rparr>"
  using assms
  by (auto simp: age_finding_def bind_Inr ret_def read_clock_def Let_def split: option.splits stamp.splits if_splits)

definition user_binding :: "plan_row \<Rightarrow> string option \<Rightarrow> json" where
  "user_binding plan resolved = (case resolved of None \<Rightarrow> JNull
     | Some a \<Rightarrow> JObj [(''user_key'', JStr (pl_subject_key plan)), (''asset_key'', JStr a)])"

lemma current_basis_Inr:
  assumes "current_basis L snap R age plan k s = (Inr (targets, basis, binding), t)"
  shows "\<exists>ctx s1 s2. snap (snapshots s) = Inr ctx \<and> asset_plan_basis L R age ctx k s1 = (Inr (targets, basis), s2)
    \<and> (pl_subject_type plan = ''user'' \<longrightarrow> (\<exists>resolved.
        resolve_policy_asset_for_user L ctx (pl_subject_key plan) s2 = (Inr resolved, t) \<and> binding = user_binding plan resolved))"
  using assms
  by (fastforce simp: current_basis_def bind_Inr read_context_snapshot_def ret_def user_binding_def split: if_splits)

text \<open>C10: The preflight of a plan is not a formality. When it reports no changed precondition, the plan is at
  most its time to live old (and never from the future), which is at most fifteen minutes; the stored basis
  is the one that was hashed when the plan was made; and a new resolution of the same asset, on the snapshot
  opened now, gives the same targets and agrees with the stored basis on every dimension: context heads,
  asset, interfaces, observations, source health, attachments, enforcement points and firewall anchors. For
  a user the binding to that asset still holds too.\<close>

theorem preconditions_hold:
  assumes "changed_plan_preconditions L snap R ttl age plan s = (Inr [], t)"
  shows "\<exists>created planned planned_targets ctx targets basis asset_key s1 s2.
    fromiso L (replace_Z (pl_created_at plan)) = Some (Aware created)
    \<and> created \<le> now_us L (ticks s) \<and> now_us L (ticks s) \<le> created + ttl * second \<and> 0 < ttl \<and> ttl \<le> 900
    \<and> loads (pl_plan_basis_json plan) = Inr planned \<and> pl_plan_basis_hash plan = canonical_sha256 L planned
    \<and> snap (snapshots s) = Inr ctx \<and> asset_plan_basis L R age ctx asset_key s1 = (Inr (targets, basis), s2)
    \<and> (\<forall>(key, name) \<in> set BASIS_DIMENSIONS. py_eq (get planned key) (get basis key))
    \<and> loads (pl_resolved_targets_json plan) = Inr planned_targets \<and> py_eq (JList targets) planned_targets
    \<and> (pl_subject_type plan = ''user'' \<longrightarrow> (\<exists>resolved. fst (resolve_policy_asset_for_user L ctx (pl_subject_key plan) s2) = Inr resolved
        \<and> py_eq (get planned ''user_policy_binding'') (user_binding plan resolved)))"
proof -
  obtain s1 where th: "validate_security_thresholds ttl age = Inr ()"
      and s1: "age_finding L plan ttl s = (Inr [], s1)"
      and r1: "bind (lift (loads (pl_desired_state_json plan))) (\<lambda>desired.
          bind (lift (get_attr desired ''resolved_enforcement_asset_key'')) (\<lambda>resolved.
          bind (attempt (current_basis L snap R age plan (py_str L (py_or resolved (JStr (pl_subject_key plan)))))) (\<lambda>r.
          case r of
            Inl e \<Rightarrow> if is_sqlite_Error e then ret [''context_snapshot_unavailable'']
                     else if is_ValueError e then ret [exn_text e] else raise e
          | Inr (targets, basis, binding) \<Rightarrow> lift (compare_basis L plan targets basis binding)))) s1 = (Inr [], t)"
    using assms by (auto simp: changed_plan_preconditions_def seq_Inr bind_Inr lift_def ret_def split: if_splits)
  from r1 obtain k r s2 where s2: "current_basis L snap R age plan k s1 = (r, s2)"
      and r2: "(case r of Inl e \<Rightarrow> if is_sqlite_Error e then ret [''context_snapshot_unavailable'']
                     else if is_ValueError e then ret [exn_text e] else raise e
          | Inr (targets, basis, binding) \<Rightarrow> lift (compare_basis L plan targets basis binding)) s2 = (Inr [], t)"
    by (auto simp: bind_Inr lift_def attempt_Inr)
  from r2 obtain targets basis binding where r: "r = Inr (targets, basis, binding)"
      and cmp: "compare_basis L plan targets basis binding = Inr []" "t = s2"
    by (cases r) (auto simp: ret_def raise_def lift_def split: if_splits)
  from age_finding_Nil [OF s1] obtain created where created: "fromiso L (replace_Z (pl_created_at plan)) = Some (Aware created)"
      "created \<le> now_us L (ticks s)" "now_us L (ticks s) \<le> created + ttl * second" "snapshots s1 = snapshots s"
    by auto
  have ttl: "0 < ttl" "ttl \<le> 900"
    using th by (auto simp: validate_security_thresholds_def MAX_PLAN_TTL_SECONDS_def split: if_splits)
  from current_basis_Inr [OF s2 [unfolded r]] created(4) obtain ctx u1 u2 where ctx: "snap (snapshots s) = Inr ctx"
      "asset_plan_basis L R age ctx k u1 = (Inr (targets, basis), u2)"
      "pl_subject_type plan = ''user'' \<longrightarrow> (\<exists>resolved. fst (resolve_policy_asset_for_user L ctx (pl_subject_key plan) u2) = Inr resolved
         \<and> binding = user_binding plan resolved)"
    by fastforce
  from compare_basis_Nil [OF cmp(1)] obtain planned pt where planned: "loads (pl_plan_basis_json plan) = Inr planned"
      "pl_plan_basis_hash plan = canonical_sha256 L planned"
      "pl_subject_type plan = ''user'' \<longrightarrow> py_eq (get planned ''user_policy_binding'') binding"
      "\<forall>(key, name) \<in> set BASIS_DIMENSIONS. py_eq (get planned key) (get basis key)"
      "loads (pl_resolved_targets_json plan) = Inr pt" "py_eq (JList targets) pt"
    by blast
  have "pl_subject_type plan = ''user'' \<longrightarrow> (\<exists>resolved. fst (resolve_policy_asset_for_user L ctx (pl_subject_key plan) u2) = Inr resolved
        \<and> py_eq (get planned ''user_policy_binding'') (user_binding plan resolved))"
    using ctx(3) planned(3) by auto
  with created ttl ctx(1,2) planned show ?thesis
    by (intro exI [of _ created] exI [of _ planned] exI [of _ pt] exI [of _ ctx] exI [of _ targets] exI [of _ basis]
        exI [of _ k] exI [of _ u1] exI [of _ u2] conjI) assumption+
qed

section \<open>Created plans\<close>

lemma create_change_plan_Inr:
  assumes "create_change_plan L a s = (Inr j, t)"
  shows "\<exists>now i. i = next_id (map pl_id (plans s)) \<and> ar_plan_key a \<notin> pl_key ` set (plans s)
    \<and> t = s\<lparr>ticks := Suc (ticks s), plans := plans s @ [(new_plan_row L a now)\<lparr>pl_id := i\<rparr>]\<rparr>"
  using assms
  by (auto simp: create_change_plan_def insert_plan_def bind_Inr gets_def raise_def lift_def Let_def new_plan_row_def
      split: if_splits option.splits)

lemma add_plan_step_run:
  assumes "find_plan (plans s) k = Some p" and "unfrozen (pl_status p)"
  shows "\<exists>st i. add_plan_step k a o' tk rq s = (Inr st, s\<lparr>plan_steps := plan_steps s @ [st]\<rparr>)
    \<and> st = \<lparr>st_id = i, st_plan_id = pl_id p, st_order = next_step_order (filter (\<lambda>x. st_plan_id x = pl_id p) (plan_steps s)),
        st_adapter = a, st_operation = o', st_target_key = tk, st_request_json = Doc rq, st_result_json = Doc (JObj []),
        st_status = SPending\<rparr>"
  using assms by (simp add: add_plan_step_def plan_row_of_run bind_def gets_def insert_step_def Let_def)

definition step_view :: "step_row \<Rightarrow> string \<times> string \<times> json \<times> step_status" where
  "step_view st = (st_operation st, st_target_key st, loads_or_dict (st_request_json st), st_status st)"

lemma find_snoc: "\<forall>y \<in> set xs. \<not> P y \<Longrightarrow> find P (xs @ [x]) = (if P x then Some x else None)"
  by (induction xs) auto

lemma foldr_max_bound: "\<forall>x \<in> set xs. x \<le> (b :: int) \<Longrightarrow> foldr max xs b = b"
  by (induction xs) auto

lemma next_step_order_upt: "map st_order sts = map int [0..<n] \<Longrightarrow> next_step_order sts = int n"
  by (cases n) (simp_all add: next_step_order_def foldr_max_bound)

text \<open>Adding the steps of the targets: one per target, in order, numbered from zero.\<close>

lemma add_steps_run:
  fixes k operation req
  defines "add \<equiv> (\<lambda>u item. seq (add_plan_step k ''mikrotik'' operation (str_value (get item ''source'')) (req item)) (ret ()))"
  assumes "find_plan (plans s) k = Some p" and "unfrozen (pl_status p)"
    and "map st_order (filter (\<lambda>x. st_plan_id x = pl_id p) (plan_steps s)) = map int [0..<n]"
  shows "\<exists>t. foldM add () targets s = (Inr (), t) \<and> plans t = plans s
    \<and> map st_order (filter (\<lambda>x. st_plan_id x = pl_id p) (plan_steps t)) = map int [0..<n + length targets]
    \<and> map step_view (filter (\<lambda>x. st_plan_id x = pl_id p) (plan_steps t)) =
        map step_view (filter (\<lambda>x. st_plan_id x = pl_id p) (plan_steps s))
        @ map (\<lambda>item. (operation, str_value (get item ''source''), req item, SPending)) targets"
  using assms(2-)
proof (induction targets arbitrary: s n)
  case Nil
  then show ?case by (simp add: ret_def)
next
  case (Cons item targets)
  obtain st where run: "add_plan_step k ''mikrotik'' operation (str_value (get item ''source'')) (req item) s
        = (Inr st, s\<lparr>plan_steps := plan_steps s @ [st]\<rparr>)"
    and st: "st_plan_id st = pl_id p" "st_order st = int n"
      "step_view st = (operation, str_value (get item ''source''), req item, SPending)"
    using add_plan_step_run [OF Cons.prems(1,2), of "''mikrotik''" operation "str_value (get item ''source'')" "req item"]
    by (auto simp: next_step_order_upt [OF Cons.prems(3)] step_view_def)
  let ?s1 = "s\<lparr>plan_steps := plan_steps s @ [st]\<rparr>"
  have "add () item s = (Inr (), ?s1)" by (simp add: add_def seq_def bind_def run ret_def)
  moreover have "find_plan (plans ?s1) k = Some p" using Cons.prems(1) by simp
  from Cons.IH [OF this Cons.prems(2), of "Suc n"] obtain t where
    "foldM add () targets ?s1 = (Inr (), t)" "plans t = plans s"
    "map st_order (filter (\<lambda>x. st_plan_id x = pl_id p) (plan_steps t)) = map int [0..<Suc n + length targets]"
    "map step_view (filter (\<lambda>x. st_plan_id x = pl_id p) (plan_steps t)) =
        map step_view (filter (\<lambda>x. st_plan_id x = pl_id p) (plan_steps s)) @
        (operation, str_value (get item ''source''), req item, SPending)
        # map (\<lambda>item. (operation, str_value (get item ''source''), req item, SPending)) targets"
    using Cons.prems(3) st by auto
  ultimately show ?case by (intro exI [of _ t]) (simp add: bind_def)
qed

lemma sort_key_ordered: "map f xs = map int [0..<n] \<Longrightarrow> sort_key f xs = xs"
  by (rule sort_key_id_if_sorted) (simp add: sorted_iff_nth_mono)

text \<open>The plan and the steps that a successful creation leaves behind.\<close>

definition access_plan_stored ::
    "pylib \<Rightarrow> string \<Rightarrow> string \<Rightarrow> string \<Rightarrow> string \<Rightarrow> json list \<Rightarrow> json \<Rightarrow> 'd netops \<Rightarrow> plan_row \<Rightarrow> bool" where
  "access_plan_stored L plan_key desired_state policy_key asset_key targets basis t p \<longleftrightarrow>
     find_plan (plans t) plan_key = Some p \<and> pl_status p = Draft
     \<and> pl_resolved_targets_json p = Doc (JList targets)
     \<and> pl_plan_basis_json p = Doc basis \<and> pl_plan_basis_hash p = canonical_sha256 L basis
     \<and> pl_rollback_json p = Doc (rollback_document desired_state policy_key asset_key targets)
     \<and> map step_view (steps_of t (pl_id p)) = map (\<lambda>item. (forward_operation desired_state,
          str_value (get item ''source''), step_request policy_key asset_key item, SPending)) targets"

lemma store_access_plan_Inr:
  assumes run: "store_access_plan L k actor reason ty key desired dj pk ak targets basis ttl s = (Inr j, t)"
    and wf: "\<forall>st \<in> set (plan_steps s). st_plan_id st \<in> pl_id ` set (plans s)" and basis: "truthy basis"
  shows "\<exists>p. access_plan_stored L k desired pk ak targets basis t p \<and> pl_subject_type p = ty \<and> pl_subject_key p = key
    \<and> pl_actor p = actor \<and> pl_desired_state_json p = Doc dj"
proof -
  define a where "a = \<lparr>ar_plan_key = k, ar_actor = actor, ar_reason = reason,
        ar_subject_type = ty, ar_subject_key = key, ar_operation_type = ''internet_access_set'',
        ar_desired_state = dj, ar_resolved_targets = JList targets,
        ar_context_evidence_hash = removeprefix (canonical_sha256 L basis) ''sha256:'',
        ar_precheck = JObj [(''anchor'', JStr ''validated''), (''plan_ttl_seconds'', JInt ttl)],
        ar_rollback = rollback_document desired pk ak targets, ar_plan_basis = basis\<rparr>"
  have a: "ar_plan_key a = k" "ar_resolved_targets a = JList targets" "ar_plan_basis a = basis"
      "ar_rollback a = rollback_document desired pk ak targets" "ar_subject_type a = ty" "ar_subject_key a = key"
      "ar_actor a = actor" "ar_desired_state a = dj"
    by (simp_all add: a_def)
  have "bind (create_change_plan L a) (\<lambda>plan. seq (foldM (\<lambda>u item. seq (add_plan_step k ''mikrotik'' (forward_operation desired)
            (str_value (get item ''source'')) (step_request pk ak item)) (ret ())) () targets) (ret plan)) s = (Inr j, t)"
    using run unfolding store_access_plan_def a_def .
  then obtain s1 where s1: "create_change_plan L a s = (Inr j, s1)"
    and f: "foldM (\<lambda>u item. seq (add_plan_step k ''mikrotik'' (forward_operation desired)
            (str_value (get item ''source'')) (step_request pk ak item)) (ret ())) () targets s1 = (Inr (), t)"
    by (auto simp: bind_Inr seq_Inr ret_def)
  obtain now i where i: "i = next_id (map pl_id (plans s))" "ar_plan_key a \<notin> pl_key ` set (plans s)"
    and st: "s1 = s\<lparr>ticks := Suc (ticks s), plans := plans s @ [(new_plan_row L a now)\<lparr>pl_id := i\<rparr>]\<rparr>"
    using create_change_plan_Inr [OF s1] by blast
  define p where "p = (new_plan_row L a now)\<lparr>pl_id := i\<rparr>"
  have p: "pl_id p = i" "pl_status p = Draft" "pl_key p = k" "pl_resolved_targets_json p = Doc (JList targets)"
      "pl_plan_basis_json p = Doc basis" "pl_plan_basis_hash p = canonical_sha256 L basis"
      "pl_rollback_json p = Doc (rollback_document desired pk ak targets)" "pl_subject_type p = ty" "pl_subject_key p = key"
      "pl_actor p = actor" "pl_desired_state_json p = Doc dj"
    using basis by (simp_all add: p_def new_plan_row_def a Let_def py_or_def)
  have none: "filter (\<lambda>x. st_plan_id x = i) (plan_steps s1) = []"
  proof -
    have "st_plan_id x < i" if "x \<in> set (plan_steps s)" for x
      unfolding i(1) using wf that by (intro next_id_fresh) auto
    then show ?thesis by (auto simp: filter_empty_conv st)
  qed
  have find: "find_plan (plans s1) k = Some p"
  proof -
    have "\<forall>y \<in> set (plans s). pl_key y \<noteq> k" using i(2) by (auto simp: a(1))
    then show ?thesis by (simp add: find_plan_def st p_def [symmetric] find_snoc p(3))
  qed
  from add_steps_run [OF this, of 0 "forward_operation desired" "step_request pk ak" targets] none f p
  have t: "plans t = plans s1" "map st_order (filter (\<lambda>x. st_plan_id x = i) (plan_steps t)) = map int [0..<length targets]"
    "map step_view (filter (\<lambda>x. st_plan_id x = i) (plan_steps t)) =
      map (\<lambda>item. (forward_operation desired, str_value (get item ''source''), step_request pk ak item, SPending)) targets"
    by (auto simp: unfrozen_def)
  have "map step_view (steps_of t (pl_id p)) =
      map (\<lambda>item. (forward_operation desired, str_value (get item ''source''), step_request pk ak item, SPending)) targets"
    by (simp add: steps_of_def p(1) sort_key_ordered [OF t(2)] t(3))
  with find p t(1) show ?thesis by (intro exI [of _ p]) (simp add: access_plan_stored_def)
qed

lemma plan_basis_truthy [simp]: "truthy (plan_basis ctx asset targets)"
  by (simp add: plan_basis_def Let_def)

lemma asset_plan_basis_Inr:
  assumes "asset_plan_basis L R age ctx k s = (Inr (targets, basis), t)"
  shows "\<exists>asset. find_asset ctx k = Some asset \<and> resolve_asset_targets L R age ctx k s = (Inr targets, t)
    \<and> basis = plan_basis ctx asset targets"
  using assms by (auto simp: asset_plan_basis_def bind_Inr raise_def ret_def split: option.splits)

lemma catch_raise_Inr: "catch m (\<lambda>e. raise (f e)) s = (Inr x, t) \<longleftrightarrow> m s = (Inr x, t)"
  by (auto simp: catch_def raise_def split: prod.splits sum.splits)

lemma compare_basis_same:
  assumes "access_plan_stored L k desired pk ak targets basis t p" and "is_dict basis"
    and "pl_subject_type p = ''user'' \<longrightarrow> py_eq (get basis ''user_policy_binding'') binding"
  shows "compare_basis L p targets basis binding = Inr []"
proof -
  have "basis_changes basis basis = []" by (simp add: basis_changes_Nil)
  with assms show ?thesis by (auto simp: access_plan_stored_def compare_basis_def)
qed

text \<open>A plan for an asset freezes what was resolved. When creation succeeds, the new plan is a draft about that
  asset whose targets are the ones a resolution of the asset gave on the snapshot opened by the call; it has
  exactly one pending step per target, in target order, on the enforcement source of that target and owned by
  the stable policy key of the asset (an addition to deny, a removal to allow); its rollback document holds the
  inverse operation for each target; its basis is hashed, and comparing the plan with an unchanged context
  reports no changed precondition.\<close>

theorem asset_plan_shape:
  assumes anchor: "\<And>x. confined (same tables) (anchor_check R x)" and fk: "\<forall>st \<in> set (plan_steps s). st_plan_id st \<in> pl_id ` set (plans s)"
    and run: "create_asset_internet_access_plan L snap R ttl age plan_key actor asset_key desired reason s = (Inr j, t)"
  shows "\<exists>ctx targets basis policy_key p. snap (snapshots s) = Inr ctx
    \<and> (\<exists>s1 s2. asset_plan_basis L R age ctx asset_key s1 = (Inr (targets, basis), s2))
    \<and> internet_policy_key L ''asset'' asset_key ''all-sites'' = Inr policy_key
    \<and> access_plan_stored L plan_key desired policy_key asset_key targets basis t p
    \<and> pl_subject_type p = ''asset'' \<and> pl_subject_key p = asset_key \<and> pl_actor p = actor
    \<and> desired \<in> {''allow'', ''deny''} \<and> compare_basis L p targets basis JNull = Inr []"
proof -
  have d: "desired \<in> {''allow'', ''deny''}"
    using run by (rule contrapos_pp) (simp add: create_asset_internet_access_plan_def raise_def)
  with run obtain x s1 where s1: "catch (bind (read_context_snapshot snap) (\<lambda>ctx. asset_plan_basis L R age ctx asset_key))
          (\<lambda>e. raise (snapshot_error e)) s = (Inr x, s1)"
    and r1: "(case x of (targets, basis) \<Rightarrow> bind (lift (internet_policy_key L ''asset'' asset_key ''all-sites'')) (\<lambda>policy_key.
        store_access_plan L plan_key actor reason ''asset'' asset_key desired
          (JObj [(''internet_access'', JStr desired), (''policy_key'', JStr policy_key)])
          policy_key asset_key targets basis ttl)) s1 = (Inr j, t)"
    by (auto simp: create_asset_internet_access_plan_def seq_Inr bind_Inr [where m = "catch m h" for m h] lift_def)
  obtain targets basis where x: "x = (targets, basis)" by (cases x)
  from s1 obtain ctx where ctx: "snap (snapshots s) = Inr ctx"
      "asset_plan_basis L R age ctx asset_key (s\<lparr>snapshots := Suc (snapshots s)\<rparr>) = (Inr (targets, basis), s1)"
    by (auto simp: x catch_raise_Inr bind_Inr read_context_snapshot_def)
  from r1 obtain pk where pk: "internet_policy_key L ''asset'' asset_key ''all-sites'' = Inr pk"
      and st: "store_access_plan L plan_key actor reason ''asset'' asset_key desired
          (JObj [(''internet_access'', JStr desired), (''policy_key'', JStr pk)]) pk asset_key targets basis ttl s1 = (Inr j, t)"
    by (auto simp: x bind_Inr lift_def)
  obtain asset where basis: "basis = plan_basis ctx asset targets" using asset_plan_basis_Inr [OF ctx(2)] by blast
  have same: "plans s1 = plans s" "plan_steps s1 = plan_steps s"
    using confined_sameD [OF resolver_frame.asset_plan_basis [OF tables_resolver [OF anchor]] ctx(2)]
    by (simp_all add: tables_def)
  from store_access_plan_Inr [OF st] fk same basis obtain p where
    p: "access_plan_stored L plan_key desired pk asset_key targets basis t p" "pl_subject_type p = ''asset''"
      "pl_subject_key p = asset_key" "pl_actor p = actor"
    by auto
  have "compare_basis L p targets basis JNull = Inr []"
    by (rule compare_basis_same [OF p(1)]) (simp_all add: p(2) basis plan_basis_def Let_def)
  with ctx pk p d show ?thesis by blast
qed

lemma put_not_Nil [simp]: "put k v d \<noteq> []"
  by (induction k v d rule: put.induct) simp_all

text \<open>A plan for a user is a plan for one asset. When creation succeeds, the user is active and has exactly one
  primary binding that is confirmed with full confidence and valid now, and no live confirmed shared binding
  touches that asset; the plan is about the user, its steps and targets are those of that asset, owned by the
  policy key of the user, and the binding is part of the hashed basis, so that a later change of it is found.\<close>

theorem user_plan_shape:
  assumes anchor: "\<And>x. confined (same tables) (anchor_check R x)"
    and fk: "\<forall>st \<in> set (plan_steps s). st_plan_id st \<in> pl_id ` set (plans s)"
    and run: "create_user_internet_access_plan L snap R ttl age plan_key actor user_key desired reason s = (Inr j, t)"
  shows "\<exists>ctx b a now targets basis policy_key p. snap (snapshots s) = Inr ctx
    \<and> primary_bindings ctx user_key now = [(b, a)]
    \<and> (\<forall>x \<in> set (c_bindings ctx). bi_asset_id x = bi_asset_id b \<and> bi_relation x = ''shared_user'' \<and> bi_status x = ''confirmed''
        \<longrightarrow> \<not> binding_live now x)
    \<and> internet_policy_key L ''user'' user_key ''all-sites'' = Inr policy_key
    \<and> access_plan_stored L plan_key desired policy_key (as_key a) targets basis t p
    \<and> pl_subject_type p = ''user'' \<and> pl_subject_key p = user_key
    \<and> compare_basis L p targets basis (user_binding p (Some (as_key a))) = Inr []"
proof -
  have d: "desired \<in> {''allow'', ''deny''}"
    using run by (rule contrapos_pp) (simp add: create_user_internet_access_plan_def raise_def)
  with run obtain x s1 where s1: "catch (bind (read_context_snapshot snap) (\<lambda>ctx.
            bind (resolve_policy_asset_for_user L ctx user_key) (\<lambda>resolved. case resolved of
              None \<Rightarrow> raise (ValueError ''user has no eligible confirmed primary asset'')
            | Some asset_key \<Rightarrow> bind (asset_plan_basis L R age ctx asset_key) (\<lambda>(targets, basis).
                ret (asset_key, targets, set_field basis ''user_policy_binding''
                  (JObj [(''user_key'', JStr user_key), (''asset_key'', JStr asset_key)]))))))
          (\<lambda>e. raise (snapshot_error e)) s = (Inr x, s1)"
    and r1: "(case x of (asset_key, targets, basis) \<Rightarrow> bind (lift (internet_policy_key L ''user'' user_key ''all-sites'')) (\<lambda>policy_key.
        store_access_plan L plan_key actor reason ''user'' user_key desired
          (JObj [(''internet_access'', JStr desired), (''resolved_enforcement_asset_key'', JStr asset_key),
            (''policy_key'', JStr policy_key)])
          policy_key asset_key targets basis ttl)) s1 = (Inr j, t)"
    by (auto simp: create_user_internet_access_plan_def seq_Inr bind_Inr [where m = "catch m h" for m h] lift_def)
  obtain ak targets basis where x: "x = (ak, targets, basis)" by (cases x)
  from s1 obtain ctx u1 b0 where ctx: "snap (snapshots s) = Inr ctx"
      "resolve_policy_asset_for_user L ctx user_key (s\<lparr>snapshots := Suc (snapshots s)\<rparr>) = (Inr (Some ak), u1)"
      "asset_plan_basis L R age ctx ak u1 = (Inr (targets, b0), s1)"
      "basis = set_field b0 ''user_policy_binding'' (JObj [(''user_key'', JStr user_key), (''asset_key'', JStr ak)])"
    by (auto simp: x catch_raise_Inr bind_Inr read_context_snapshot_def raise_def ret_def split: option.splits prod.splits)
  from ctx(2) obtain now b a where user: "primary_bindings ctx user_key now = [(b, a)]" "ak = as_key a"
      "\<forall>x \<in> set (c_bindings ctx). bi_asset_id x = bi_asset_id b \<and> bi_relation x = ''shared_user'' \<and> bi_status x = ''confirmed''
        \<longrightarrow> \<not> binding_live now x"
    by (auto simp: resolve_policy_asset_for_user_def bind_Inr ret_def split: list.splits prod.splits if_splits)
  from r1 obtain pk where pk: "internet_policy_key L ''user'' user_key ''all-sites'' = Inr pk"
      and st: "store_access_plan L plan_key actor reason ''user'' user_key desired
          (JObj [(''internet_access'', JStr desired), (''resolved_enforcement_asset_key'', JStr ak), (''policy_key'', JStr pk)])
          pk ak targets basis ttl s1 = (Inr j, t)"
    by (auto simp: x bind_Inr lift_def)
  note R = tables_resolver [OF anchor, of L]
  have same: "plans s1 = plans s" "plan_steps s1 = plan_steps s"
    using confined_sameD [OF resolver_frame.asset_plan_basis [OF R] ctx(3)] confined_sameD [OF resolver_frame.user [OF R] ctx(2)]
    by (simp_all add: tables_def)
  have "truthy basis" by (simp add: ctx(4) set_field_def put_not_Nil)
  with store_access_plan_Inr [OF st] fk same obtain p where
    p: "access_plan_stored L plan_key desired pk ak targets basis t p" "pl_subject_type p = ''user''" "pl_subject_key p = user_key"
    by auto
  have "compare_basis L p targets basis (user_binding p (Some ak)) = Inr []"
    by (rule compare_basis_same [OF p(1)]) (simp_all add: ctx(4) user_binding_def p(3), simp add: set_field_def)
  with ctx(1) pk p user show ?thesis by blast
qed

section \<open>A concrete resolution\<close>

text \<open>One asset with one current address, bound to one user, behind a valid anchor.\<close>

definition rdemo_L :: pylib where
  "rdemo_L = (demo_lib (\<lambda>_. 0))\<lparr>sha256 := (\<lambda>s. take 64 (s @ replicate 64 CHR ''0''))\<rparr>"

definition rdemo_ctx :: context_db where
  "rdemo_ctx = \<lparr>c_assets = [\<lparr>as_id = 1, as_key = ''a1'', as_provisional = False, as_status = ''active'', as_updated_at = ''T0''\<rparr>],
     c_sources = [\<lparr>so_id = 5, so_name = ''gw'', so_site = Some ''hq'', so_last_collect_at = Some ''T0'',
       so_last_status = Some ''ok'', so_updated_at = ''T0''\<rparr>],
     c_interfaces = [],
     c_observations = [\<lparr>ob_id = 1, ob_asset_id = 1, ob_interface_id = None, ob_site = [], ob_source_id = Some 5,
       ob_ip = ''10.0.0.5'', ob_first_seen_at = ''T0'', ob_last_seen_at = ''T0'', ob_is_current = True\<rparr>],
     c_findings = [], c_attachments = [], c_heads = [], c_revisions = [],
     c_users = [\<lparr>us_id = 3, us_key = ''u1'', us_status = ''active''\<rparr>],
     c_bindings = [\<lparr>bi_id = 1, bi_user_id = 3, bi_asset_id = 1, bi_relation = ''primary_user'', bi_status = ''confirmed'',
       bi_confidence = 100, bi_valid_from = ''T0'', bi_valid_until = None\<rparr>]\<rparr>"

definition rdemo_R :: "unit resolver" where
  "rdemo_R = \<lparr>enforcement_sources_by_site = [(''hq'', ''gw'')], source_sla_seconds = 300,
     anchor_check = (\<lambda>x. ret (JObj [(''valid'', JBool True), (''fingerprint'', JStr ''f'')]))\<rparr>"

definition rdemo_target :: json where
  "rdemo_target = target_item ''gw'' ''10.0.0.5'' ''hq'' ''f'' []"

lemma rdemo_frames: "confined later (anchor_check rdemo_R x)" "confined (same tables) (anchor_check rdemo_R x)"
  by (simp_all add: rdemo_R_def lt.w_ret sm.w_ret)

theorem resolve_asset_targets_exact_witness:
  "\<exists>t. resolve_asset_targets rdemo_L rdemo_R 900 rdemo_ctx ''a1'' (empty_db ()) = (Inr [rdemo_target], t)
     \<and> (\<exists>asset. find_asset rdemo_ctx ''a1'' = Some asset \<and> \<not> as_provisional asset)"
proof -
  let ?run = "resolve_asset_targets rdemo_L rdemo_R 900 rdemo_ctx ''a1'' (empty_db ())"
  have "fst ?run = Inr [rdemo_target]" by code_simp
  then have run: "?run = (Inr [rdemo_target], snd ?run)" by (simp add: prod_eq_iff)
  from resolve_asset_targets_exact [OF rdemo_frames(1) run] run show ?thesis by blast
qed

definition rdemo_created :: "unit netops" where
  "rdemo_created = snd (create_asset_internet_access_plan rdemo_L (\<lambda>n. Inr rdemo_ctx) rdemo_R 300 900 ''plan-1'' ''user:7'' ''a1'' ''deny''
     ''test'' (empty_db ()))"

theorem asset_plan_shape_witness:
  "\<exists>p. find_plan (plans rdemo_created) ''plan-1'' = Some p \<and> pl_status p = Draft \<and> pl_subject_key p = ''a1''"
proof -
  let ?run = "create_asset_internet_access_plan rdemo_L (\<lambda>n. Inr rdemo_ctx) rdemo_R 300 900 ''plan-1'' ''user:7'' ''a1'' ''deny''
     ''test'' (empty_db ())"
  have "\<not> isl (fst ?run)" by code_simp
  then have run: "?run = (Inr (projr (fst ?run)), rdemo_created)" by (simp add: prod_eq_iff rdemo_created_def)
  from asset_plan_shape [OF rdemo_frames(2) _ run] show ?thesis
    by (auto simp: empty_db_def access_plan_stored_def)
qed

theorem user_plan_shape_witness:
  "\<exists>p t. find_plan (plans t) ''plan-1'' = Some p \<and> pl_subject_key p = ''u1''
    \<and> t = snd (create_user_internet_access_plan rdemo_L (\<lambda>n. Inr rdemo_ctx) rdemo_R 300 900 ''plan-1'' ''user:7'' ''u1'' ''deny''
     ''test'' (empty_db ()))"
proof -
  let ?run = "create_user_internet_access_plan rdemo_L (\<lambda>n. Inr rdemo_ctx) rdemo_R 300 900 ''plan-1'' ''user:7'' ''u1'' ''deny''
     ''test'' (empty_db ())"
  have "\<not> isl (fst ?run)" by code_simp
  then have run: "?run = (Inr (projr (fst ?run)), snd ?run)" by (simp add: prod_eq_iff)
  from user_plan_shape [OF rdemo_frames(2) _ run] show ?thesis
    by (auto simp: empty_db_def access_plan_stored_def)
qed

definition rdemo_basis :: json where
  "rdemo_basis = plan_basis rdemo_ctx (hd (c_assets rdemo_ctx)) [rdemo_target]"

definition rdemo_plan :: plan_row where
  "rdemo_plan = (demo_row Approved)\<lparr>pl_resolved_targets_json := Doc (JList [rdemo_target]), pl_plan_basis_json := Doc rdemo_basis,
     pl_plan_basis_hash := canonical_sha256 rdemo_L rdemo_basis\<rparr>"

theorem preconditions_hold_witness:
  "\<exists>created. fromiso rdemo_L (replace_Z (pl_created_at rdemo_plan)) = Some (Aware created)
     \<and> fst (changed_plan_preconditions rdemo_L (\<lambda>n. Inr rdemo_ctx) rdemo_R 300 900 rdemo_plan (empty_db ())) = Inr []"
proof -
  let ?run = "changed_plan_preconditions rdemo_L (\<lambda>n. Inr rdemo_ctx) rdemo_R 300 900 rdemo_plan (empty_db ())"
  let ?s = "(empty_db ())\<lparr>ticks := Suc 0\<rparr>"
  have plan: "pl_subject_type rdemo_plan = ''asset''" "pl_subject_key rdemo_plan = ''a1''" "pl_created_at rdemo_plan = ''T0''"
      "pl_desired_state_json rdemo_plan = Doc (JObj [])"
    by (simp_all add: rdemo_plan_def demo_row_def)
  have iso: "fromiso rdemo_L (replace_Z ''T0'') = Some (Aware 0)" by code_simp
  have clock: "now_us rdemo_L n = 0" for n by (simp add: rdemo_L_def demo_lib_def)
  have age: "age_finding rdemo_L rdemo_plan 300 (empty_db ()) = (Inr [], ?s)"
    by (simp add: age_finding_def plan iso bind_def read_clock_def clock ret_def empty_db_def second_def Let_def)
  have "fst (current_basis rdemo_L (\<lambda>n. Inr rdemo_ctx) rdemo_R 900 rdemo_plan ''a1'' ?s) = Inr ([rdemo_target], rdemo_basis, JNull)"
    by code_simp
  then obtain t where cur: "current_basis rdemo_L (\<lambda>n. Inr rdemo_ctx) rdemo_R 900 rdemo_plan ''a1'' ?s
      = (Inr ([rdemo_target], rdemo_basis, JNull), t)" by (metis prod.collapse)
  have "is_dict rdemo_basis" by (simp add: rdemo_basis_def plan_basis_def Let_def)
  then have cmp: "compare_basis rdemo_L rdemo_plan [rdemo_target] rdemo_basis JNull = Inr []"
    by (simp add: compare_basis_def plan(1) basis_changes_Nil, simp add: rdemo_plan_def demo_row_def basis_changes_Nil)
  have run: "?run = (Inr [], t)"
    by (simp add: changed_plan_preconditions_def seq_def bind_def lift_def validate_security_thresholds_def MAX_PLAN_TTL_SECONDS_def
        age plan get_attr_def get_default_def py_or_def attempt_def cur cmp)
  from preconditions_hold [OF run] run show ?thesis by auto
qed

end
