(* ===== verification/Executor_Correctness.thy ===== *)
theory Executor_Correctness
  imports Plan_Executor
begin

text \<open>
  What the plan executor achieves on the device. The first part needs nothing of the adapter: a busy
  device, a plan that is not approved, a precondition that changed. The second part is proved inside the
  contract \<open>device_adapter\<close>: applying a plan has the effect of its steps, one after the other, on the set
  of enforced entries; a plan that verified is on the device; reconciliation makes the entries of a policy
  exactly the expected ones and never withdraws an expected one on the way; entries of other owners are
  not touched by any of it.
\<close>

section \<open>Before the adapter is called\<close>

lemma plan_and_steps_run:
  "plan_and_steps k s = (case find_plan (plans s) k of
     None \<Rightarrow> (Inl (ValueError ''change plan not found''), s) | Some p \<Rightarrow> (Inr (p, steps_of s (pl_id p)), s))"
  by (simp add: plan_and_steps_def plan_row_of_run prog_simps split: option.split)

lemma bracket_busy:
  assumes "remdups (map st_target_key sts) = [d]"
    and "find (\<lambda>l. lk_device_key l = d) (locks s) = Some l"
    and "lk_owner_pid l \<le> 0 \<or> process_is_alive E (lk_owner_pid l)"
  shows "bracket (device_lock L E sts) m s =
    (Inl (ValueError ''device operation is already in progress''), s\<lparr>uuids := Suc (uuids s)\<rparr>)"
  using assms by (simp add: bracket_def bind_def device_lock_def lock_run Let_def)

text \<open>One operation per device. While a live process holds the lock of the device a plan targets, applying or
  rolling back the plan is refused, and nothing changes: not the plan, not its steps, not the lock, not
  the device (only a random identifier was drawn).\<close>

theorem busy_device_refused:
  assumes "find_plan (plans s) k = Some p"
    and "remdups (map st_target_key (steps_of s (pl_id p))) = [d]"
    and "find (\<lambda>l. lk_device_key l = d) (locks s) = Some l"
    and "0 < lk_owner_pid l" and "os_kill E (lk_owner_pid l) \<noteq> NoSuchProcess"
  shows "(pl_status p = Approved \<longrightarrow> apply_plan L E A k preflight s =
      (Inl (ValueError ''device operation is already in progress''), s\<lparr>uuids := Suc (uuids s)\<rparr>))
    \<and> (pl_status p \<in> {Applied, Verified, Failed} \<and> loads (pl_rollback_json p) = Inr j \<and> is_list (get j ''steps'') \<longrightarrow>
      rollback_plan L E A k probe s =
      (Inl (ValueError ''device operation is already in progress''), s\<lparr>uuids := Suc (uuids s)\<rparr>))"
proof -
  have "lk_owner_pid l \<le> 0 \<or> process_is_alive E (lk_owner_pid l)"
    using assms(5) by (cases "os_kill E (lk_owner_pid l)") (simp_all add: process_is_alive_def)
  note busy = bracket_busy [OF assms(2,3) this]
  have "is_dict j" if "is_list (get j ''steps'')" using that by (cases j) (simp_all add: get_default_def)
  then show ?thesis
    by (auto simp: apply_plan_def rollback_plan_def bind_def plan_and_steps_run assms(1) busy lift_def get_attr_def)
qed

text \<open>C3: Only an approved plan is ever applied, and only if its preconditions still hold. For a plan in any other
  status \<open>apply_plan\<close> changes nothing at all. For an approved plan whose preflight reports a changed
  precondition, the adapter is not called: the device is as the preflight left it, the response says
  that a new plan is needed, and the plan has failed.\<close>

theorem apply_gate:
  assumes "find_plan (plans s) k = Some p"
  shows "(pl_status p \<noteq> Approved \<longrightarrow> snd (apply_plan L E A k preflight s) = s)
    \<and> (pl_status p = Approved \<and> device_lock L E (steps_of s (pl_id p)) s = (Inr lock, s1)
        \<and> preflight p s1 = (Inr changed, s2) \<and> changed \<noteq> []
        \<and> transition_plan L k Failed s2 = (Inr row, s3) \<longrightarrow>
      fst (apply_plan L E A k preflight s) = Inr (stale_response k changed)
      \<and> device (snd (apply_plan L E A k preflight s)) = device s2
      \<and> plans (snd (apply_plan L E A k preflight s)) = plans s3)"
proof (intro conjI impI)
  show "snd (apply_plan L E A k preflight s) = s" if "pl_status p \<noteq> Approved"
    using that by (simp add: apply_plan_def bind_def plan_and_steps_run assms ret_def raise_def)
next
  assume a: "pl_status p = Approved \<and> device_lock L E (steps_of s (pl_id p)) s = (Inr lock, s1)
        \<and> preflight p s1 = (Inr changed, s2) \<and> changed \<noteq> []
        \<and> transition_plan L k Failed s2 = (Inr row, s3)"
  have dev: "device s3 = device s2"
    using a by (auto simp: transition_plan_run dest!: get_change_plan_state split: option.splits if_splits)
  have run: "apply_plan L E A k preflight s = (Inr (stale_response k changed), snd (release_device_lock lock s3))"
    using a by (simp add: apply_plan_def bracket_def apply_body_def begin_apply_def plan_and_steps_run assms
        release_device_lock_def prog_simps)
  show "fst (apply_plan L E A k preflight s) = Inr (stale_response k changed)"
    "device (snd (apply_plan L E A k preflight s)) = device s2"
    "plans (snd (apply_plan L E A k preflight s)) = plans s3"
    by (simp_all add: run release_device_lock_def modify_def dev)
qed

text \<open>When the preflight of an approved plan raises, the handler of \<open>apply_plan\<close> reads a loop variable that was
  never bound: the caller gets \<open>UnboundLocalError\<close> instead of a failed plan, and the plan is still
  approved, with all rows as the preflight left them.\<close>

theorem apply_preflight_exception_escapes:
  assumes "find_plan (plans s) k = Some p" and "pl_status p = Approved"
    and "device_lock L E (steps_of s (pl_id p)) s = (Inr lock, s1)" and "preflight p s1 = (Inl e, s2)"
  shows "fst (apply_plan L E A k preflight s) = Inl UnboundLocalError
    \<and> plans (snd (apply_plan L E A k preflight s)) = plans s2
    \<and> plan_steps (snd (apply_plan L E A k preflight s)) = plan_steps s2"
  using assms
  by (simp add: apply_plan_def bracket_def apply_body_def begin_apply_def plan_and_steps_run
      release_device_lock_def prog_simps)

lemma lock_keeps:
  "device_lock_for_target L E d s = (r, t) \<Longrightarrow> device t = device s \<and> plans t = plans s \<and> plan_steps t = plan_steps s"
  by (auto simp: lock_run Let_def split: option.splits if_splits)

lemma bracket_target_cases:
  assumes "bracket (device_lock_for_target L E d) m s = (r, t)"
  obtains (refused) e where "r = Inl e" "device t = device s" "plans t = plans s"
    | (ran) s1 s2 where "device s1 = device s" "plans s1 = plans s" "plan_steps s1 = plan_steps s" "m s1 = (r, s2)"
      "device t = device s2" "plans t = plans s2" "plan_steps t = plan_steps s2"
  using assms unfolding bracket_def
proof (cases rule: bind_cases)
  case (error e)
  then show ?thesis using lock_keeps refused by blast
next
  case (ok lock s1)
  obtain r' s2 where m: "m s1 = (r', s2)" by (rule prod.exhaust)
  with ok(2) have "r' = r" "t = s2\<lparr>locks := filter (\<lambda>l. \<not> (lk_device_key l = fst lock \<and> lk_holder l = snd lock)) (locks s2)\<rparr>"
    by (auto simp: finalize_def release_device_lock_def modify_def)
  with lock_keeps [OF ok(1)] m show ?thesis by (intro ran [of s1 s2]) simp_all
qed

lemma bracket_cases:
  assumes "bracket (device_lock L E sts) m s = (r, t)"
  obtains (refused) e where "r = Inl e" "device t = device s" "plans t = plans s"
    | (ran) s1 s2 where "device s1 = device s" "plans s1 = plans s" "plan_steps s1 = plan_steps s" "m s1 = (r, s2)"
      "device t = device s2" "plans t = plans s2" "plan_steps t = plan_steps s2"
proof (cases "\<exists>d. remdups (map st_target_key sts) = [d]")
  case True
  then obtain d where "remdups (map st_target_key sts) = [d]" by blast
  with assms have "bracket (device_lock_for_target L E d) m s = (r, t)" by (simp add: device_lock_def)
  then show thesis using refused ran by (rule bracket_target_cases)
next
  case False
  then show thesis
    using assms refused by (auto simp: bracket_def device_lock_def bind_def raise_def split: list.splits)
qed

section \<open>The abstract effect of a plan\<close>

type_synonym entry = "string \<times> string"

text \<open>The entry a request is about: the normal form of its address, and the owner's comment.\<close>

definition request_entry :: "'d adapter \<Rightarrow> (json \<Rightarrow> string res) \<Rightarrow> string \<Rightarrow> json \<Rightarrow> entry res" where
  "request_entry A nf k request = rbind (getitem request ''address'') (\<lambda>address.
     rbind (policy_key_of k request) (\<lambda>pk. rbind (getitem request ''asset_key'') (\<lambda>asset.
     rbind (nf address) (\<lambda>a. rbind (ad_comment A pk asset) (\<lambda>c. Inr (a, c))))))"

definition op_effect :: "string \<Rightarrow> entry \<Rightarrow> entry set \<Rightarrow> entry set" where
  "op_effect operation e V = (if operation = ''ensure_address_list_entry'' then insert e V else V - {e})"

definition step_effect :: "'d adapter \<Rightarrow> (json \<Rightarrow> string res) \<Rightarrow> string \<Rightarrow> step_row \<Rightarrow> entry set \<Rightarrow> entry set" where
  "step_effect A nf k st V = (case rbind (loads (st_request_json st)) (request_entry A nf k) of
     Inl e \<Rightarrow> V | Inr e \<Rightarrow> op_effect (st_operation st) e V)"

definition plan_effect :: "'d adapter \<Rightarrow> (json \<Rightarrow> string res) \<Rightarrow> string \<Rightarrow> step_row list \<Rightarrow> entry set \<Rightarrow> entry set" where
  "plan_effect A nf k sts V = fold (step_effect A nf k) sts V"

lemma on_device_run: "on_device m s = (r, t) \<longleftrightarrow> (\<exists>d. m (device s) = (r, d) \<and> t = s\<lparr>device := d\<rparr>)"
  by (auto simp: on_device_def split: prod.splits)

lemma set_step_device [simp]: "device (snd (set_step P f s)) = device s"
  by (simp add: set_step_def modify_def)

lemma transition_plan_device: "transition_plan L k st s = (r, t) \<Longrightarrow> device t = device s"
  by (auto simp: transition_plan_run dest!: get_change_plan_state split: option.splits if_splits)

lemma apply_step_run:
  assumes "apply_step A k st s = (r, s')"
  obtains (bad) e where "loads (st_request_json st) = Inl e" "r = Inl e" "s' = s"
    | (err) request e where "loads (st_request_json st) = Inr request" "r = Inl e"
      "run_operation A ''unsupported plan step'' k (st_operation st) (st_target_key st) request s = (Inl e, s')"
    | (ok) request res s1 where "loads (st_request_json st) = Inr request" "r = Inr ()" "device s' = device s1"
      "run_operation A ''unsupported plan step'' k (st_operation st) (st_target_key st) request s = (Inr res, s1)"
proof (cases "loads (st_request_json st)")
  case (Inl e)
  with assms show thesis by (intro bad) (auto simp: apply_step_def bind_def lift_def)
next
  case (Inr request)
  obtain rr s1 where run: "run_operation A ''unsupported plan step'' k (st_operation st) (st_target_key st) request s = (rr, s1)"
    by (rule prod.exhaust)
  show thesis
  proof (cases rr)
    case (Inl e)
    with assms Inr run show thesis
      by (intro err [OF \<open>loads _ = Inr request\<close>, of e]) (auto simp: apply_step_def bind_def lift_def)
  next
    case (Inr res)
    with assms run \<open>loads _ = Inr request\<close> have "set_step (\<lambda>x. st_id x = st_id st)
        (\<lambda>x. x\<lparr>st_status := SApplied, st_result_json := Doc res\<rparr>) s1 = (r, s')"
      by (simp add: apply_step_def bind_def lift_def)
    with run Inr show thesis
      by (intro ok [OF \<open>loads _ = Inr request\<close>, of s1 res]) (auto simp: set_step_def modify_def)
  qed
qed

context device_adapter
begin

text \<open>A program that leaves the enforced entries as they are.\<close>

definition untouched :: "'d netops \<Rightarrow> 'd netops \<Rightarrow> bool" where
  "untouched s t \<longleftrightarrow> (good (device s) \<longrightarrow> good (device t) \<and> view (device t) = view (device s))"

lemma run_operation_ok:
  assumes "good (device s)" and "run_operation A u k operation t request s = (Inr res, s')"
  shows "good (device s') \<and> (\<exists>e. request_entry A nf k request = Inr e
    \<and> view (device s') = op_effect operation e (view (device s)))"
proof -
  have op: "operation = ''ensure_address_list_entry'' \<or> operation = ''remove_address_list_entry''"
    using assms(2) by (auto simp: run_operation_def raise_def if_app split: if_splits)
  from assms(2) obtain address pk asset d where r: "getitem request ''address'' = Inr address"
      "policy_key_of k request = Inr pk" "getitem request ''asset_key'' = Inr asset" "s' = s\<lparr>device := d\<rparr>"
    and m: "operation = ''ensure_address_list_entry'' \<Longrightarrow> ad_ensure A t address pk asset (device s) = (Inr res, d)"
      "operation = ''remove_address_list_entry'' \<Longrightarrow> ad_remove A t address pk asset (device s) = (Inr res, d)"
    using op by (auto simp: run_operation_def bind_Inr lift_def on_device_run)
  from op show ?thesis
  proof
    assume "operation = ''ensure_address_list_entry''"
    with ensure_ok [OF assms(1) m(1)] r show ?thesis by (auto simp: request_entry_def op_effect_def)
  next
    assume "operation = ''remove_address_list_entry''"
    with remove_ok [OF assms(1) m(2)] r show ?thesis by (auto simp: request_entry_def op_effect_def)
  qed
qed

lemma run_operation_err:
  assumes "good (device s)" and "run_operation A u k operation t request s = (Inl x, s')"
  shows "good (device s') \<and> (view (device s') = view (device s) \<or> (\<exists>e. request_entry A nf k request = Inr e
    \<and> view (device s') = op_effect operation e (view (device s))))"
proof -
  have stay: "s' = s \<Longrightarrow> ?thesis" using assms(1) by simp
  show ?thesis
  proof (cases "operation \<in> {''ensure_address_list_entry'', ''remove_address_list_entry''}
      \<and> \<not> isl (getitem request ''address'') \<and> \<not> isl (policy_key_of k request) \<and> \<not> isl (getitem request ''asset_key'')")
    case False
    then have "s' = s"
      using assms(2) by (auto simp: run_operation_def bind_def lift_def raise_def split: sum.splits if_splits)
    then show ?thesis by (rule stay)
  next
    case True
    then obtain address pk asset where r: "getitem request ''address'' = Inr address"
      "policy_key_of k request = Inr pk" "getitem request ''asset_key'' = Inr asset"
      by (cases "getitem request ''address''"; cases "policy_key_of k request"; cases "getitem request ''asset_key''") auto
    show ?thesis
    proof (cases "operation = ''ensure_address_list_entry''")
      case True
      with assms(2) r obtain d where "ad_ensure A t address pk asset (device s) = (Inl x, d)" "s' = s\<lparr>device := d\<rparr>"
        by (auto simp: run_operation_def bind_def lift_def on_device_run)
      with ensure_err [OF assms(1)] r True show ?thesis by (fastforce simp: request_entry_def op_effect_def)
    next
      case False
      with assms(2) r \<open>operation \<in> _ \<and> _\<close> obtain d where "ad_remove A t address pk asset (device s) = (Inl x, d)" "s' = s\<lparr>device := d\<rparr>"
        by (auto simp: run_operation_def bind_def lift_def on_device_run)
      with remove_err [OF assms(1)] r False show ?thesis by (fastforce simp: request_entry_def op_effect_def)
    qed
  qed
qed

lemma apply_step_ok:
  assumes "good (device s)" and "apply_step A k st s = (Inr u, s')"
  shows "good (device s') \<and> view (device s') = step_effect A nf k st (view (device s))"
  using assms(2)
proof (cases rule: apply_step_run)
  case (ok request res s1)
  from run_operation_ok [OF assms(1) ok(4)] obtain e where "good (device s1)"
    "request_entry A nf k request = Inr e" "view (device s1) = op_effect (st_operation st) e (view (device s))"
    by blast
  then show ?thesis by (simp add: step_effect_def ok(1,3))
qed simp_all

lemma apply_step_err:
  assumes "good (device s)" and "apply_step A k st s = (Inl e, s')"
  shows "good (device s') \<and> view (device s') \<in> {view (device s), step_effect A nf k st (view (device s))}"
  using assms(2)
proof (cases rule: apply_step_run)
  case (err request e')
  from run_operation_err [OF assms(1) err(3)] show ?thesis
    by (elim conjE disjE exE) (simp_all add: step_effect_def err(1))
qed (use assms(1) in simp_all)

text \<open>Applying the steps: all of them, or a prefix up to the step that raised.\<close>

lemma apply_steps_effect:
  assumes "good (device s)" and "apply_steps A k acc sts s = (Inr (applied, failed), s')"
  shows "good (device s') \<and> (failed = None \<longrightarrow> view (device s') = plan_effect A nf k sts (view (device s)))
    \<and> (\<exists>n \<le> length sts. view (device s') = plan_effect A nf k (take n sts) (view (device s)))"
  using assms
proof (induction sts arbitrary: acc s)
  case Nil
  then show ?case by (simp add: ret_def plan_effect_def)
next
  case (Cons st sts)
  obtain r s1 where step: "apply_step A k st s = (r, s1)" by (rule prod.exhaust)
  show ?case
  proof (cases r)
    case (Inl e)
    with Cons.prems step have "failed = Some st" "s' = s1" by (auto simp: prog_simps)
    with apply_step_err [OF Cons.prems(1) step [unfolded Inl]] show ?thesis
      by (auto simp: plan_effect_def intro: exI [of _ 0] exI [of _ 1])
  next
    case (Inr u)
    note st = apply_step_ok [OF Cons.prems(1) step [unfolded Inr]]
    have "apply_steps A k (acc @ [int (st_id st)]) sts s1 = (Inr (applied, failed), s')"
      using Cons.prems(2) step Inr by (simp add: prog_simps)
    from Cons.IH [OF _ this] st show ?thesis
      by (auto simp: plan_effect_def intro: exI [of _ "Suc _"])
  qed
qed

lemma untouched_frame: "frame untouched"
  by unfold_locales (auto simp: untouched_def)

lemmas ut_rules = frame.frame_rules [OF untouched_frame]

lemma untouched_device: "(\<And>s. device (snd (m s)) = device s) \<Longrightarrow> confined untouched m"
  by (simp add: confined_def untouched_def)

lemma untouched_transition [simp]: "confined untouched (transition_plan L' k st)"
  by (rule untouched_device) (metis prod.collapse transition_plan_device)

lemma begin_apply_untouched:
  assumes "\<And>p. confined untouched (preflight p)"
  shows "confined untouched (begin_apply L' k p preflight)"
  unfolding begin_apply_def by (intro ut_rules assms untouched_transition)

lemma apply_body_effect:
  assumes pre: "\<And>p. confined untouched (preflight p)"
    and g: "good (device s)" and run: "apply_body L' A k p sts preflight s = (r, t)"
  shows "good (device t) \<and> (\<exists>n \<le> length sts. view (device t) = plan_effect A nf k (take n sts) (view (device s)))
    \<and> (\<forall>applied. r = Inr (Inr applied) \<longrightarrow> view (device t) = plan_effect A nf k sts (view (device s)))"
proof -
  have zero: "\<exists>n \<le> length sts. V = plan_effect A nf k (take n sts) V" for V
    by (intro exI [of _ 0]) (simp add: plan_effect_def)
  obtain b s1 where b: "catch (begin_apply L' k p preflight) (\<lambda>e. raise UnboundLocalError) s = (b, s1)"
    by (rule prod.exhaust)
  have "confined untouched (catch (begin_apply L' k p preflight) (\<lambda>e. raise UnboundLocalError))"
    by (intro ut_rules begin_apply_untouched pre)
  from confinedD [OF this b] g have s1: "good (device s1)" "view (device s1) = view (device s)"
    by (simp_all add: untouched_def)
  show ?thesis
  proof (cases "b = Inr None")
    case True
    obtain applied failed s2 where st: "apply_steps A k [] sts s1 = (Inr (applied, failed), s2)"
    proof -
      have "\<exists>x. fst (apply_steps A k acc sts u) = Inr x" for acc u
        by (induction sts arbitrary: acc u) (auto simp: prog_simps split: prod.split sum.split)
      then show thesis using that by (metis prod.collapse)
    qed
    note e = apply_steps_effect [OF s1(1) st]
    show ?thesis
    proof (cases failed)
      case None
      with run b True st have "t = s2" "r = Inr (Inr applied)" by (auto simp: apply_body_def bind_def ret_def)
      with e None s1(2) show ?thesis by auto
    next
      case (Some x)
      with run b True st obtain q where "seq (set_step (\<lambda>y. st_id y = st_id x) (\<lambda>x. x\<lparr>st_status := SFailed\<rparr>))
             (seq (transition_plan L' k Failed) (ret (Inl q))) s2 = (r, t)"
        by (auto simp: apply_body_def bind_def)
      then have "device t = device s2" "\<forall>applied. r \<noteq> Inr (Inr applied)"
        by (auto simp: seq_def bind_def ret_def set_step_def modify_def dest!: transition_plan_device split: sum.splits prod.splits)
      with e s1(2) show ?thesis by auto
    qed
  next
    case False
    with run b have "t = s1" "\<forall>applied. r \<noteq> Inr (Inr applied)"
      by (auto simp: apply_body_def bind_def ret_def split: sum.splits option.splits)
    with s1 zero show ?thesis by auto
  qed
qed

lemma apply_plan_effect:
  assumes pre: "\<And>p. confined untouched (preflight p)" and g: "good (device s)"
    and p: "find_plan (plans s) k = Some p" and run: "apply_plan L' E A k preflight s = (r, t)"
  shows "good (device t)
    \<and> (\<exists>n \<le> length (steps_of s (pl_id p)). view (device t) = plan_effect A nf k (take n (steps_of s (pl_id p))) (view (device s)))
    \<and> (\<forall>j. r = Inr j \<and> get j ''status'' = JStr ''applied'' \<longrightarrow>
         view (device t) = plan_effect A nf k (steps_of s (pl_id p)) (view (device s)))"
proof (cases "pl_status p = Approved")
  case False
  with run p have "t = s" "\<forall>j. r = Inr j \<longrightarrow> get j ''status'' \<noteq> JStr ''applied''"
    by (auto simp: apply_plan_def bind_def plan_and_steps_run ret_def raise_def if_app get_default_def split: if_splits)
  with g show ?thesis by (auto intro: exI [of _ 0] simp: plan_effect_def)
next
  case True
  let ?sts = "steps_of s (pl_id p)"
  from run p True have "bind (bracket (device_lock L' E ?sts) (apply_body L' A k p ?sts preflight)) (\<lambda>out.
      case out of Inl response \<Rightarrow> ret response
      | Inr applied \<Rightarrow> seq (transition_plan L' k Applied) (ret (apply_response ''applied'' k applied))) s = (r, t)"
    by (simp add: apply_plan_def bind_def plan_and_steps_run)
  then obtain out t0 where br: "bracket (device_lock L' E ?sts) (apply_body L' A k p ?sts preflight) s = (out, t0)"
    and dev: "device t = device t0" and ok: "\<forall>e. out = Inl e \<longrightarrow> r = Inl e" "\<forall>j. out = Inr (Inl j) \<longrightarrow> r = Inr j"
  proof (cases rule: bind_cases)
    case (ok x s')
    then show thesis
      by (intro that [of "Inr x" s'])
        (auto simp: ret_def seq_def bind_def dest!: transition_plan_device split: sum.splits prod.splits)
  qed (use that in auto)
  from br show ?thesis
  proof (cases rule: bracket_cases)
    case (refused e)
    with ok g dev show ?thesis by (auto intro: exI [of _ 0] simp: plan_effect_def)
  next
    case (ran s1 s2)
    have "\<forall>j. out = Inr (Inl j) \<longrightarrow> get j ''status'' \<noteq> JStr ''applied''"
      using ran(4)
      by (auto simp: apply_body_def begin_apply_def stale_response_def apply_response_def get_default_def prog_simps
          split: sum.splits prod.splits option.splits if_splits)
    note never = this
    note eff = apply_body_effect [OF pre _ ran(4), unfolded ran(1), OF g]
    consider e where "out = Inl e" | j where "out = Inr (Inl j)" | applied where "out = Inr (Inr applied)"
      by (metis sum.exhaust)
    then show ?thesis
      by cases (use eff never ran(5) dev ok in auto)
  qed
qed

end

text \<open>C2: Applying a plan refines its abstract effect. On a device and adapter that meet the contract, a run of
  \<open>apply_plan\<close> that answers \<open>applied\<close> leaves exactly the entries that the steps of the plan, in order, make
  of the entries that were there; a run that ends in any other way has had the effect of a prefix of the
  steps, never of anything else.\<close>

theorem apply_plan_refines_effect:
  assumes "device_adapter L A view nf good" and "good (device s)"
    and "\<And>p s r t. preflight p s = (r, t) \<Longrightarrow> good (device s) \<Longrightarrow> good (device t) \<and> view (device t) = view (device s)"
    and "find_plan (plans s) k = Some p" and "apply_plan L' E A k preflight s = (r, t)"
  shows "(\<exists>n \<le> length (steps_of s (pl_id p)).
        view (device t) = plan_effect A nf k (take n (steps_of s (pl_id p))) (view (device s)))
    \<and> (\<forall>j. r = Inr j \<and> get j ''status'' = JStr ''applied'' \<longrightarrow>
         view (device t) = plan_effect A nf k (steps_of s (pl_id p)) (view (device s)))"
proof -
  have "confined (device_adapter.untouched view good) (preflight p)" for p
    unfolding device_adapter.untouched_def [OF assms(1), abs_def]
    by (rule confinedI) (use assms(3) in blast)
  from device_adapter.apply_plan_effect [OF assms(1) this assms(2,4,5)] show ?thesis by blast
qed

section \<open>Verification\<close>

lemma transition_plan_status:
  assumes "transition_plan L k st s = (Inr j, t)"
  shows "\<exists>q. find_plan (plans t) k = Some q \<and> pl_status q = st"
proof -
  obtain row where row: "find_plan (plans s) k = Some row" and run: "get_change_plan k (s\<lparr>ticks := Suc (ticks s),
      plans := upd_rows (pl_id row) (stamp_status st (isoz L (now_us L (ticks s)))) (plans s)\<rparr>) = (Inr j, t)"
    using assms by (auto simp: transition_plan_run split: option.splits if_splits)
  from get_change_plan_state [OF run] row show ?thesis by (simp add: find_plan_upd_rows)
qed

lemma active_connectivity_pure: "active_connectivity_result L probe p e s = (r, t) \<Longrightarrow> t = s"
  by (auto simp: active_connectivity_result_def Let_def prog_simps split: sum.splits option.splits if_splits)

context device_adapter
begin

lemma entry_present_iff:
  assumes "good d" and "ad_list A t d = (Inr rows, d')" and "startswith (snd e) MANAGED_COMMENT_PREFIX"
  shows "entry_present L e rows \<longleftrightarrow> e \<in> view d"
proof -
  have "entry_present L e rows \<longleftrightarrow> e \<in> (\<lambda>row. (col L row ''address'', col L row ''comment'')) ` set rows"
    by (cases e) (auto simp: entry_present_def list_ex_iff)
  also have "\<dots> \<longleftrightarrow> e \<in> view d" unfolding list_rows [OF assms(1,2)] using assms(3) by (cases e) auto
  finally show ?thesis .
qed

lemma expected_entry_managed:
  "expected_entry L A k req = Inr e \<Longrightarrow> startswith (snd e) MANAGED_COMMENT_PREFIX"
  by (auto simp: expected_entry_def rbind_Inr_iff dest: comment_managed)

definition step_matches :: "string \<Rightarrow> entry set \<Rightarrow> step_row \<Rightarrow> bool" where
  "step_matches k V st \<longleftrightarrow> (\<exists>req e. loads (st_request_json st) = Inr req \<and> expected_entry L A k req = Inr e
     \<and> (e \<in> V \<longleftrightarrow> st_operation st = ''ensure_address_list_entry''))"

lemma verify_steps_sound:
  assumes "good (device s)" and "verify_steps L A k anchors active sts s = (Inr True, t)"
  shows "good (device t) \<and> view (device t) = view (device s) \<and> (\<forall>st \<in> set sts. step_matches k (view (device s)) st)"
  using assms
proof (induction sts arbitrary: s)
  case Nil
  then show ?case by (simp add: ret_def)
next
  case (Cons st sts)
  from Cons.prems(2) obtain req e rows d rec where
    req: "loads (st_request_json st) = Inr req" and e: "expected_entry L A k req = Inr e"
    and rows: "ad_list A (st_target_key st) (device s) = (Inr rows, d)"
    and ok: "entry_present L e rows \<longleftrightarrow> st_operation st = ''ensure_address_list_entry''"
    and rest: "verify_steps L A k anchors active sts
      (snd (set_step (\<lambda>x. st_id x = st_id st) (\<lambda>x. x\<lparr>st_result_json := Doc rec\<rparr>) (s\<lparr>device := d\<rparr>))) = (Inr True, t)"
    by (auto simp: bind_Inr seq_Inr lift_def on_device_run ret_def set_step_def modify_def split: if_splits)
  have d: "good d" "view d = view (device s)" using list_frame [OF Cons.prems(1) rows] by auto
  have "step_matches k (view (device s)) st"
    using entry_present_iff [OF Cons.prems(1) rows expected_entry_managed [OF e]] req e ok
    unfolding step_matches_def by blast
  with Cons.IH [OF _ rest] d show ?case by simp
qed

lemma check_anchors_frame:
  "good (device s) \<Longrightarrow> check_anchors L' A fps acc ts s = (r, t) \<Longrightarrow>
    good (device t) \<and> view (device t) = view (device s)"
proof -
  have i: "confined untouched (on_device (ad_inspect A))"
    by (rule confinedI) (auto simp: on_device_run untouched_def dest: inspect_frame)
  have "confined untouched (check_anchors L' A fps acc ts)"
    by (induction ts arbitrary: acc) (auto simp: Let_def intro!: ut_rules i)
  then show "good (device s) \<Longrightarrow> check_anchors L' A fps acc ts s = (r, t) \<Longrightarrow>
    good (device t) \<and> view (device t) = view (device s)"
    by (auto simp: untouched_def dest: confinedD)
qed

lemma verify_plan_sound:
  assumes g: "good (device s)" and p: "find_plan (plans s) k = Some p"
    and run: "verify_plan L A k probe s = (Inr j, t)" and ver: "get j ''status'' = JStr ''verified''"
  shows "good (device t) \<and> view (device t) = view (device s)
    \<and> (\<forall>st \<in> set (steps_of s (pl_id p)). step_matches k (view (device t)) st)
    \<and> (\<exists>q. find_plan (plans t) k = Some q \<and> pl_status q = Verified)"
proof -
  let ?sts = "steps_of s (pl_id p)"
  from run p ver obtain fps anchors s1 active s2 s3 row t3 where
    ca: "check_anchors L A fps [] (sort (remdups (map st_target_key ?sts))) s = (Inr (Some anchors), s1)"
    and ac: "active_connectivity_result L probe p None s1 = (Inr active, s2)"
    and vs: "verify_steps L A k anchors active ?sts s2 = (Inr True, s3)"
    and tr: "transition_plan L k Verified (snd (set_step (\<lambda>x. st_plan_id x = pl_id p) (\<lambda>x. x\<lparr>st_status := SVerified\<rparr>) s3)) = (Inr row, t)"
    unfolding verify_plan_def
    by (auto simp: bind_Inr seq_Inr plan_and_steps_run lift_def ret_def raise_def set_step_def modify_def
        failed_response_def get_default_def if_app split: if_splits option.splits)
  have s1: "good (device s1)" "view (device s1) = view (device s)" using check_anchors_frame [OF g ca] by auto
  have "s2 = s1" using active_connectivity_pure [OF ac] .
  with verify_steps_sound [OF _ vs] s1 have "good (device s3)" "view (device s3) = view (device s)"
    "\<forall>st \<in> set ?sts. step_matches k (view (device s)) st" by auto
  with transition_plan_device [OF tr] transition_plan_status [OF tr] show ?thesis by simp
qed

subsection \<open>Reconciliation of one policy\<close>

definition own :: "string \<Rightarrow> string set \<Rightarrow> entry set" where
  "own c xs = (\<lambda>x. (x, c)) ` xs"

lemma ensure_loop:
  assumes "ad_comment A pk (JStr ak) = Inr c" and "good (device s)" and "\<forall>x \<in> set xs. nf (JStr x) = Inr x"
    and "ensure_each A dk pk ak xs s = (r, t)"
  shows "good (device t) \<and> view (device s) \<subseteq> view (device t)
    \<and> view (device t) \<subseteq> view (device s) \<union> own c (set xs)
    \<and> (r = Inr () \<longrightarrow> view (device t) = view (device s) \<union> own c (set xs))"
  using assms(2-)
proof (induction xs arbitrary: s)
  case Nil
  then show ?case by (auto simp: ret_def own_def)
next
  case (Cons x xs)
  obtain r1 d where step: "ad_ensure A dk (JStr x) pk (JStr ak) (device s) = (r1, d)" by (rule prod.exhaust)
  have x: "nf (JStr x) = Inr x" using Cons.prems by simp
  show ?case
  proof (cases r1)
    case (Inl e)
    with Cons.prems step have "t = s\<lparr>device := d\<rparr>" "r = Inl e" by (auto simp: prog_simps on_device_def)
    moreover have "good d" "view d \<in> {view (device s), insert (x, c) (view (device s))}"
      using ensure_err [OF Cons.prems(1) step [unfolded Inl]] x assms(1) by auto
    ultimately show ?thesis by (auto simp: own_def)
  next
    case (Inr res)
    with Cons.prems step have rest: "ensure_each A dk pk ak xs
        (s\<lparr>device := d\<rparr>) = (r, t)" by (auto simp: prog_simps on_device_def)
    have "good d" "view d = insert (x, c) (view (device s))"
      using ensure_ok [OF Cons.prems(1) step [unfolded Inr]] x assms(1) by auto
    with Cons.IH [OF _ _ rest] Cons.prems(2) show ?thesis by (auto simp: own_def)
  qed
qed

lemma remove_loop:
  assumes "ad_comment A pk (JStr ak) = Inr c" and "good (device s)" and "\<forall>x \<in> set xs. nf (JStr x) = Inr x"
    and "remove_each A dk pk ak xs s = (r, t)"
  shows "good (device t) \<and> view (device t) \<subseteq> view (device s)
    \<and> view (device s) - own c (set xs) \<subseteq> view (device t)
    \<and> (r = Inr () \<longrightarrow> view (device t) = view (device s) - own c (set xs))"
  using assms(2-)
proof (induction xs arbitrary: s)
  case Nil
  then show ?case by (auto simp: ret_def own_def)
next
  case (Cons x xs)
  obtain r1 d where step: "ad_remove A dk (JStr x) pk (JStr ak) (device s) = (r1, d)" by (rule prod.exhaust)
  have x: "nf (JStr x) = Inr x" using Cons.prems by simp
  show ?case
  proof (cases r1)
    case (Inl e)
    with Cons.prems step have "t = s\<lparr>device := d\<rparr>" "r = Inl e" by (auto simp: prog_simps on_device_def)
    moreover have "good d" "view d \<in> {view (device s), view (device s) - {(x, c)}}"
      using remove_err [OF Cons.prems(1) step [unfolded Inl]] x assms(1) by auto
    ultimately show ?thesis by (auto simp: own_def)
  next
    case (Inr res)
    with Cons.prems step have rest: "remove_each A dk pk ak xs
        (s\<lparr>device := d\<rparr>) = (r, t)" by (auto simp: prog_simps on_device_def)
    have "good d" "view d = view (device s) - {(x, c)}"
      using remove_ok [OF Cons.prems(1) step [unfolded Inr]] x assms(1) by auto
    with Cons.IH [OF _ _ rest] Cons.prems(2) show ?thesis by (auto simp: own_def)
  qed
qed

lemma listed_addresses:
  assumes "good d" and "ad_list A t d = (Inr rows, d')" and "ad_comment A pk ak = Inr c"
  shows "set (addresses_for L c rows) = {a. (a, c) \<in> view d}"
proof -
  have "set (addresses_for L c rows)
      = {a. (a, c) \<in> (\<lambda>row. (col L row ''address'', col L row ''comment'')) ` set rows}"
    by (auto simp: addresses_for_def)
  then show ?thesis
    unfolding list_rows [OF assms(1,2)] using comment_managed [OF assms(3)] by auto
qed

lemma set_sorted_diff [simp]: "set (sorted_diff xs ys) = set xs - set ys"
  by (auto simp: sorted_diff_def)

lemma converge_effect:
  assumes c: "ad_comment A pk (JStr ak) = Inr c" and g: "good (device s)"
    and nf: "\<forall>x \<in> set expected. nf (JStr x) = Inr x" "\<forall>x. (x, c) \<in> view (device s) \<longrightarrow> nf (JStr x) = Inr x"
    and run: "converge L A dk pk ak expected s = (r, t)"
  shows "good (device t)
    \<and> (\<forall>a c'. c' \<noteq> c \<longrightarrow> ((a, c') \<in> view (device t) \<longleftrightarrow> (a, c') \<in> view (device s)))
    \<and> (view (device s) \<subseteq> view (device t) \<or> own c (set expected) \<subseteq> view (device t))
    \<and> (r = Inr () \<longrightarrow> {a. (a, c) \<in> view (device t)} = set expected)"
proof -
  obtain r1 d1 where l1: "ad_list A dk (device s) = (r1, d1)" by (rule prod.exhaust)
  have d1: "good d1" "view d1 = view (device s)" using list_frame [OF g l1] by auto
  show ?thesis
  proof (cases r1)
    case (Inl e)
    with run c l1 have "t = s\<lparr>device := d1\<rparr>" "r = Inl e" by (auto simp: converge_def prog_simps on_device_def)
    with d1 show ?thesis by auto
  next
    case (Inr rows)
    note ex = listed_addresses [OF g l1 [unfolded Inr] c]
    define ens where "ens = (ensure_each A dk pk ak (sorted_diff expected (addresses_for L c rows)) :: ('d netops, unit) prog)"
    define rm where "rm = (remove_each A dk pk ak (sorted_diff (addresses_for L c rows) expected) :: ('d netops, unit) prog)"
    obtain r2 s2 where e: "ens (s\<lparr>device := d1\<rparr>) = (r2, s2)" by (rule prod.exhaust)
    have E: "good (device s2) \<and> view (device s) \<subseteq> view (device s2)
      \<and> view (device s2) \<subseteq> view (device s) \<union> own c (set expected - {a. (a, c) \<in> view (device s)})
      \<and> (r2 = Inr () \<longrightarrow> view (device s2) = view (device s) \<union> own c (set expected - {a. (a, c) \<in> view (device s)}))"
      using ensure_loop [OF c _ _ e [unfolded ens_def]] d1 nf(1) ex by simp
    obtain r3 d3 where l2: "ad_list A dk (device s2) = (r3, d3)" by (rule prod.exhaust)
    have d3: "good d3" "view d3 = view (device s2)" using list_frame [OF _ l2] E by auto
    show ?thesis
    proof (cases "r2 = Inr () \<and> (\<exists>rows'. r3 = Inr rows' \<and> set expected \<subseteq> set (addresses_for L c rows'))")
      case False
      then have "device t \<in> {device s2, d3}" "r \<noteq> Inr ()"
        using run c l1 Inr e l2
        by (auto simp: converge_def Let_def ens_def [symmetric] rm_def [symmetric] bind_def seq_def lift_def raise_def
            on_device_def split: sum.splits if_splits)
      with E d3 show ?thesis by (auto simp: own_def)
    next
      case True
      then obtain rows' where r3: "r3 = Inr rows'" and sub: "set expected \<subseteq> set (addresses_for L c rows')" by blast
      have run3: "rm (s2\<lparr>device := d3\<rparr>) = (r, t)"
        using run c l1 Inr e l2 True r3
        by (auto simp: converge_def Let_def ens_def [symmetric] rm_def [symmetric] bind_def seq_def lift_def on_device_def)
      have R: "good (device t) \<and> view (device t) \<subseteq> view d3
          \<and> view d3 - own c ({a. (a, c) \<in> view (device s)} - set expected) \<subseteq> view (device t)
          \<and> (r = Inr () \<longrightarrow> view (device t) = view d3 - own c ({a. (a, c) \<in> view (device s)} - set expected))"
        using remove_loop [OF c _ _ run3 [unfolded rm_def]] d3 nf(2) ex by simp
      from True E d3 have "view d3 = view (device s) \<union> own c (set expected - {a. (a, c) \<in> view (device s)})" by simp
      with R show ?thesis by (auto simp: own_def)
    qed
  qed
qed

end

text \<open>C14: A plan that verified is on the device. When \<open>verify_plan\<close> answers \<open>verified\<close>, then at that moment, for every
  step of the plan, the entry the step is about (its address with the owner's comment) is among the
  enforced entries exactly if the step was to ensure it; verification itself did not change the entries,
  and the plan is now verified.\<close>

theorem verified_plan_on_device:
  assumes "device_adapter L A view nf good" and "good (device s)"
    and "find_plan (plans s) k = Some p" and "verify_plan L A k probe s = (Inr j, t)"
    and "get j ''status'' = JStr ''verified''"
  shows "(\<forall>st \<in> set (steps_of s (pl_id p)). \<exists>req e. loads (st_request_json st) = Inr req
      \<and> expected_entry L A k req = Inr e
      \<and> (e \<in> view (device t) \<longleftrightarrow> st_operation st = ''ensure_address_list_entry''))
    \<and> view (device t) = view (device s) \<and> (\<exists>q. find_plan (plans t) k = Some q \<and> pl_status q = Verified)"
  using device_adapter.verify_plan_sound [OF assms] device_adapter.step_matches_def [OF assms(1)] by auto

text \<open>C13: Reconciliation of one policy adds before it removes. Whatever happens, the entries of other owners stay as
  they are, and an old entry of the policy has disappeared only if every expected address is enforced.
  When it succeeds, the addresses enforced for the policy are exactly the expected ones. The addresses
  are assumed to be in the normal form the adapter writes.\<close>

theorem reconcile_adds_before_removing:
  assumes "device_adapter L A view nf good" and "good (device s)"
    and "ad_comment A pk (JStr ak) = Inr c"
    and "\<forall>x \<in> set expected. nf (JStr x) = Inr x" and "\<forall>x. (x, c) \<in> view (device s) \<longrightarrow> nf (JStr x) = Inr x"
    and "converge L A dk pk ak expected s = (r, t)"
  shows "(\<forall>a c'. c' \<noteq> c \<longrightarrow> ((a, c') \<in> view (device t) \<longleftrightarrow> (a, c') \<in> view (device s)))
    \<and> (view (device s) \<subseteq> view (device t) \<or> (\<lambda>x. (x, c)) ` set expected \<subseteq> view (device t))
    \<and> (r = Inr () \<longrightarrow> {a. (a, c) \<in> view (device t)} = set expected)"
  using device_adapter.converge_effect [OF assms(1,3,2,4,5,6)] device_adapter.own_def [OF assms(1)] by simp

text \<open>C15: Nobody keeps a device locked. Whatever happens while a plan is applied or rolled back or policies are
  reconciled (success, a failed step, an exception of the adapter, of the preflight or of the database
  layer), when the operation is over the lock table holds no row that it did not hold before. The
  hypothesis is that the functions passed in do not themselves touch the lock table.\<close>

theorem executor_releases_locks:
  assumes "\<And>p. confined (same rest_locks) (preflight p)" and "\<And>po. confined (same rest_locks) (resolve po)"
    and "(r, t) \<in> {apply_plan L E A k preflight s, rollback_plan L E A k probe s,
      reconcile_desired_policies L E A resolve limit s}"
  shows "set (locks t) \<subseteq> set (locks s)"
proof -
  from assms(3) consider "apply_plan L E A k preflight s = (r, t)" | "rollback_plan L E A k probe s = (r, t)"
    | "reconcile_desired_policies L E A resolve limit s = (r, t)" by force
  then have "released s t"
  proof cases
    case 1
    show ?thesis by (rule confinedD [OF released_apply_plan 1]) (rule assms)
  next
    case 2
    show ?thesis by (rule confinedD [OF released_rollback_plan 2])
  next
    case 3
    show ?thesis by (rule confinedD [OF released_reconcile 3]) (rule assms)
  qed
  then show ?thesis by (simp add: released_def)
qed

section \<open>A concrete run\<close>

text \<open>One approved plan with one step, in front of a simulated router with a valid anchor.\<close>

definition demo_request_json :: json where
  "demo_request_json = JObj [(''address'', JStr ''10.0.0.5''), (''asset_key'', JStr ''a1''), (''policy_key'', JStr ''p1'')]"

definition demo_plan :: plan_row where
  "demo_plan = \<lparr>pl_id = 1, pl_key = ''plan-1'', pl_actor = ''user:7'', pl_reason = ''test'', pl_subject_type = ''asset'',
     pl_subject_key = ''a1'', pl_operation_type = ''internet_access_set'',
     pl_desired_state_json = Doc (JObj [(''internet_access'', JStr ''deny''), (''policy_key'', JStr ''p1'')]),
     pl_resolved_targets_json = Doc (JList []), pl_context_evidence_hash = replicate 64 CHR ''0'',
     pl_precheck_json = Doc (JObj []),
     pl_rollback_json = Doc (JObj [(''steps'', JList [JObj [(''operation'', JStr ''remove_address_list_entry''),
        (''target_key'', JStr ''gw''), (''request'', demo_request_json)]])]),
     pl_status = Approved, pl_created_at = ''T0'', pl_approved_at = Some ''T0'', pl_applied_at = None,
     pl_verified_at = None, pl_updated_at = ''T0'', pl_plan_basis_json = Doc (JObj []), pl_plan_basis_hash = [],
     pl_plan_schema_version = 1, pl_authorization_version = 1, pl_operation_version = 1\<rparr>"

definition demo_step :: step_row where
  "demo_step = \<lparr>st_id = 1, st_plan_id = 1, st_order = 0, st_adapter = ''mikrotik'', st_operation = ''ensure_address_list_entry'',
     st_target_key = ''gw'', st_request_json = Doc demo_request_json, st_result_json = Doc (JObj []), st_status = SPending\<rparr>"

definition demo_router :: "json list \<Rightarrow> sim_router" where
  "demo_router entries = \<lparr>sr_entries = entries, sr_rules = [demo_anchor], sr_next = 2\<rparr>"

definition demo_db :: "sim_router netops" where
  "demo_db = (empty_db (demo_router []))\<lparr>plans := [demo_plan], plan_steps := [demo_step]\<rparr>"

abbreviation demo_L :: pylib where
  "demo_L \<equiv> demo_lib (\<lambda>_. 0)"

definition demo_adapter :: "sim_router adapter" where
  "demo_adapter = mikrotik demo_L ''gw'' (sim_call demo_L)"

definition demo_os :: os_env where
  "demo_os = \<lparr>getpid = 100, os_kill = (\<lambda>pid. if pid = 7 then Signalled else NoSuchProcess)\<rparr>"

definition demo_probe :: "sim_router probe option" where
  "demo_probe = Some (\<lambda>asset expected d. Inr (JObj [(''asset_key'', JStr asset)]))"

lemma demo_contract:
  "device_adapter demo_L demo_adapter (\<lambda>d. entry_view demo_L (sr_entries d)) (adapter_ipv4 demo_L) (sim_good demo_L)"
  unfolding demo_adapter_def by (rule sim.dev.device_adapter_axioms)

lemma demo_good [simp]: "sim_good demo_L (demo_router [])"
  by (simp add: sim_good_def demo_router_def)

theorem apply_plan_refines_effect_witness:
  "\<exists>t. apply_plan demo_L demo_os demo_adapter ''plan-1'' (\<lambda>p. ret []) demo_db
       = (Inr (apply_response ''applied'' ''plan-1'' [1]), t)
     \<and> entry_view demo_L (sr_entries (device t)) =
         plan_effect demo_adapter (adapter_ipv4 demo_L) ''plan-1'' (steps_of demo_db 1)
           (entry_view demo_L (sr_entries (device demo_db)))"
proof -
  let ?run = "apply_plan demo_L demo_os demo_adapter ''plan-1'' (\<lambda>p. ret []) demo_db"
  have "fst ?run = Inr (apply_response ''applied'' ''plan-1'' [1])" by code_simp
  then obtain t where run: "?run = (Inr (apply_response ''applied'' ''plan-1'' [1]), t)" by (metis prod.collapse)
  have p: "find_plan (plans demo_db) ''plan-1'' = Some demo_plan" by code_simp
  from apply_plan_refines_effect [OF demo_contract _ _ p run]
  have "\<forall>j. Inr (apply_response ''applied'' ''plan-1'' [1]) = (Inr j :: json res) \<and> get j ''status'' = JStr ''applied'' \<longrightarrow>
      entry_view demo_L (sr_entries (device t)) = plan_effect demo_adapter (adapter_ipv4 demo_L) ''plan-1''
        (steps_of demo_db (pl_id demo_plan)) (entry_view demo_L (sr_entries (device demo_db)))"
    by (simp add: ret_def demo_db_def empty_db_def)
  with run show ?thesis by (simp add: apply_response_def get_default_def demo_plan_def)
qed

lemma demo_found [simp]: "find_plan (plans demo_db) ''plan-1'' = Some demo_plan"
  by code_simp

lemma demo_steps [simp]: "steps_of demo_db 1 = [demo_step]"
  by code_simp

lemma demo_plan_sel [simp]: "pl_id demo_plan = 1" "pl_status demo_plan = Approved"
  by (simp_all add: demo_plan_def)

text \<open>The same database while process 7 holds the lock of the gateway.\<close>

definition demo_busy :: "sim_router netops" where
  "demo_busy = demo_db\<lparr>locks := [\<lparr>lk_device_key = ''gw'', lk_holder = ''h'', lk_owner_pid = 7\<rparr>]\<rparr>"

theorem busy_device_refused_witness:
  "apply_plan demo_L demo_os demo_adapter ''plan-1'' (\<lambda>p. ret []) demo_busy =
     (Inl (ValueError ''device operation is already in progress''), demo_busy\<lparr>uuids := Suc (uuids demo_busy)\<rparr>)"
proof -
  have "(pl_status demo_plan = Approved \<longrightarrow> apply_plan demo_L demo_os demo_adapter ''plan-1'' (\<lambda>p. ret []) demo_busy =
      (Inl (ValueError ''device operation is already in progress''), demo_busy\<lparr>uuids := Suc (uuids demo_busy)\<rparr>))
    \<and> (pl_status demo_plan \<in> {Applied, Verified, Failed} \<and> loads (pl_rollback_json demo_plan) = Inr JNull
        \<and> is_list (get JNull ''steps'') \<longrightarrow>
      rollback_plan demo_L demo_os demo_adapter ''plan-1'' None demo_busy =
      (Inl (ValueError ''device operation is already in progress''), demo_busy\<lparr>uuids := Suc (uuids demo_busy)\<rparr>))"
  proof (rule busy_device_refused)
    show "find_plan (plans demo_busy) ''plan-1'' = Some demo_plan" by (simp add: demo_busy_def)
    show "remdups (map st_target_key (steps_of demo_busy (pl_id demo_plan))) = [''gw'']" by code_simp
    show "find (\<lambda>l. lk_device_key l = ''gw'') (locks demo_busy)
        = Some \<lparr>lk_device_key = ''gw'', lk_holder = ''h'', lk_owner_pid = 7\<rparr>" by (simp add: demo_busy_def)
  qed (simp_all add: demo_os_def)
  then show ?thesis by simp
qed

definition demo_lock :: "string \<times> string" where
  "demo_lock = (''gw'', ''uuid-0'')"

definition demo_locked :: "sim_router netops" where
  "demo_locked = snd (device_lock demo_L demo_os [demo_step] demo_db)"

lemma demo_locks: "device_lock demo_L demo_os (steps_of demo_db (pl_id demo_plan)) demo_db = (Inr demo_lock, demo_locked)"
proof -
  have "fst (device_lock demo_L demo_os [demo_step] demo_db) = Inr demo_lock" by code_simp
  then show ?thesis by (simp only: demo_locked_def demo_plan_sel demo_steps prod_eq_iff fst_conv snd_conv)
qed

lemma demo_failed: "\<exists>row s3. transition_plan demo_L ''plan-1'' Failed demo_locked = (Inr row, s3)"
proof -
  have "isl (fst (transition_plan demo_L ''plan-1'' Failed demo_locked)) = False" by code_simp
  moreover obtain r t where "transition_plan demo_L ''plan-1'' Failed demo_locked = (r, t)" by (rule prod.exhaust)
  ultimately show ?thesis by (cases r) auto
qed

theorem apply_gate_witness:
  "fst (apply_plan demo_L demo_os demo_adapter ''plan-1'' (\<lambda>p. ret [''plan_expired'']) demo_db)
     = Inr (stale_response ''plan-1'' [''plan_expired''])
   \<and> device (snd (apply_plan demo_L demo_os demo_adapter ''plan-1'' (\<lambda>p. ret [''plan_expired'']) demo_db)) = device demo_locked"
proof -
  obtain row s3 where "transition_plan demo_L ''plan-1'' Failed demo_locked = (Inr row, s3)"
    using demo_failed by blast
  with apply_gate [OF demo_found, of demo_L demo_os demo_adapter "\<lambda>p. ret [''plan_expired'']" demo_lock demo_locked
      "[''plan_expired'']" demo_locked row s3] demo_locks
  show ?thesis by (simp add: ret_def)
qed

theorem apply_preflight_exception_escapes_witness:
  "fst (apply_plan demo_L demo_os demo_adapter ''plan-1'' (\<lambda>p. raise DatabaseError) demo_db) = Inl UnboundLocalError"
  using apply_preflight_exception_escapes [OF demo_found demo_plan_sel(2) demo_locks,
      of "\<lambda>p. raise DatabaseError" DatabaseError demo_locked demo_adapter]
  by (simp add: raise_def)

text \<open>The database after the plan was applied.\<close>

definition demo_applied :: "sim_router netops" where
  "demo_applied = snd (apply_plan demo_L demo_os demo_adapter ''plan-1'' (\<lambda>p. ret []) demo_db)"

theorem verified_plan_on_device_witness:
  "\<exists>t. verify_plan demo_L demo_adapter ''plan-1'' demo_probe demo_applied
       = (Inr (JObj [(''status'', JStr ''verified''), (''plan_key'', JStr ''plan-1'')]), t)
     \<and> (\<exists>q. find_plan (plans t) ''plan-1'' = Some q \<and> pl_status q = Verified)"
proof -
  let ?j = "JObj [(''status'', JStr ''verified''), (''plan_key'', JStr ''plan-1'')]"
  have "fst (verify_plan demo_L demo_adapter ''plan-1'' demo_probe demo_applied) = Inr ?j" by code_simp
  then obtain t where run: "verify_plan demo_L demo_adapter ''plan-1'' demo_probe demo_applied = (Inr ?j, t)"
    by (metis prod.collapse)
  have "find_plan (plans demo_applied) ''plan-1'' \<noteq> None" by code_simp
  then obtain p where p: "find_plan (plans demo_applied) ''plan-1'' = Some p" by blast
  have "sim_good demo_L (device demo_applied)" by code_simp
  from verified_plan_on_device [OF demo_contract this p run] run show ?thesis by (simp add: get_default_def)
qed

theorem reconcile_adds_before_removing_witness:
  "\<exists>t. converge demo_L demo_adapter ''gw'' ''p1'' ''a1'' [''10.0.0.9''] (empty_db (demo_router [demo_entry])) = (Inr (), t)
     \<and> {a. (a, ''web_ovpn:policy:p1:asset:a1'') \<in> entry_view demo_L (sr_entries (device t))} = {''10.0.0.9''}"
proof -
  let ?s = "empty_db (demo_router [demo_entry])"
  have "fst (converge demo_L demo_adapter ''gw'' ''p1'' ''a1'' [''10.0.0.9''] ?s) = Inr ()" by code_simp
  then obtain t where run: "converge demo_L demo_adapter ''gw'' ''p1'' ''a1'' [''10.0.0.9''] ?s = (Inr (), t)"
    by (metis prod.collapse)
  have good: "sim_good demo_L (device ?s)" by code_simp
  have c: "ad_comment demo_adapter ''p1'' (JStr ''a1'') = Inr ''web_ovpn:policy:p1:asset:a1''" by code_simp
  have "adapter_ipv4 demo_L (JStr ''10.0.0.9'') = Inr ''10.0.0.9''" "adapter_ipv4 demo_L (JStr ''10.0.0.5'') = Inr ''10.0.0.5''"
    by code_simp+
  moreover have "entry_view demo_L (sr_entries (device ?s)) = {(''10.0.0.5'', ''web_ovpn:policy:p1:asset:a1'')}"
    by code_simp
  ultimately show ?thesis
    using reconcile_adds_before_removing [OF demo_contract good c _ _ run] run by auto
qed

theorem executor_releases_locks_witness:
  "locks (snd (apply_plan demo_L demo_os demo_adapter ''plan-1'' (\<lambda>p. ret []) demo_db)) = []"
proof -
  have "set (locks (snd (apply_plan demo_L demo_os demo_adapter ''plan-1'' (\<lambda>p. ret []) demo_db))) \<subseteq> set (locks demo_db)"
    by (rule executor_releases_locks [where preflight = "\<lambda>p. ret []" and resolve = "\<lambda>po. raise DatabaseError" and limit = 1
          and probe = None and L = demo_L and E = demo_os and A = demo_adapter and k = "''plan-1''" and s = demo_db
          and r = "fst (apply_plan demo_L demo_os demo_adapter ''plan-1'' (\<lambda>p. ret []) demo_db)"])
      (simp_all add: sm.w_ret sm.w_raise)
  then show ?thesis by (simp add: demo_db_def empty_db_def)
qed

end
