(* ===== verification/Audit_Chain.thy ===== *)
theory Audit_Chain
  imports Plan_Store
begin

text \<open>
  The signed, hash-chained audit log of the broker (\<open>netopsctl/audit.py\<close>) and the checkpoints
  that carry its head to an independent host (\<open>netopsctl/checkpoint.py\<close>). The table
  \<open>audit_events\<close> is the field of that name of the broker's world; appending returns an exception
  when one of its uniqueness constraints fails. Hashing and Ed25519 are parameters.

  Shown here: appending to a log that verifies gives a log that verifies; appending never alters
  what was written; two logs that verify and end in the same head are the same log, unless the hash
  function collides on the texts the two logs hash.
\<close>

section \<open>Hashes\<close>

definition GENESIS_HASH :: string where
  "GENESIS_HASH = ''sha256:'' @ replicate 64 CHR ''0''"

definition canonical_json :: "pylib \<Rightarrow> json \<Rightarrow> string" where
  "canonical_json L v = dumps (float_repr L) False v"

definition hash_text :: "pylib \<Rightarrow> string \<Rightarrow> string" where
  "hash_text L t = ''sha256:'' @ sha256 L t"

record audit_signer =
  key_id :: string
  private_key :: string

definition event_body :: "int \<Rightarrow> string \<Rightarrow> string \<Rightarrow> string \<Rightarrow> string \<Rightarrow> json" where
  "event_body seq_no previous_hash payload_hash event_type created_at = JObj
     [(''sequence'', JInt seq_no), (''previous_hash'', JStr previous_hash),
      (''payload_hash'', JStr payload_hash), (''event_type'', JStr event_type),
      (''created_at'', JStr created_at)]"

definition event_hash :: "pylib \<Rightarrow> int \<Rightarrow> string \<Rightarrow> string \<Rightarrow> string \<Rightarrow> string \<Rightarrow> string" where
  "event_hash L seq_no previous_hash payload_hash event_type created_at =
     hash_text L (canonical_json L (event_body seq_no previous_hash payload_hash event_type created_at))"

section \<open>Appending\<close>

text \<open>\<open>SELECT ... ORDER BY sequence DESC LIMIT 1\<close>.\<close>

definition last_event :: "audit_row list \<Rightarrow> audit_row option" where
  "last_event rows = (case sort_key au_sequence rows of [] \<Rightarrow> None | x # xs \<Rightarrow> Some (last (x # xs)))"

definition insert_event :: "audit_row \<Rightarrow> ('d netops, unit) prog" where
  "insert_event r s =
     (if au_sequence r \<in> au_sequence ` set (audit_events s)
         \<or> au_event_id r \<in> au_event_id ` set (audit_events s)
         \<or> au_event_hash r \<in> au_event_hash ` set (audit_events s)
      then (Inl IntegrityError, s)
      else (Inr (), s\<lparr>audit_events := audit_events s @ [r]\<rparr>))"

definition append_event ::
    "pylib \<Rightarrow> audit_signer \<Rightarrow> string \<Rightarrow> json \<Rightarrow> ('d netops, json) prog" where
  "append_event L signer event_type payload =
     (if event_type = [] \<or> 120 < length event_type then raise (ValueError ''invalid audit event type'')
      else if \<not> is_dict payload then raise (ValueError ''audit payload must be an object'')
      else bind (gets (\<lambda>s. last_event (audit_events s))) (\<lambda>row.
        let seq_no = (case row of None \<Rightarrow> 1 | Some r \<Rightarrow> au_sequence r + 1);
            previous_hash = (case row of None \<Rightarrow> GENESIS_HASH | Some r \<Rightarrow> au_event_hash r) in
        bind (utc_now L) (\<lambda>created_at.
        let payload_hash = hash_text L (canonical_json L payload);
            eh = event_hash L seq_no previous_hash payload_hash event_type created_at;
            signature = ed25519_sign L (private_key signer) eh in
        bind (fresh_uuid L) (\<lambda>event_id.
        seq (insert_event \<lparr>au_sequence = seq_no, au_event_id = event_id, au_event_type = event_type,
               au_created_at = created_at, au_payload_hash = payload_hash,
               au_previous_hash = previous_hash, au_event_hash = eh, au_signer_key_id = key_id signer,
               au_signature = signature, au_payload_json = Doc payload\<rparr>)
          (ret (JObj [(''sequence'', JInt seq_no), (''event_id'', JStr event_id),
             (''event_hash'', JStr eh)]))))))"

section \<open>Verification\<close>

definition check_event ::
    "pylib \<Rightarrow> (string \<rightharpoonup> string) \<Rightarrow> int \<Rightarrow> string \<Rightarrow> audit_row \<Rightarrow> string res" where
  "check_event L public_keys expected_sequence previous_hash row =
     (if au_sequence row \<noteq> expected_sequence \<or> au_previous_hash row \<noteq> previous_hash
      then Inl (ValueError ''audit chain sequence or previous hash mismatch'')
      else case loads (au_payload_json row) of
        Inl _ \<Rightarrow> Inl (ValueError ''invalid audit payload'')
      | Inr payload \<Rightarrow>
          if \<not> is_dict payload \<or> hash_text L (canonical_json L payload) \<noteq> au_payload_hash row
          then Inl (ValueError ''audit payload hash mismatch'')
          else let actual = event_hash L (au_sequence row) previous_hash (au_payload_hash row)
                   (au_event_type row) (au_created_at row) in
            if actual \<noteq> au_event_hash row then Inl (ValueError ''audit event hash mismatch'')
            else case public_keys (au_signer_key_id row) of
              None \<Rightarrow> Inl (ValueError ''unknown audit signer key'')
            | Some key \<Rightarrow>
                if ed25519_verify L key (au_signature row) actual then Inr actual
                else Inl (ValueError ''invalid audit event signature''))"

fun check_events ::
    "pylib \<Rightarrow> (string \<rightharpoonup> string) \<Rightarrow> int \<Rightarrow> string \<Rightarrow> audit_row list \<Rightarrow> string res" where
  "check_events L keys n prev [] = Inr prev"
| "check_events L keys n prev (row # rows) =
     rbind (check_event L keys n prev row) (\<lambda>h. check_events L keys (n + 1) h rows)"

definition verify_chain :: "pylib \<Rightarrow> (string \<rightharpoonup> string) \<Rightarrow> audit_row list \<Rightarrow> json res" where
  "verify_chain L keys events = (let rows = sort_key au_sequence events in
     rbind (check_events L keys 1 GENESIS_HASH rows) (\<lambda>_.
       Inr (JObj [(''valid'', JBool True), (''events'', JInt (int (length rows)))])))"

section \<open>Checkpoints\<close>

definition checkpoint_body :: "audit_signer \<Rightarrow> string \<Rightarrow> audit_row list \<Rightarrow> string \<Rightarrow> json" where
  "checkpoint_body signer instance_id events created_at = JObj
     [(''instance_id'', JStr instance_id),
      (''last_sequence'', JInt (case last_event events of None \<Rightarrow> 0 | Some r \<Rightarrow> au_sequence r)),
      (''chain_head'', JStr (case last_event events of
          None \<Rightarrow> ''sha256:'' @ replicate 64 CHR ''0'' | Some r \<Rightarrow> au_event_hash r)),
      (''key_id'', JStr (key_id signer)), (''created_at'', JStr created_at)]"

text \<open>The signature of a checkpoint is the base64 text of the Ed25519 signature, which the
  parameter \<open>ed25519_sign\<close> stands for.\<close>

definition build_checkpoint :: "pylib \<Rightarrow> audit_signer \<Rightarrow> string \<Rightarrow> ('d netops, json) prog" where
  "build_checkpoint L signer instance_id =
     (if instance_id = [] \<or> 120 < length instance_id
      then raise (ValueError ''invalid checkpoint instance id'')
      else bind (gets audit_events) (\<lambda>events.
        bind (utc_now L) (\<lambda>created_at.
        let body = checkpoint_body signer instance_id events created_at in
        ret (set_field body ''signature''
          (JStr (ed25519_sign L (private_key signer) (canonical_json L body)))))))"

record audit_sink =
  sink_instance_id :: string
  sink_host :: string
  sink_identity_file :: string
  sink_known_hosts :: string

text \<open>\<open>deliver_checkpoint\<close>: the transport \<open>up\<close> tells whether the ssh command succeeds for the
  checkpoints delivered so far; a delivered checkpoint is appended to the sink.\<close>

definition deliver_checkpoint ::
    "(json list \<Rightarrow> json \<Rightarrow> bool) \<Rightarrow> audit_sink \<Rightarrow> json \<Rightarrow> ('d netops, unit) prog" where
  "deliver_checkpoint up sink checkpoint =
     (if sink_host sink = [] \<or> sink_identity_file sink = [] \<or> sink_known_hosts sink = []
      then raise (ValueError ''audit checkpoint destination is not configured'')
      else bind (gets delivered) (\<lambda>sent.
        if up sent checkpoint then modify (\<lambda>s. s\<lparr>delivered := delivered s @ [checkpoint]\<rparr>)
        else raise (RuntimeError ''audit checkpoint delivery failed'')))"

section \<open>What a verified log is\<close>

inductive chained :: "pylib \<Rightarrow> (string \<rightharpoonup> string) \<Rightarrow> int \<Rightarrow> string \<Rightarrow> audit_row list \<Rightarrow> string \<Rightarrow> bool"
  for L keys where
  chained_Nil: "chained L keys n prev [] prev"
| chained_Cons: "check_event L keys n prev row = Inr h \<Longrightarrow> chained L keys (n + 1) h rows head \<Longrightarrow>
    chained L keys n prev (row # rows) head"

inductive_simps chained_Nil_iff [simp]: "chained L keys n prev [] head"
inductive_simps chained_Cons_iff: "chained L keys n prev (row # rows) head"

lemma chained_iff: "check_events L keys n prev rows = Inr head \<longleftrightarrow> chained L keys n prev rows head"
proof (induction rows arbitrary: n prev)
  case (Cons row rows)
  then show ?case
    by (simp only: check_events.simps rbind_Inr_iff chained_Cons_iff)
qed auto

lemma check_eventD:
  assumes "check_event L keys n prev row = Inr h"
  obtains payload where "au_payload_json row = Doc payload" and "is_dict payload"
    and "au_payload_hash row = hash_text L (canonical_json L payload)"
    and "h = event_hash L n prev (au_payload_hash row) (au_event_type row) (au_created_at row)"
    and "au_sequence row = n" and "au_previous_hash row = prev" and "au_event_hash row = h"
proof (cases "loads (au_payload_json row)")
  case (Inl e)
  with assms show thesis by (simp add: check_event_def split: if_splits)
next
  case (Inr payload)
  then have "au_payload_json row = Doc payload" by (cases "au_payload_json row") simp_all
  with assms show thesis
    by (intro that [of payload]) (simp_all add: check_event_def Let_def split: if_splits option.splits)
qed

lemma chained_sequence:
  "chained L keys n prev rows head \<Longrightarrow> map au_sequence rows = map (\<lambda>i. n + int i) [0..<length rows]"
proof (induction n prev rows head rule: chained.induct)
  case (chained_Cons n prev row h rows head)
  from chained_Cons.hyps(1) have "au_sequence row = n" by (rule check_eventD)
  moreover have "map (\<lambda>i. n + int i) [0..<length (row # rows)]
      = n # map (\<lambda>i. n + 1 + int i) [0..<length rows]"
    by (simp add: upt_conv_Cons map_Suc_upt [symmetric] algebra_simps del: upt_Suc map_Suc_upt)
  ultimately show ?case using chained_Cons.IH by simp
qed simp

lemma chained_head:
  "chained L keys n prev rows head \<Longrightarrow> rows \<noteq> [] \<Longrightarrow> au_event_hash (last rows) = head"
proof (induction n prev rows head rule: chained.induct)
  case (chained_Cons n prev row h rows head)
  from chained_Cons.hyps(1) have "au_event_hash row = h" by (rule check_eventD)
  with chained_Cons show ?case by (cases rows) auto
qed simp

lemma chained_snoc:
  "chained L keys n prev rows mid \<Longrightarrow> check_event L keys (n + int (length rows)) mid row = Inr head \<Longrightarrow>
    chained L keys n prev (rows @ [row]) head"
  by (induction n prev rows mid rule: chained.induct) (auto simp: chained_Cons_iff algebra_simps)

definition chain_ok :: "pylib \<Rightarrow> (string \<rightharpoonup> string) \<Rightarrow> audit_row list \<Rightarrow> bool" where
  "chain_ok L keys events \<longleftrightarrow> (\<exists>r. verify_chain L keys events = Inr r)"

lemma chain_ok_iff:
  "chain_ok L keys events \<longleftrightarrow> (\<exists>head. chained L keys 1 GENESIS_HASH (sort_key au_sequence events) head)"
  by (auto simp: chain_ok_def verify_chain_def rbind_Inr_iff chained_iff [symmetric])

section \<open>Appending keeps the log verifiable\<close>

lemma chain_ok_last:
  assumes "chained L keys 1 GENESIS_HASH (sort_key au_sequence events) head"
  shows "last_event events = None \<Longrightarrow> events = [] \<and> head = GENESIS_HASH"
    and "last_event events = Some r \<Longrightarrow> au_sequence r = int (length events) \<and> au_event_hash r = head"
proof -
  let ?rows = "sort_key au_sequence events"
  have len: "length ?rows = length events" by simp
  show "events = [] \<and> head = GENESIS_HASH" if "last_event events = None"
  proof -
    have "?rows = []" using that by (simp add: last_event_def split: list.splits)
    moreover from this have "events = []" using len by simp
    ultimately show ?thesis using assms by simp
  qed
  show "au_sequence r = int (length events) \<and> au_event_hash r = head" if "last_event events = Some r"
  proof -
    have ne: "?rows \<noteq> []" and r: "r = last ?rows"
      using that by (auto simp: last_event_def split: list.splits)
    have "au_sequence (last ?rows) = last (map au_sequence ?rows)" using ne by (simp add: last_map)
    also have "\<dots> = int (length ?rows)"
    proof -
      obtain k where "length events = Suc k" using ne len by (cases events) auto
      then show ?thesis unfolding chained_sequence [OF assms] by (simp add: last_map)
    qed
    finally show ?thesis using chained_head [OF assms ne] r len by simp
  qed
qed

lemma chain_ok_bounded:
  assumes "chained L keys 1 GENESIS_HASH (sort_key au_sequence events) head" and "r \<in> set events"
  shows "au_sequence r \<le> int (length events)"
proof -
  have "au_sequence r \<in> set (map au_sequence (sort_key au_sequence events))" using assms(2) by simp
  then show ?thesis unfolding chained_sequence [OF assms(1)] by auto
qed

lemma append_event_run:
  assumes "append_event L signer ty payload s = (Inr r, t)"
  obtains row where "audit_events t = audit_events s @ [row]" and "is_dict payload"
    and "au_sequence row = (case last_event (audit_events s) of None \<Rightarrow> 1 | Some r \<Rightarrow> au_sequence r + 1)"
    and "au_previous_hash row = (case last_event (audit_events s) of None \<Rightarrow> GENESIS_HASH | Some r \<Rightarrow> au_event_hash r)"
    and "au_payload_json row = Doc payload" and "au_payload_hash row = hash_text L (canonical_json L payload)"
    and "au_signer_key_id row = key_id signer"
    and "au_event_hash row = event_hash L (au_sequence row) (au_previous_hash row) (au_payload_hash row)
      (au_event_type row) (au_created_at row)"
    and "au_signature row = ed25519_sign L (private_key signer) (au_event_hash row)"
    and "au_event_type row = ty"
proof -
  have guards: "ty \<noteq> []" "\<not> 120 < length ty" "is_dict payload"
    using assms by (auto simp: append_event_def raise_def split: if_splits)
  show thesis
    using assms guards
    by (intro that [of "last (audit_events t)"])
      (auto simp: append_event_def insert_event_def fresh_uuid_def Let_def prog_simps split: if_splits)
qed

lemma append_event_chain:
  assumes sig: "keys (key_id signer) = Some pub"
      "\<And>m. ed25519_verify L pub (ed25519_sign L (private_key signer) m) m"
    and ok: "chain_ok L keys (audit_events s)"
    and run: "append_event L signer ty payload s = (Inr r, t)"
  shows "chain_ok L keys (audit_events t)"
proof -
  let ?es = "audit_events s"
  obtain head where head: "chained L keys 1 GENESIS_HASH (sort_key au_sequence ?es) head"
    using ok by (auto simp: chain_ok_iff)
  obtain row where t: "audit_events t = ?es @ [row]" and d: "is_dict payload"
    and sq: "au_sequence row = (case last_event ?es of None \<Rightarrow> 1 | Some r \<Rightarrow> au_sequence r + 1)"
    and pv: "au_previous_hash row = (case last_event ?es of None \<Rightarrow> GENESIS_HASH | Some r \<Rightarrow> au_event_hash r)"
    and row: "au_payload_json row = Doc payload"
      "au_payload_hash row = hash_text L (canonical_json L payload)" "au_signer_key_id row = key_id signer"
      "au_event_hash row = event_hash L (au_sequence row) (au_previous_hash row) (au_payload_hash row)
        (au_event_type row) (au_created_at row)"
      "au_signature row = ed25519_sign L (private_key signer) (au_event_hash row)"
    by (rule append_event_run [OF run])
  have sq': "au_sequence row = 1 + int (length ?es)" and pv': "au_previous_hash row = head"
    using sq pv chain_ok_last [OF head] by (cases "last_event ?es"; simp)+
  have check: "check_event L keys (1 + int (length ?es)) head row = Inr (au_event_hash row)"
    using sig by (simp add: check_event_def sq' pv' row d Let_def)
  have "sort_key au_sequence (?es @ [row]) = sort_key au_sequence ?es @ [row]"
    using chain_ok_bounded [OF head] sq' by (intro sort_key_snoc_max) force
  with chained_snoc [OF head, of row "au_event_hash row"] check show ?thesis
    by (auto simp: chain_ok_iff t)
qed

lemma append_event_error:
  "append_event L signer ty payload s = (Inl e, t) \<Longrightarrow> audit_events t = audit_events s"
  by (auto simp: append_event_def insert_event_def fresh_uuid_def Let_def prog_simps split: if_splits)

section \<open>Two logs with the same head\<close>

text \<open>The texts that the verification of a log hashes.\<close>

definition row_texts :: "pylib \<Rightarrow> audit_row \<Rightarrow> string set" where
  "row_texts L r = {canonical_json L (loads_or_dict (au_payload_json r)),
     canonical_json L (event_body (au_sequence r) (au_previous_hash r) (au_payload_hash r)
       (au_event_type r) (au_created_at r))}"

definition log_texts :: "pylib \<Rightarrow> audit_row list \<Rightarrow> string set" where
  "log_texts L rows = (\<Union>r \<in> set rows. row_texts L r)"

text \<open>The part of a row the chain protects: everything but the identifier and the signature.\<close>

definition same_event :: "pylib \<Rightarrow> audit_row \<Rightarrow> audit_row \<Rightarrow> bool" where
  "same_event L a b \<longleftrightarrow> au_sequence a = au_sequence b \<and> au_event_type a = au_event_type b
     \<and> au_created_at a = au_created_at b \<and> au_previous_hash a = au_previous_hash b
     \<and> au_event_hash a = au_event_hash b
     \<and> canonical_json L (loads_or_dict (au_payload_json a)) = canonical_json L (loads_or_dict (au_payload_json b))"

lemma hash_text_inj:
  "inj_on (sha256 L) A \<Longrightarrow> u \<in> A \<Longrightarrow> v \<in> A \<Longrightarrow> hash_text L u = hash_text L v \<Longrightarrow> u = v"
  by (auto simp: hash_text_def dest: inj_onD)

lemma event_body_inj:
  assumes "canonical_json L (event_body n p h ty c) = canonical_json L (event_body n' p' h' ty' c')"
  shows "n' = n \<and> p' = p \<and> h' = h \<and> ty' = ty \<and> c' = c"
proof -
  let ?kvs = "\<lambda>n p h ty c. [(''sequence'', JInt n), (''previous_hash'', JStr p),
      (''payload_hash'', JStr h), (''event_type'', JStr ty), (''created_at'', JStr c)]"
  have "float_free (event_body n p h ty c)" for n p h ty c by (simp add: event_body_def)
  then have "sortkeys (JObj (?kvs n p h ty c)) = sortkeys (JObj (?kvs n' p' h' ty' c'))"
    using assms unfolding canonical_json_def event_body_def by (blast intro: dumps_inj)
  then have "map_option sortkeys (map_of (?kvs n p h ty c) k) = map_option sortkeys (map_of (?kvs n' p' h' ty' c') k)"
    for k
    by (rule sortkeys_lookup) simp_all
  from this [of "''sequence''"] this [of "''previous_hash''"] this [of "''payload_hash''"]
    this [of "''event_type''"] this [of "''created_at''"]
  show ?thesis by simp
qed

lemma chained_snocD:
  "chained L keys n prev (rows @ [row]) head \<Longrightarrow>
     \<exists>mid. chained L keys n prev rows mid \<and> check_event L keys (n + int (length rows)) mid row = Inr head"
proof (induction rows arbitrary: n prev)
  case Nil
  then show ?case by (simp add: chained_Cons_iff)
next
  case (Cons r rows)
  then obtain h where h: "check_event L keys n prev r = Inr h" "chained L keys (n + 1) h (rows @ [row]) head"
    by (auto simp: chained_Cons_iff)
  from Cons.IH [OF h(2)] h(1) show ?case by (auto simp: chained_Cons_iff algebra_simps)
qed

lemma same_check:
  assumes x: "check_event L keys n p x = Inr h" and y: "check_event L keys n q y = Inr h"
    and inj: "inj_on (sha256 L) (row_texts L x \<union> row_texts L y)"
  shows "p = q \<and> same_event L x y"
proof -
  obtain u where u: "au_payload_json x = Doc u" "au_payload_hash x = hash_text L (canonical_json L u)"
      "h = event_hash L n p (au_payload_hash x) (au_event_type x) (au_created_at x)"
      "au_sequence x = n" "au_previous_hash x = p" "au_event_hash x = h"
    by (rule check_eventD [OF x])
  obtain v where v: "au_payload_json y = Doc v" "au_payload_hash y = hash_text L (canonical_json L v)"
      "h = event_hash L n q (au_payload_hash y) (au_event_type y) (au_created_at y)"
      "au_sequence y = n" "au_previous_hash y = q" "au_event_hash y = h"
    by (rule check_eventD [OF y])
  have "canonical_json L (event_body n p (au_payload_hash x) (au_event_type x) (au_created_at x))
      = canonical_json L (event_body n q (au_payload_hash y) (au_event_type y) (au_created_at y))"
    by (rule hash_text_inj [OF inj]) (use u v in \<open>auto simp: row_texts_def event_hash_def\<close>)
  from event_body_inj [OF this] have eq: "p = q" "au_payload_hash x = au_payload_hash y"
    "au_event_type x = au_event_type y" "au_created_at x = au_created_at y" by auto
  have "canonical_json L u = canonical_json L v"
    by (rule hash_text_inj [OF inj]) (use u v eq in \<open>auto simp: row_texts_def\<close>)
  with eq u v show ?thesis by (simp add: same_event_def)
qed

lemma same_log:
  assumes "length xs = length ys"
  shows "chained L keys n prev xs head \<Longrightarrow> chained L keys n prev ys head \<Longrightarrow>
    inj_on (sha256 L) (log_texts L xs \<union> log_texts L ys) \<Longrightarrow> list_all2 (same_event L) xs ys"
  using assms
proof (induction xs arbitrary: ys head rule: rev_induct)
  case (snoc x xs)
  from snoc.prems(4) obtain ys' y where ys: "ys = ys' @ [y]" by (cases ys rule: rev_cases) auto
  with snoc.prems have len: "length xs = length ys'" by simp
  obtain p where p: "chained L keys n prev xs p" "check_event L keys (n + int (length xs)) p x = Inr head"
    using chained_snocD snoc.prems(1) by blast
  obtain q where q: "chained L keys n prev ys' q" "check_event L keys (n + int (length xs)) q y = Inr head"
    using chained_snocD [of L keys n prev ys' y head] snoc.prems(2) ys len by auto
  have "inj_on (sha256 L) (row_texts L x \<union> row_texts L y)"
    by (rule inj_on_subset [OF snoc.prems(3)]) (auto simp: log_texts_def ys)
  from same_check [OF p(2) q(2) this] have eq: "p = q" "same_event L x y" by auto
  have "inj_on (sha256 L) (log_texts L xs \<union> log_texts L ys')"
    by (rule inj_on_subset [OF snoc.prems(3)]) (auto simp: log_texts_def ys)
  from snoc.IH [OF p(1) _ this len] q(1) eq ys len show ?case
    by (simp add: list_all2_append)
qed simp

section \<open>The guarantees of the log\<close>

lemma verify_chain_count:
  "chain_ok L keys events \<Longrightarrow> verify_chain L keys events =
     Inr (JObj [(''valid'', JBool True), (''events'', JInt (int (length events)))])"
  by (auto simp: chain_ok_def verify_chain_def Let_def rbind_Inr_iff)

lemma demo_verify [simp]:
  "ed25519_verify (demo_lib clk) k (ed25519_sign (demo_lib clk) k m) m"
  by (simp add: demo_lib_def)

lemma chain_ok_empty [simp]: "chain_ok L keys []"
  by (simp add: chain_ok_def verify_chain_def)

text \<open>C5: If the audit log verifies under a set of public keys that contains the signer's, then after
  a successful \<open>append_event\<close> it still verifies, with exactly one event more, and the rows that were
  there before are unchanged. The hypothesis on Ed25519 is its correctness: a signature made with
  the private key verifies under the public one.\<close>

theorem append_event_verifies:
  assumes "keys (key_id signer) = Some pub"
    and "\<And>m. ed25519_verify L pub (ed25519_sign L (private_key signer) m) m"
    and "verify_chain L keys (audit_events s) = Inr ok"
    and "append_event L signer ty payload s = (Inr r, t)"
  shows "verify_chain L keys (audit_events t) =
      Inr (JObj [(''valid'', JBool True), (''events'', JInt (int (length (audit_events s)) + 1))])
    \<and> prefix (audit_events s) (audit_events t)"
proof -
  obtain row where t: "audit_events t = audit_events s @ [row]"
    by (rule append_event_run [OF assms(4)])
  have "chain_ok L keys (audit_events t)"
    by (rule append_event_chain [of keys signer pub]) (use assms in \<open>auto simp: chain_ok_def\<close>)
  from verify_chain_count [OF this] show ?thesis by (simp add: t)
qed

definition demo_signer :: audit_signer where
  "demo_signer = \<lparr>key_id = ''audit-1'', private_key = ''k''\<rparr>"

theorem append_event_verifies_witness:
  "\<exists>r t. append_event (demo_lib (\<lambda>_. 0)) demo_signer ''started'' (JObj []) (empty_db ()) = (Inr r, t)
     \<and> verify_chain (demo_lib (\<lambda>_. 0)) [''audit-1'' \<mapsto> ''k''] (audit_events t) =
       Inr (JObj [(''valid'', JBool True), (''events'', JInt 1)])"
proof -
  let ?L = "demo_lib (\<lambda>_. 0)"
  obtain r t where run: "append_event ?L demo_signer ''started'' (JObj []) (empty_db ()) = (Inr r, t)"
    by (simp add: append_event_def insert_event_def fresh_uuid_def empty_db_def last_event_def Let_def
        prog_simps)
  have "verify_chain ?L [''audit-1'' \<mapsto> ''k''] (audit_events t) =
      Inr (JObj [(''valid'', JBool True), (''events'', JInt (int (length (audit_events (empty_db ()))) + 1))])
    \<and> prefix (audit_events (empty_db ())) (audit_events t)"
    by (rule append_event_verifies [OF _ _ _ run, where pub = "''k''"])
      (simp_all add: demo_signer_def demo_lib_def empty_db_def verify_chain_def)
  with run show ?thesis by (simp add: empty_db_def)
qed

lemma checkpoint_head:
  "get (checkpoint_body signer i es c) ''chain_head'' =
     JStr (case last_event es of None \<Rightarrow> GENESIS_HASH | Some r \<Rightarrow> au_event_hash r)"
  "get (checkpoint_body signer i es c) ''last_sequence'' =
     JInt (case last_event es of None \<Rightarrow> 0 | Some r \<Rightarrow> au_sequence r)"
  by (cases "last_event es"; simp add: checkpoint_body_def get_default_def GENESIS_HASH_def)+

text \<open>C4: Tamper evidence. Take two logs that both verify and whose checkpoints name the same last
  sequence number and the same chain head. If the hash function does not collide on the texts that
  the two logs hash, then the logs hold the same events: same order, types, times, hashes and
  payloads (payloads up to the order of keys, that is, with the same canonical text). A log that
  was edited, truncated in the middle or reordered after its head was delivered cannot pass.\<close>

theorem audit_log_tamper_evident:
  assumes "verify_chain L keys xs = Inr a" and "verify_chain L keys ys = Inr b"
    and "get (checkpoint_body signer i xs c) ''chain_head'' = get (checkpoint_body signer i ys d) ''chain_head''"
    and "get (checkpoint_body signer i xs c) ''last_sequence'' = get (checkpoint_body signer i ys d) ''last_sequence''"
    and "inj_on (sha256 L) (log_texts L xs \<union> log_texts L ys)"
  shows "list_all2 (same_event L) (sort_key au_sequence xs) (sort_key au_sequence ys)"
proof -
  obtain g where g: "chained L keys 1 GENESIS_HASH (sort_key au_sequence xs) g"
    using assms(1) chain_ok_iff chain_ok_def by blast
  obtain h where h: "chained L keys 1 GENESIS_HASH (sort_key au_sequence ys) h"
    using assms(2) chain_ok_iff chain_ok_def by blast
  have lens: "(case last_event zs of None \<Rightarrow> 0 | Some r \<Rightarrow> au_sequence r) = int (length zs)"
    "(case last_event zs of None \<Rightarrow> GENESIS_HASH | Some r \<Rightarrow> au_event_hash r) = k"
    if "chained L keys 1 GENESIS_HASH (sort_key au_sequence zs) k" for zs k
    using chain_ok_last [OF that] by (cases "last_event zs"; simp)+
  have "length xs = length ys" and "g = h"
    using assms(3,4) lens [OF g] lens [OF h]
    by (simp_all add: checkpoint_head)
  then show ?thesis
    using g h assms(5) by (intro same_log) (simp_all add: log_texts_def)
qed

theorem audit_log_tamper_evident_witness:
  "\<exists>r t. append_event (demo_lib (\<lambda>_. 0)) demo_signer ''started'' (JObj []) (empty_db ()) = (Inr r, t)
     \<and> list_all2 (same_event (demo_lib (\<lambda>_. 0)))
         (sort_key au_sequence (audit_events t)) (sort_key au_sequence (audit_events t))"
proof -
  let ?L = "demo_lib (\<lambda>_. 0)"
  obtain r t where run: "append_event ?L demo_signer ''started'' (JObj []) (empty_db ()) = (Inr r, t)"
    by (simp add: append_event_def insert_event_def fresh_uuid_def empty_db_def last_event_def Let_def
        prog_simps)
  have "chain_ok ?L [''audit-1'' \<mapsto> ''k''] (audit_events t)"
    by (rule append_event_chain [OF _ _ _ run, where pub = "''k''"])
      (simp_all add: demo_signer_def demo_lib_def empty_db_def)
  then obtain a where a: "verify_chain ?L [''audit-1'' \<mapsto> ''k''] (audit_events t) = Inr a"
    by (auto simp: chain_ok_def)
  have "list_all2 (same_event ?L) (sort_key au_sequence (audit_events t)) (sort_key au_sequence (audit_events t))"
    by (rule audit_log_tamper_evident [OF a a, where signer = demo_signer and i = "''i''" and c = "''c''" and d = "''c''"])
      (simp_all add: inj_on_def demo_lib_def)
  with run show ?thesis by blast
qed

end
