(* ===== verification/Broker_Protocol.thy ===== *)
theory Broker_Protocol
  imports Plan_Store
begin

text \<open>
  The wire protocol of the broker (\<open>netopsctl/protocol.py\<close>): framing and field checks of a request,
  validation of its payload per action, encoding of a response, and the client side of an exchange
  (\<open>netopsctl/client.py\<close>). A request arrives as a string of bytes; decoding UTF-8 and JSON is the
  parameter \<open>json_loads\<close>.

  A field of the wrong type is a branch of the model too: membership of a list or a dictionary in a
  set of strings raises \<open>TypeError\<close>.
\<close>

section \<open>Constants and records\<close>

definition PROTOCOL_VERSION :: int where
  "PROTOCOL_VERSION = 2"

definition MAX_REQUEST_BYTES :: nat where
  "MAX_REQUEST_BYTES = 16384"

definition MAX_RESPONSE_BYTES :: nat where
  "MAX_RESPONSE_BYTES = 16384"

definition ACTIONS :: "string list" where
  "ACTIONS = [''plan.create'', ''plan.inspect'', ''plan.approve'', ''plan.apply'', ''plan.verify'',
     ''plan.rollback'', ''policy.list'', ''policy.reconcile'', ''status'']"

definition plan_key_re :: "string \<Rightarrow> bool" where
  "plan_key_re = ident_match is_alnum (\<lambda>c. is_alnum c \<or> in_chars ''._-'' c) 127"

record broker_request =
  rq_request_id :: string
  rq_action :: string
  rq_payload :: json
  rq_authorization :: json
  rq_signature :: string

section \<open>Payloads\<close>

definition bounded_str :: "nat \<Rightarrow> json \<Rightarrow> bool" where
  "bounded_str n v \<longleftrightarrow> is_str v \<and> 1 \<le> length (str_value v) \<and> length (str_value v) \<le> n"

definition PLAN_KEY_ACTIONS :: "string list" where
  "PLAN_KEY_ACTIONS = [''plan.inspect'', ''plan.approve'', ''plan.apply'', ''plan.verify'', ''plan.rollback'']"

text \<open>\<open>{key: str(value) for key, value in plan.items()}\<close>, on the strings a checked plan holds.\<close>

definition stringify :: "json \<Rightarrow> json" where
  "stringify d = JObj (map (\<lambda>(k, v). (k, JStr (str_value v))) (items d))"

text \<open>The nested plan of \<open>plan.create\<close>; the conditions are tried from left to right.\<close>

definition validate_plan :: "json \<Rightarrow> json res" where
  "validate_plan plan = (let bad = Inl (ProtocolError ''unsafe plan-create payload'') in
     if keyset plan \<noteq> {''subject_type'', ''subject_key'', ''desired_state'', ''reason''} then bad
     else rbind (in_str_set (get plan ''subject_type'') [''asset'', ''user'']) (\<lambda>a.
       if \<not> a then bad
       else if \<not> bounded_str 240 (get plan ''subject_key'') then bad
       else rbind (in_str_set (get plan ''desired_state'') [''allow'', ''deny'']) (\<lambda>b.
         if \<not> b then bad
         else if \<not> bounded_str 1000 (get plan ''reason'') then bad
         else Inr (stringify plan))))"

definition validate_payload :: "string \<Rightarrow> json \<Rightarrow> json res" where
  "validate_payload action payload =
     (if \<not> is_dict payload then Inl (ProtocolError ''payload must be an object'')
      else if action \<in> {''status'', ''policy.list''} then
        (if truthy payload then Inl (ProtocolError (action @ '' does not accept payload'')) else Inr (JObj []))
      else if action \<in> set PLAN_KEY_ACTIONS then
        (if keyset payload \<noteq> {''plan_key''} \<or> \<not> is_str (get payload ''plan_key'')
            \<or> \<not> plan_key_re (str_value (get payload ''plan_key''))
         then Inl (ProtocolError ''invalid plan payload'')
         else Inr (JObj [(''plan_key'', get payload ''plan_key'')]))
      else if action = ''policy.reconcile'' then
        (let limit = get_default payload ''limit'' (JInt 64) in
         if \<not> keyset payload \<subseteq> {''limit''} \<or> \<not> isinstance_int limit
            \<or> \<not> (1 \<le> int_value limit \<and> int_value limit \<le> 256)
         then Inl (ProtocolError ''invalid reconcile payload'')
         else Inr (JObj [(''limit'', JInt (int_value limit))]))
      else if action = ''plan.create'' then
        (if keyset payload \<noteq> {''plan''} \<or> \<not> is_dict (get payload ''plan'')
         then Inl (ProtocolError ''invalid plan-create payload'')
         else rbind (validate_plan (get payload ''plan'')) (\<lambda>plan. Inr (JObj [(''plan'', plan)])))
      else Inl (ProtocolError ''unsupported action''))"

section \<open>Requests and responses\<close>

definition REQUEST_FIELDS :: "string set" where
  "REQUEST_FIELDS = {''protocol_version'', ''request_id'', ''action'', ''payload'', ''authorization'',
     ''signature''}"

definition signature_re :: "string \<Rightarrow> bool" where
  "signature_re = class_match (\<lambda>c. is_alnum c \<or> in_chars ''_-'' c) 16 256"

definition decode_value :: "pylib \<Rightarrow> json \<Rightarrow> broker_request res" where
  "decode_value L value =
     (if \<not> is_dict value \<or> keyset value \<noteq> REQUEST_FIELDS
      then Inl (ProtocolError ''unknown or missing request fields'')
      else if \<not> py_eq (get value ''protocol_version'') (JInt PROTOCOL_VERSION)
         \<or> \<not> is_str (get value ''request_id'')
      then Inl (ProtocolError ''unsupported protocol'')
      else if \<not> uuid_ok L (str_value (get value ''request_id''))
      then Inl (ProtocolError ''invalid request id'')
      else rbind (in_str_set (get value ''action'') ACTIONS) (\<lambda>known.
        if \<not> known then Inl (ProtocolError ''invalid action'')
        else if \<not> is_dict (get value ''authorization'') \<or> \<not> is_str (get value ''signature'')
           \<or> \<not> signature_re (str_value (get value ''signature''))
        then Inl (ProtocolError ''invalid authorization envelope'')
        else rbind (validate_payload (str_value (get value ''action'')) (get value ''payload'')) (\<lambda>payload.
          Inr \<lparr>rq_request_id = str_value (get value ''request_id''),
            rq_action = str_value (get value ''action''), rq_payload = payload,
            rq_authorization = get value ''authorization'',
            rq_signature = str_value (get value ''signature'')\<rparr>)))"

definition decode_request :: "pylib \<Rightarrow> string \<Rightarrow> broker_request res" where
  "decode_request L data =
     (if data = [] \<or> MAX_REQUEST_BYTES < length data \<or> CHR 0x0A \<in> set data \<or> CHR 0x0D \<in> set data
      then Inl (ProtocolError ''invalid request framing'')
      else case json_loads L data of
        None \<Rightarrow> Inl (ProtocolError ''invalid request JSON'')
      | Some value \<Rightarrow> decode_value L value)"

definition encode_response :: "pylib \<Rightarrow> json \<Rightarrow> string res" where
  "encode_response L value = (let encoded = dumps (float_repr L) True value in
     if MAX_RESPONSE_BYTES < length encoded \<or> CHR 0x0A \<in> set encoded \<or> CHR 0x0D \<in> set encoded
     then Inl (ProtocolError ''response exceeds protocol bounds'')
     else Inr encoded)"

text \<open>The request a client sends, and its check of the answer.\<close>

definition client_envelope :: "string \<Rightarrow> string \<Rightarrow> json \<Rightarrow> json \<Rightarrow> string \<Rightarrow> json" where
  "client_envelope request_id action payload authorization signature = JObj
     [(''protocol_version'', JInt PROTOCOL_VERSION), (''request_id'', JStr request_id),
      (''action'', JStr action), (''payload'', payload), (''authorization'', authorization),
      (''signature'', JStr signature)]"

definition client_accept :: "pylib \<Rightarrow> string \<Rightarrow> string \<Rightarrow> json res" where
  "client_accept L request_id response =
     (if response = [] \<or> MAX_RESPONSE_BYTES < length response
      then Inl (ProtocolError ''invalid broker response'')
      else case json_loads L response of
        None \<Rightarrow> Inl (ProtocolError ''invalid broker response'')
      | Some value \<Rightarrow>
          if \<not> is_dict value \<or> get value ''request_id'' \<noteq> JStr request_id
          then Inl (ProtocolError ''broker response correlation failed'')
          else Inr value)"

section \<open>Validation is idempotent\<close>

lemma in_str_set_Inr: "in_str_set v xs = Inr True \<longleftrightarrow> (\<exists>s. v = JStr s \<and> s \<in> set xs)"
  by (cases v) auto

lemma bounded_str_iff: "bounded_str n v \<longleftrightarrow> (\<exists>s. v = JStr s \<and> 1 \<le> length s \<and> length s \<le> n)"
  by (cases v) (auto simp: bounded_str_def)

lemma validate_plan_iff:
  "validate_plan plan = Inr q \<longleftrightarrow>
     keyset plan = {''subject_type'', ''subject_key'', ''desired_state'', ''reason''} \<and>
     in_str_set (get plan ''subject_type'') [''asset'', ''user''] = Inr True \<and>
     bounded_str 240 (get plan ''subject_key'') \<and>
     in_str_set (get plan ''desired_state'') [''allow'', ''deny''] = Inr True \<and>
     bounded_str 1000 (get plan ''reason'') \<and>
     q = stringify plan"
  unfolding validate_plan_def Let_def by (auto simp: rbind_Inr_iff)

lemma get_stringify: "k \<in> keyset d \<Longrightarrow> get (stringify d) k = JStr (str_value (get d k))"
proof -
  assume "k \<in> keyset d"
  then obtain v where "map_of (items d) k = Some v"
    unfolding keyset_def by (metis map_of_eq_None_iff image_set not_None_eq)
  then show ?thesis by (simp add: get_default_def stringify_def map_of_map)
qed

lemma stringify_simps [simp]:
  "keyset (stringify d) = keyset d" "stringify (stringify d) = stringify d" "is_dict (stringify d)"
  by (auto simp: stringify_def keyset_def image_image split_def)

lemma get_stringify_str: "k \<in> keyset d \<Longrightarrow> get d k = JStr s \<Longrightarrow> get (stringify d) k = JStr s"
  by (simp add: get_stringify)

lemma validate_plan_idem:
  assumes "validate_plan p = Inr q"
  shows "validate_plan q = Inr q"
proof -
  note p = assms [unfolded validate_plan_iff in_str_set_Inr bounded_str_iff]
  then obtain a b c d where "get p ''subject_type'' = JStr a" "get p ''subject_key'' = JStr b"
      "get p ''desired_state'' = JStr c" "get p ''reason'' = JStr d"
    by (elim conjE exE) (rule that)
  then have "get (stringify p) ''subject_type'' = JStr a" "get (stringify p) ''subject_key'' = JStr b"
      "get (stringify p) ''desired_state'' = JStr c" "get (stringify p) ''reason'' = JStr d"
    using p by (simp_all add: get_stringify_str)
  moreover have "q = stringify p" using p by (elim conjE)
  ultimately show ?thesis
    using assms \<open>get p ''subject_type'' = JStr a\<close> \<open>get p ''subject_key'' = JStr b\<close>
      \<open>get p ''desired_state'' = JStr c\<close> \<open>get p ''reason'' = JStr d\<close>
    unfolding validate_plan_iff by simp
qed

text \<open>What each action accepts.\<close>

lemma validate_payload_create:
  "validate_payload ''plan.create'' p = Inr q \<longleftrightarrow>
     is_dict p \<and> keyset p = {''plan''} \<and> is_dict (get p ''plan'') \<and>
     (\<exists>x. validate_plan (get p ''plan'') = Inr x \<and> q = JObj [(''plan'', x)])"
  by (auto simp: validate_payload_def PLAN_KEY_ACTIONS_def rbind_Inr_iff)

lemma validate_payload_plan_key:
  "a \<in> set PLAN_KEY_ACTIONS \<Longrightarrow> validate_payload a p = Inr q \<longleftrightarrow>
     is_dict p \<and> keyset p = {''plan_key''} \<and>
     (\<exists>k. get p ''plan_key'' = JStr k \<and> plan_key_re k \<and> q = JObj [(''plan_key'', JStr k)])"
proof -
  assume a: "a \<in> set PLAN_KEY_ACTIONS"
  then have "a \<noteq> ''status''" "a \<noteq> ''policy.list''" by (auto simp: PLAN_KEY_ACTIONS_def)
  with a show ?thesis by (cases "get p ''plan_key''") (auto simp: validate_payload_def)
qed

lemma validate_payload_reconcile:
  "validate_payload ''policy.reconcile'' p = Inr q \<longleftrightarrow>
     is_dict p \<and> keyset p \<subseteq> {''limit''} \<and> isinstance_int (get_default p ''limit'' (JInt 64)) \<and>
     (let i = int_value (get_default p ''limit'' (JInt 64)) in
       1 \<le> i \<and> i \<le> 256 \<and> q = JObj [(''limit'', JInt i)])"
  by (auto simp: validate_payload_def PLAN_KEY_ACTIONS_def Let_def)

lemma validate_payload_empty:
  "a \<in> {''status'', ''policy.list''} \<Longrightarrow> validate_payload a p = Inr q \<longleftrightarrow> p = JObj [] \<and> q = JObj []"
  by (cases p) (auto simp: validate_payload_def)

lemma validate_payload_action:
  "validate_payload a p = Inr q \<Longrightarrow> a \<in> {''status'', ''policy.list'', ''policy.reconcile'', ''plan.create''}
     \<or> a \<in> set PLAN_KEY_ACTIONS"
  unfolding validate_payload_def by (auto split: if_splits)

lemma validate_payload_idem:
  assumes run: "validate_payload a p = Inr q"
  shows "validate_payload a q = Inr q"
proof -
  consider (empty) "a \<in> {''status'', ''policy.list''}" | (plan) "a \<in> set PLAN_KEY_ACTIONS"
    | (rec) "a = ''policy.reconcile''" | (create) "a = ''plan.create''"
    using validate_payload_action [OF run] by blast
  then show ?thesis
  proof cases
    case empty
    from run show ?thesis unfolding validate_payload_empty [OF empty] by simp
  next
    case plan
    from run obtain k where "plan_key_re k" and q: "q = JObj [(''plan_key'', JStr k)]"
      unfolding validate_payload_plan_key [OF plan] by (elim conjE exE)
    then show ?thesis
      unfolding validate_payload_plan_key [OF plan] q by (simp add: keyset_def get_default_def)
  next
    case rec
    then show ?thesis
      using run unfolding rec validate_payload_reconcile by (auto simp: keyset_def get_default_def Let_def)
  next
    case create
    with run obtain x y where x: "validate_plan y = Inr x" and q: "q = JObj [(''plan'', x)]"
      unfolding create validate_payload_create by blast
    then have "is_dict x" by (simp add: validate_plan_iff)
    with validate_plan_idem [OF x] show ?thesis
      unfolding create validate_payload_create q by (simp add: keyset_def get_default_def)
  qed
qed

section \<open>What a decoded request satisfies\<close>

lemma decode_value_InrD:
  assumes "decode_value L v = Inr r"
  shows "is_dict v" and "keyset v = REQUEST_FIELDS" and "py_eq (get v ''protocol_version'') (JInt 2)"
    and "get v ''request_id'' = JStr (rq_request_id r)" and "uuid_ok L (rq_request_id r)"
    and "get v ''action'' = JStr (rq_action r)" and "rq_action r \<in> set ACTIONS"
    and "rq_authorization r = get v ''authorization''" and "is_dict (rq_authorization r)"
    and "get v ''signature'' = JStr (rq_signature r)" and "signature_re (rq_signature r)"
    and "validate_payload (rq_action r) (get v ''payload'') = Inr (rq_payload r)"
proof -
  have str: "is_str w \<Longrightarrow> w = JStr (str_value w)" for w by (cases w) simp_all
  have fields: "is_dict v" "keyset v = REQUEST_FIELDS" "py_eq (get v ''protocol_version'') (JInt 2)"
    "is_str (get v ''request_id'')" "uuid_ok L (str_value (get v ''request_id''))"
    using assms unfolding decode_value_def PROTOCOL_VERSION_def by (simp_all split: if_splits)
  from assms fields have act: "in_str_set (get v ''action'') ACTIONS = Inr True"
    and auth: "is_dict (get v ''authorization'')" "is_str (get v ''signature'')"
      "signature_re (str_value (get v ''signature''))"
    and pay: "rbind (validate_payload (str_value (get v ''action'')) (get v ''payload'')) (\<lambda>payload.
          Inr \<lparr>rq_request_id = str_value (get v ''request_id''),
            rq_action = str_value (get v ''action''), rq_payload = payload,
            rq_authorization = get v ''authorization'',
            rq_signature = str_value (get v ''signature'')\<rparr>) = Inr r"
    unfolding decode_value_def PROTOCOL_VERSION_def by (simp_all add: rbind_Inr_iff split: if_splits)
  from act obtain a where a: "get v ''action'' = JStr a" "a \<in> set ACTIONS"
    unfolding in_str_set_Inr by blast
  from pay obtain p where p: "validate_payload a (get v ''payload'') = Inr p"
    and r: "r = \<lparr>rq_request_id = str_value (get v ''request_id''), rq_action = a, rq_payload = p,
      rq_authorization = get v ''authorization'', rq_signature = str_value (get v ''signature'')\<rparr>"
    unfolding a str_value.simps rbind_Inr_iff sum.inject by blast
  show "is_dict v" "keyset v = REQUEST_FIELDS" "py_eq (get v ''protocol_version'') (JInt 2)"
    using fields by simp_all
  show "get v ''request_id'' = JStr (rq_request_id r)" "get v ''signature'' = JStr (rq_signature r)"
    using fields auth str by (simp_all add: r)
  show "uuid_ok L (rq_request_id r)" "get v ''action'' = JStr (rq_action r)" "rq_action r \<in> set ACTIONS"
    "rq_authorization r = get v ''authorization''" "is_dict (rq_authorization r)"
    "signature_re (rq_signature r)" "validate_payload (rq_action r) (get v ''payload'') = Inr (rq_payload r)"
    using fields a auth p by (simp_all add: r)
qed

lemma decode_request_value:
  assumes "decode_request L data = Inr r"
  obtains v where "json_loads L data = Some v" and "decode_value L v = Inr r"
    and "data \<noteq> []" and "length data \<le> 16384" and "CHR 0x0A \<notin> set data" and "CHR 0x0D \<notin> set data"
  using assms unfolding decode_request_def MAX_REQUEST_BYTES_def
  by (cases "json_loads L data") (auto split: if_splits)


definition demo_line :: string where
  "demo_line = dumps (\<lambda>_. []) True (client_envelope (replicate 36 CHR ''0'') ''status'' (JObj [])
     (JObj [(''action'', JStr ''status'')]) (replicate 16 CHR ''s''))"


section \<open>From client to broker\<close>

lemma in_str_set_sortkeys [simp]: "in_str_set (sortkeys v) xs = in_str_set v xs"
  by (cases v) simp_all

lemma bounded_str_sortkeys [simp]: "bounded_str n (sortkeys v) = bounded_str n v"
  by (simp add: bounded_str_def)

lemma get_sortkeys_null: "distinct_keys v \<Longrightarrow> get (sortkeys v) k = sortkeys (get v k)"
  using get_sortkeys [of v k JNull] by simp

lemma stringify_sortkeys: "stringify x = x \<Longrightarrow> stringify (sortkeys x) = sortkeys x"
proof -
  assume x: "stringify x = x"
  then obtain kvs where kvs: "x = JObj kvs" by (cases x) (simp_all add: stringify_def)
  have "\<exists>s. v = JStr s" if "(k, v) \<in> set kvs" for k v
  proof -
    have "(k, v) \<in> set (items (stringify x))" unfolding x using that by (simp add: kvs)
    then show ?thesis by (auto simp: stringify_def)
  qed
  then show ?thesis unfolding kvs by (force simp: stringify_def intro!: map_idI)
qed

lemma validate_plan_sortkeys:
  assumes "validate_plan x = Inr x" and "distinct_keys x"
  shows "validate_plan (sortkeys x) = Inr (sortkeys x)"
  using assms stringify_sortkeys [of x] unfolding validate_plan_iff
  by (simp add: get_sortkeys_null)

lemma sortkeys_single [simp]: "sortkeys (JObj [(k, v)]) = JObj [(k, sortkeys v)]"
  by simp

lemma validate_payload_sortkeys:
  assumes run: "validate_payload a p = Inr p" and dist: "distinct_keys (get p ''plan'')"
  shows "validate_payload a (sortkeys p) = Inr (sortkeys p)"
proof -
  consider (empty) "a \<in> {''status'', ''policy.list''}" | (plan) "a \<in> set PLAN_KEY_ACTIONS"
    | (rec) "a = ''policy.reconcile''" | (create) "a = ''plan.create''"
    using validate_payload_action [OF run] by blast
  then show ?thesis
  proof cases
    case empty
    from run show ?thesis unfolding validate_payload_empty [OF empty] by simp
  next
    case plan
    from run obtain k where "p = JObj [(''plan_key'', JStr k)]"
      unfolding validate_payload_plan_key [OF plan] by (elim conjE exE)
    with run show ?thesis by simp
  next
    case rec
    from run obtain i where "p = JObj [(''limit'', JInt i)]"
      unfolding rec validate_payload_reconcile Let_def by blast
    with run show ?thesis by simp
  next
    case create
    from run obtain x where x: "validate_plan (get p ''plan'') = Inr x" and p: "p = JObj [(''plan'', x)]"
      and d: "is_dict (get p ''plan'')"
      unfolding create validate_payload_create by (elim conjE exE)
    have plan: "get p ''plan'' = x" unfolding p by (simp add: get_default_def)
    have "validate_plan (sortkeys x) = Inr (sortkeys x)"
      by (rule validate_plan_sortkeys) (use x dist plan in simp_all)
    then show ?thesis
      unfolding create validate_payload_create unfolding p
      using d plan by (simp add: keyset_def get_default_def)
  qed
qed

lemma get_client_envelope:
  "get (client_envelope i a p auth sig) ''protocol_version'' = JInt 2"
  "get (client_envelope i a p auth sig) ''request_id'' = JStr i"
  "get (client_envelope i a p auth sig) ''action'' = JStr a"
  "get (client_envelope i a p auth sig) ''payload'' = p"
  "get (client_envelope i a p auth sig) ''authorization'' = auth"
  "get (client_envelope i a p auth sig) ''signature'' = JStr sig"
  by (simp_all add: client_envelope_def get_default_def PROTOCOL_VERSION_def)

lemma client_envelope_shape:
  "is_dict (client_envelope i a p auth sig)" "keyset (client_envelope i a p auth sig) = REQUEST_FIELDS"
  "distinct_keys (client_envelope i a p auth sig)"
  by (auto simp: client_envelope_def keyset_def REQUEST_FIELDS_def)

text \<open>C18: A request that the client builds is the request the broker sees. If the payload is in normal
  form, the identifier a UUID and the signature well formed, and the request fits the frame, then the
  broker decodes exactly the request that was sent, up to the order of keys. The hypothesis on
  \<open>json_loads\<close> is the documented behaviour of \<open>json\<close>: reading a text written with \<open>sort_keys\<close> gives
  the value back with its keys in order.\<close>

theorem client_request_roundtrip:
  assumes "encode_response L (client_envelope i a p auth sig) = Inr data"
    and "json_loads L (dumps (float_repr L) True (client_envelope i a p auth sig))
      = Some (sortkeys (client_envelope i a p auth sig))"
    and "uuid_ok L i" and "a \<in> set ACTIONS" and "is_dict auth" and "signature_re sig"
    and "validate_payload a p = Inr p" and "distinct_keys (get p ''plan'')"
  shows "decode_request L data = Inr \<lparr>rq_request_id = i, rq_action = a, rq_payload = sortkeys p,
    rq_authorization = sortkeys auth, rq_signature = sig\<rparr>"
proof -
  let ?e = "client_envelope i a p auth sig"
  have data: "data = dumps (float_repr L) True ?e" "length data \<le> 16384"
      "CHR 0x0A \<notin> set data" "CHR 0x0D \<notin> set data"
    using assms(1) by (auto simp: encode_response_def Let_def MAX_RESPONSE_BYTES_def split: if_splits)
  have "data \<noteq> []" by (simp add: data(1) client_envelope_def)
  then have "decode_request L data = decode_value L (sortkeys ?e)"
    using data assms(2) by (simp add: decode_request_def MAX_REQUEST_BYTES_def)
  also have "\<dots> = Inr \<lparr>rq_request_id = i, rq_action = a, rq_payload = sortkeys p,
      rq_authorization = sortkeys auth, rq_signature = sig\<rparr>"
    using assms(3-6) validate_payload_sortkeys [OF assms(7,8)]
    by (simp add: decode_value_def client_envelope_shape get_sortkeys_null get_client_envelope
        PROTOCOL_VERSION_def)
  finally show ?thesis .
qed

theorem client_request_roundtrip_witness:
  "decode_request (demo_lib (\<lambda>_. 0)) demo_line = Inr \<lparr>rq_request_id = replicate 36 CHR ''0'',
     rq_action = ''status'', rq_payload = sortkeys (JObj []),
     rq_authorization = sortkeys (JObj [(''action'', JStr ''status'')]), rq_signature = replicate 16 CHR ''s''\<rparr>"
proof (rule client_request_roundtrip)
  show "encode_response (demo_lib (\<lambda>_. 0)) (client_envelope (replicate 36 CHR ''0'') ''status'' (JObj [])
      (JObj [(''action'', JStr ''status'')]) (replicate 16 CHR ''s'')) = Inr demo_line"
    by code_simp
  show "json_loads (demo_lib (\<lambda>_. 0)) (dumps (float_repr (demo_lib (\<lambda>_. 0))) True
      (client_envelope (replicate 36 CHR ''0'') ''status'' (JObj [])
        (JObj [(''action'', JStr ''status'')]) (replicate 16 CHR ''s'')))
    = Some (sortkeys (client_envelope (replicate 36 CHR ''0'') ''status'' (JObj [])
        (JObj [(''action'', JStr ''status'')]) (replicate 16 CHR ''s'')))"
    by code_simp
  show "distinct_keys (get (JObj []) ''plan'')" by (simp add: get_default_def)
qed (code_simp)+

end
