(* ===== verification/Authorization.thy ===== *)
theory Authorization
  imports Audit_Chain Broker_Protocol
begin

text \<open>
  Who may ask the broker for what: the signed authorization envelope
  (\<open>netopsctl/authorization.py\<close>), the gate of the server that binds it to the caller, to the
  current digest of the plan and to a nonce used once (\<open>authorize_broker_request\<close> in
  \<open>netopsctl/server.py\<close>), and the envelope the reconcile timer builds
  (\<open>netopsctl/reconcile_runner.py\<close>). Decoding base64 is part of the signature parameter; times
  are microseconds since the epoch.
\<close>

section \<open>Envelopes\<close>

definition ACTION_SCOPES :: "(string \<times> string) list" where
  "ACTION_SCOPES =
     [(''plan.create'', ''network.plan.create''), (''plan.inspect'', ''network.plan.read''),
      (''plan.approve'', ''network.plan.approve''), (''plan.apply'', ''network.plan.apply''),
      (''plan.verify'', ''network.plan.verify''), (''plan.rollback'', ''network.plan.rollback''),
      (''policy.list'', ''network.policy.read''), (''policy.reconcile'', ''network.policy.reconcile''),
      (''status'', ''network.status.read'')]"

definition BASE_FIELDS :: "string set" where
  "BASE_FIELDS = {''authorization_version'', ''action'', ''principal_type'', ''principal_id'',
     ''principal_name'', ''session_id'', ''authorization_id'', ''scopes'', ''issued_at'',
     ''expires_at'', ''nonce''}"

definition NO_PLAN_ACTIONS :: "string set" where
  "NO_PLAN_ACTIONS = {''status'', ''policy.list'', ''policy.reconcile'', ''plan.inspect''}"

definition PRINCIPAL_FIELDS :: "string list" where
  "PRINCIPAL_FIELDS = [''principal_type'', ''principal_id'', ''principal_name'', ''session_id'',
     ''authorization_id'', ''nonce'']"

definition request_digest :: "pylib \<Rightarrow> json \<Rightarrow> string" where
  "request_digest L payload = ''sha256:'' @ sha256 L (canonical_json L payload)"

definition sign_envelope :: "pylib \<Rightarrow> string \<Rightarrow> json \<Rightarrow> string" where
  "sign_envelope L key envelope = ed25519_sign L key (canonical_json L envelope)"

definition parse_time :: "pylib \<Rightarrow> json \<Rightarrow> int res" where
  "parse_time L v = (if \<not> is_str v then Inl (ValueError ''invalid authorization timestamp'')
     else case fromiso L (replace_Z (str_value v)) of
       None \<Rightarrow> Inl (ValueError ''invalid authorization timestamp'')
     | Some (Naive _) \<Rightarrow> Inl (ValueError ''authorization timestamp needs timezone'')
     | Some (Aware t) \<Rightarrow> Inr t)"

record verified_authorization =
  va_principal_type :: string
  va_principal_id :: string
  va_principal_name :: string
  va_session_id :: string
  va_authorization_id :: string
  va_nonce :: string
  va_expires_at :: string

definition expected_fields :: "string \<Rightarrow> string set" where
  "expected_fields action = BASE_FIELDS \<union>
     (if action = ''plan.create'' then {''request_digest''}
      else if action \<in> NO_PLAN_ACTIONS then {} else {''plan_id'', ''plan_digest''})"

definition principal_ok :: "json \<Rightarrow> string \<Rightarrow> bool" where
  "principal_ok envelope key \<longleftrightarrow> is_str (get envelope key)
     \<and> strip (str_value (get envelope key)) \<noteq> [] \<and> length (str_value (get envelope key)) \<le> 255"

text \<open>The checks before the clock is read, with the two times they end in.\<close>

definition check_envelope :: "pylib \<Rightarrow> json \<Rightarrow> string \<Rightarrow> json \<Rightarrow> (int \<times> int) res" where
  "check_envelope L envelope action payload =
     (if map_of ACTION_SCOPES action = None \<or> \<not> py_eq (get envelope ''authorization_version'') (JInt 1)
         \<or> get envelope ''action'' \<noteq> JStr action
      then Inl (ValueError ''authorization action is invalid'')
      else if keyset envelope \<noteq> expected_fields action
      then Inl (ValueError ''authorization envelope schema mismatch'')
      else if \<not> list_all (principal_ok envelope) PRINCIPAL_FIELDS
      then Inl (ValueError ''authorization principal is invalid'')
      else if \<not> is_list (get envelope ''scopes'') \<or> \<not> list_all is_str (elems (get envelope ''scopes''))
         \<or> JStr (the (map_of ACTION_SCOPES action)) \<notin> set (elems (get envelope ''scopes''))
      then Inl (ValueError ''authorization scope is missing'')
      else if action = ''plan.create'' \<and> get envelope ''request_digest'' \<noteq> JStr (request_digest L payload)
      then Inl (ValueError ''authorization request digest mismatch'')
      else if action \<noteq> ''plan.create'' \<and> action \<notin> NO_PLAN_ACTIONS
         \<and> (\<not> py_eq (get envelope ''plan_id'') (get payload ''plan_key'') \<or> \<not> is_str (get envelope ''plan_digest''))
      then Inl (ValueError ''authorization plan binding mismatch'')
      else rbind (parse_time L (get envelope ''issued_at'')) (\<lambda>issued.
        rbind (parse_time L (get envelope ''expires_at'')) (\<lambda>expires. Inr (issued, expires))))"

definition live_window :: "int \<Rightarrow> int \<Rightarrow> int \<Rightarrow> bool" where
  "live_window issued expires now \<longleftrightarrow> issued < expires \<and> expires - issued \<le> 15 * 60 * second
     \<and> issued - 30 * second \<le> now \<and> now < expires"

definition verify_envelope ::
    "pylib \<Rightarrow> json \<Rightarrow> string \<Rightarrow> string \<Rightarrow> string \<Rightarrow> json \<Rightarrow> ('d netops, verified_authorization) prog" where
  "verify_envelope L envelope signature public_key action payload =
     bind (lift (check_envelope L envelope action payload)) (\<lambda>(issued, expires).
     bind (read_clock L) (\<lambda>now.
     if \<not> live_window issued expires now
     then raise (ValueError ''authorization is expired or invalid'')
     else if \<not> ed25519_verify L public_key signature (canonical_json L envelope)
     then raise (ValueError ''authorization signature is invalid'')
     else ret \<lparr>va_principal_type = str_value (get envelope ''principal_type''),
       va_principal_id = str_value (get envelope ''principal_id''),
       va_principal_name = str_value (get envelope ''principal_name''),
       va_session_id = str_value (get envelope ''session_id''),
       va_authorization_id = str_value (get envelope ''authorization_id''),
       va_nonce = str_value (get envelope ''nonce''),
       va_expires_at = str_value (get envelope ''expires_at'')\<rparr>))"

section \<open>The gate of the server\<close>

record authenticated_peer =
  pe_uid :: int
  pe_gid :: int
  pe_pid :: int
  pe_service_principal :: string
  pe_public_key :: string
  pe_allowed_actions :: "string set"

text \<open>The nonce is the primary key of its table: inserting it twice fails.\<close>

definition insert_nonce :: "nonce_row \<Rightarrow> ('d netops, unit) prog" where
  "insert_nonce n s = (if no_nonce n \<in> no_nonce ` set (used_nonces s) then (Inl IntegrityError, s)
     else (Inr (), s\<lparr>used_nonces := used_nonces s @ [n]\<rparr>))"

definition check_plan_digest :: "pylib \<Rightarrow> broker_request \<Rightarrow> ('d netops, unit) prog" where
  "check_plan_digest L request =
     (if rq_action request \<in> {''plan.create'', ''status'', ''policy.list'', ''policy.reconcile''}
      then ret ()
      else bind (lift (getitem (rq_payload request) ''plan_key'')) (\<lambda>k.
        bind (plan_digest L (py_str L k)) (\<lambda>digest.
        if get (rq_authorization request) ''plan_digest'' \<noteq> JStr digest
        then raise (ValueError ''authorization plan digest mismatch'') else ret ())))"

definition consume_nonce :: "pylib \<Rightarrow> verified_authorization \<Rightarrow> ('d netops, unit) prog" where
  "consume_nonce L verified = bind (read_clock L) (\<lambda>timestamp.
     catch (insert_nonce \<lparr>no_nonce = va_nonce verified, no_expires_at = va_expires_at verified,
              no_consumed_at = isoz L timestamp\<rparr>)
       (\<lambda>e. raise (ValueError ''authorization nonce was replayed'')))"

definition authorize_broker_request ::
    "pylib \<Rightarrow> broker_request \<Rightarrow> authenticated_peer \<Rightarrow> ('d netops, verified_authorization) prog" where
  "authorize_broker_request L request peer =
     (if rq_action request \<notin> pe_allowed_actions peer
      then raise (ValueError ''peer is not allowed to perform this action'')
      else bind (verify_envelope L (rq_authorization request) (rq_signature request)
          (pe_public_key peer) (rq_action request) (rq_payload request)) (\<lambda>verified.
        seq (check_plan_digest L request)
          (seq (consume_nonce L verified) (ret verified))))"

section \<open>The reconcile timer's request\<close>

definition reconcile_envelope :: "pylib \<Rightarrow> string \<Rightarrow> int \<Rightarrow> string \<Rightarrow> string \<Rightarrow> string \<Rightarrow> json" where
  "reconcile_envelope L principal_id now u1 u2 u3 = (let now0 = now div second * second in JObj
     [(''authorization_version'', JInt 1), (''action'', JStr ''policy.reconcile''),
      (''principal_type'', JStr ''service''), (''principal_id'', JStr principal_id),
      (''principal_name'', JStr principal_id), (''session_id'', JStr (''timer:'' @ u1)),
      (''authorization_id'', JStr (''reconcile:'' @ u2)),
      (''scopes'', JList [JStr ''network.policy.reconcile'']),
      (''issued_at'', JStr (isoz L now0)), (''expires_at'', JStr (isoz L (now0 + 120 * second))),
      (''nonce'', JStr u3)])"

definition build_reconcile_request ::
    "pylib \<Rightarrow> string \<Rightarrow> string \<Rightarrow> int \<Rightarrow> ('d netops, json \<times> json \<times> string) prog" where
  "build_reconcile_request L key principal_id limit =
     (if principal_id = [] \<or> \<not> (1 \<le> limit \<and> limit \<le> 256)
      then raise (ValueError ''invalid reconcile runner configuration'')
      else bind (read_clock L) (\<lambda>now.
        bind (fresh_uuid L) (\<lambda>u1. bind (fresh_uuid L) (\<lambda>u2. bind (fresh_uuid L) (\<lambda>u3.
        let envelope = reconcile_envelope L principal_id now u1 u2 u3 in
        ret (JObj [(''limit'', JInt limit)], envelope, sign_envelope L key envelope))))))"

section \<open>Successful authorization\<close>

lemma verify_envelope_run:
  "verify_envelope L env sig pub action payload s = (case check_envelope L env action payload of
     Inl e \<Rightarrow> (Inl e, s)
   | Inr (issued, expires) \<Rightarrow>
       (if \<not> live_window issued expires (now_us L (ticks s))
        then Inl (ValueError ''authorization is expired or invalid'')
        else if \<not> ed25519_verify L pub sig (canonical_json L env)
        then Inl (ValueError ''authorization signature is invalid'')
        else Inr \<lparr>va_principal_type = str_value (get env ''principal_type''),
       va_principal_id = str_value (get env ''principal_id''),
       va_principal_name = str_value (get env ''principal_name''),
       va_session_id = str_value (get env ''session_id''),
       va_authorization_id = str_value (get env ''authorization_id''),
       va_nonce = str_value (get env ''nonce''),
       va_expires_at = str_value (get env ''expires_at'')\<rparr>, s\<lparr>ticks := Suc (ticks s)\<rparr>))"
  by (simp add: verify_envelope_def read_clock_def prog_simps split: sum.split prod.split)

definition plan_bound :: "string \<Rightarrow> bool" where
  "plan_bound action \<longleftrightarrow> action \<notin> {''plan.create'', ''status'', ''policy.list'', ''policy.reconcile''}"

definition digest_gate :: "pylib \<Rightarrow> broker_request \<Rightarrow> 'd netops \<Rightarrow> unit res" where
  "digest_gate L request s = (if \<not> plan_bound (rq_action request) then Inr ()
     else rbind (getitem (rq_payload request) ''plan_key'') (\<lambda>k.
       rbind (fst (plan_digest L (py_str L k) s)) (\<lambda>digest.
       guard (get (rq_authorization request) ''plan_digest'' = JStr digest)
         (ValueError ''authorization plan digest mismatch''))))"

lemma check_plan_digest_run: "check_plan_digest L request s = (digest_gate L request s, s)"
proof (cases "getitem (rq_payload request) ''plan_key''")
  case (Inr k)
  then show ?thesis
    by (cases "find_plan (plans s) (py_str L k)")
      (simp_all add: check_plan_digest_def digest_gate_def plan_bound_def plan_digest_run prog_simps guard_def)
qed (simp add: check_plan_digest_def digest_gate_def plan_bound_def prog_simps)

lemma digest_gate_ticks [simp]: "digest_gate L request (s\<lparr>ticks := n\<rparr>) = digest_gate L request s"
proof -
  have "fst (plan_digest L k (s\<lparr>ticks := n\<rparr>)) = fst (plan_digest L k s)" for k
    by (simp add: plan_digest_run steps_of_def split: option.split)
  then show ?thesis by (simp add: digest_gate_def)
qed

lemma consume_nonce_run:
  "consume_nonce L v s = (let s' = s\<lparr>ticks := Suc (ticks s)\<rparr> in
     if va_nonce v \<in> no_nonce ` set (used_nonces s)
     then (Inl (ValueError ''authorization nonce was replayed''), s')
     else (Inr (), s'\<lparr>used_nonces := used_nonces s @ [\<lparr>no_nonce = va_nonce v,
       no_expires_at = va_expires_at v, no_consumed_at = isoz L (now_us L (ticks s))\<rparr>]\<rparr>))"
  by (simp add: consume_nonce_def read_clock_def insert_nonce_def prog_simps Let_def)

lemma authorize_Inr:
  assumes "authorize_broker_request L request peer s = (Inr v, t)"
  shows "rq_action request \<in> pe_allowed_actions peer"
    and "\<exists>issued expires. check_envelope L (rq_authorization request) (rq_action request) (rq_payload request)
        = Inr (issued, expires) \<and> live_window issued expires (now_us L (ticks s))"
    and "ed25519_verify L (pe_public_key peer) (rq_signature request) (canonical_json L (rq_authorization request))"
    and "digest_gate L request s = Inr ()"
    and "va_nonce v = str_value (get (rq_authorization request) ''nonce'')"
    and "va_nonce v \<notin> no_nonce ` set (used_nonces s)"
    and "t = s\<lparr>ticks := Suc (Suc (ticks s)), used_nonces := used_nonces s @
      [\<lparr>no_nonce = va_nonce v, no_expires_at = va_expires_at v,
        no_consumed_at = isoz L (now_us L (Suc (ticks s)))\<rparr>]\<rparr>"
proof -
  note run = assms [unfolded authorize_broker_request_def]
  show allowed: "rq_action request \<in> pe_allowed_actions peer"
    using run by (auto simp: raise_def split: if_splits)
  from run allowed obtain s' where v: "verify_envelope L (rq_authorization request) (rq_signature request)
      (pe_public_key peer) (rq_action request) (rq_payload request) s = (Inr v, s')"
    and rest: "digest_gate L request s' = Inr ()"
      "va_nonce v \<notin> no_nonce ` set (used_nonces s')"
      "t = s'\<lparr>ticks := Suc (ticks s'), used_nonces := used_nonces s' @
        [\<lparr>no_nonce = va_nonce v, no_expires_at = va_expires_at v,
          no_consumed_at = isoz L (now_us L (ticks s'))\<rparr>]\<rparr>"
    by (auto simp: bind_Inr seq_Inr check_plan_digest_run consume_nonce_run Let_def ret_def if_app
        split: if_splits)
  from v have s': "s' = s\<lparr>ticks := Suc (ticks s)\<rparr>"
    and ok: "\<exists>issued expires. check_envelope L (rq_authorization request) (rq_action request) (rq_payload request)
        = Inr (issued, expires) \<and> live_window issued expires (now_us L (ticks s))"
      "ed25519_verify L (pe_public_key peer) (rq_signature request) (canonical_json L (rq_authorization request))"
      "va_nonce v = str_value (get (rq_authorization request) ''nonce'')"
    by (auto simp: verify_envelope_run split: sum.splits prod.splits if_splits)
  show "digest_gate L request s = Inr ()" "va_nonce v \<notin> no_nonce ` set (used_nonces s)"
    "t = s\<lparr>ticks := Suc (Suc (ticks s)), used_nonces := used_nonces s @
      [\<lparr>no_nonce = va_nonce v, no_expires_at = va_expires_at v,
        no_consumed_at = isoz L (now_us L (Suc (ticks s)))\<rparr>]\<rparr>"
    using rest by (simp_all add: s')
  show "\<exists>issued expires. check_envelope L (rq_authorization request) (rq_action request) (rq_payload request)
        = Inr (issued, expires) \<and> live_window issued expires (now_us L (ticks s))"
    "ed25519_verify L (pe_public_key peer) (rq_signature request) (canonical_json L (rq_authorization request))"
    "va_nonce v = str_value (get (rq_authorization request) ''nonce'')"
    by (fact ok)+
qed

lemma check_envelope_Inr:
  assumes "check_envelope L env action payload = Inr (issued, expires)"
  shows "map_of ACTION_SCOPES action \<noteq> None" and "get env ''action'' = JStr action"
    and "keyset env = expected_fields action"
    and "JStr (the (map_of ACTION_SCOPES action)) \<in> set (elems (get env ''scopes''))"
    and "action = ''plan.create'' \<Longrightarrow> get env ''request_digest'' = JStr (request_digest L payload)"
    and "action \<noteq> ''plan.create'' \<Longrightarrow> action \<notin> NO_PLAN_ACTIONS \<Longrightarrow>
      py_eq (get env ''plan_id'') (get payload ''plan_key'')"
    and "parse_time L (get env ''issued_at'') = Inr issued"
    and "parse_time L (get env ''expires_at'') = Inr expires"
  using assms unfolding check_envelope_def by (auto simp: rbind_Inr_iff split: if_splits)


definition demo_envelope :: json where
  "demo_envelope = JObj
     [(''authorization_version'', JInt 1), (''action'', JStr ''status''),
      (''principal_type'', JStr ''user''), (''principal_id'', JStr ''7''), (''principal_name'', JStr ''ann''),
      (''session_id'', JStr ''s''), (''authorization_id'', JStr ''a''),
      (''scopes'', JList [JStr ''network.status.read'']), (''issued_at'', JStr ''T990''),
      (''expires_at'', JStr ''T1100''), (''nonce'', JStr ''n-1'')]"

definition demo_peer :: authenticated_peer where
  "demo_peer = \<lparr>pe_uid = 33, pe_gid = 33, pe_pid = 1, pe_service_principal = ''web'',
     pe_public_key = ''pk'', pe_allowed_actions = set ACTIONS\<rparr>"

definition demo_clock :: "nat \<Rightarrow> int" where
  "demo_clock n = 1000000000"

definition demo_request :: broker_request where
  "demo_request = \<lparr>rq_request_id = [], rq_action = ''status'', rq_payload = JObj [],
     rq_authorization = demo_envelope,
     rq_signature = sign_envelope (demo_lib demo_clock) ''pk'' demo_envelope\<rparr>"

lemma demo_authorized:
  "\<exists>v t. authorize_broker_request (demo_lib demo_clock) demo_request demo_peer (empty_db ()) = (Inr v, t)"
proof -
  have "isl (fst (authorize_broker_request (demo_lib demo_clock) demo_request demo_peer (empty_db ()))) = False"
    by code_simp
  moreover obtain r t where
    "authorize_broker_request (demo_lib demo_clock) demo_request demo_peer (empty_db ()) = (r, t)"
    by (rule prod.exhaust)
  ultimately show ?thesis by (cases r) auto
qed


text \<open>C11: A nonce works once. After a request was accepted, no later request with the same nonce is
  accepted, whatever its action, caller or plan, in any later state whose table of used nonces still
  starts with the rows it had then.\<close>

theorem nonce_single_use:
  assumes "authorize_broker_request L request peer s = (Inr v, t)"
    and "prefix (used_nonces t) (used_nonces u)"
    and "get (rq_authorization request') ''nonce'' = get (rq_authorization request) ''nonce''"
  shows "\<exists>e. fst (authorize_broker_request L request' peer' u) = Inl e"
proof (cases "authorize_broker_request L request' peer' u")
  case (Pair r u')
  show ?thesis
  proof (cases r)
    case (Inr w)
    note a = authorize_Inr [OF assms(1)] and b = authorize_Inr [OF Pair [unfolded Inr]]
    have "va_nonce w = va_nonce v" using a(5) b(5) assms(3) by simp
    moreover have "va_nonce v \<in> no_nonce ` set (used_nonces t)" by (simp add: a(7))
    moreover have "set (used_nonces t) \<subseteq> set (used_nonces u)"
      using assms(2) by (rule set_mono_prefix)
    ultimately show ?thesis using b(6) by auto
  qed (simp add: Pair)
qed

theorem nonce_single_use_witness:
  "\<exists>v t e. authorize_broker_request (demo_lib demo_clock) demo_request demo_peer (empty_db ()) = (Inr v, t)
     \<and> fst (authorize_broker_request (demo_lib demo_clock) demo_request demo_peer t) = Inl e"
proof -
  obtain v t where
    run: "authorize_broker_request (demo_lib demo_clock) demo_request demo_peer (empty_db ()) = (Inr v, t)"
    using demo_authorized by blast
  from run nonce_single_use [OF run prefix_order.refl refl, of demo_peer] show ?thesis by blast
qed

text \<open>\<open>plan.inspect\<close> can never be authorized. The envelope schema forbids a plan digest for it, and
  the gate of the server demands one, so the action is refused for every caller, envelope and state.\<close>

theorem plan_inspect_never_authorized:
  assumes "rq_action request = ''plan.inspect''"
  shows "\<exists>e. fst (authorize_broker_request L request peer s) = Inl e"
proof (cases "authorize_broker_request L request peer s")
  case (Pair r t)
  show ?thesis
  proof (cases r)
    case (Inr v)
    note r = authorize_Inr [OF Pair [unfolded Inr]]
    from r(2) obtain i x where "check_envelope L (rq_authorization request) (rq_action request)
        (rq_payload request) = Inr (i, x)" by blast
    then have "keyset (rq_authorization request) = expected_fields ''plan.inspect''"
      using check_envelope_Inr(3) assms by metis
    then have "''plan_digest'' \<notin> keyset (rq_authorization request)"
      by (simp add: expected_fields_def BASE_FIELDS_def NO_PLAN_ACTIONS_def)
    then have "get (rq_authorization request) ''plan_digest'' = JNull"
      by (simp add: get_default_def keyset_def map_of_eq_None_iff [THEN iffD2])
    with r(4) assms show ?thesis
      by (simp add: digest_gate_def plan_bound_def rbind_Inr_iff guard_Inr_iff)
  qed (simp add: Pair)
qed

theorem plan_inspect_never_authorized_witness:
  "\<exists>e. fst (authorize_broker_request (demo_lib demo_clock) (demo_request\<lparr>rq_action := ''plan.inspect''\<rparr>)
     demo_peer (empty_db ())) = Inl e"
  by (rule plan_inspect_never_authorized) simp

section \<open>The timer's request is accepted\<close>

lemma get_reconcile_envelope:
  "get (reconcile_envelope L p now u1 u2 u3) ''authorization_version'' = JInt 1"
  "get (reconcile_envelope L p now u1 u2 u3) ''action'' = JStr ''policy.reconcile''"
  "get (reconcile_envelope L p now u1 u2 u3) ''principal_type'' = JStr ''service''"
  "get (reconcile_envelope L p now u1 u2 u3) ''principal_id'' = JStr p"
  "get (reconcile_envelope L p now u1 u2 u3) ''principal_name'' = JStr p"
  "get (reconcile_envelope L p now u1 u2 u3) ''session_id'' = JStr (''timer:'' @ u1)"
  "get (reconcile_envelope L p now u1 u2 u3) ''authorization_id'' = JStr (''reconcile:'' @ u2)"
  "get (reconcile_envelope L p now u1 u2 u3) ''scopes'' = JList [JStr ''network.policy.reconcile'']"
  "get (reconcile_envelope L p now u1 u2 u3) ''issued_at'' = JStr (isoz L (now div second * second))"
  "get (reconcile_envelope L p now u1 u2 u3) ''expires_at'' = JStr (isoz L (now div second * second + 120 * second))"
  "get (reconcile_envelope L p now u1 u2 u3) ''nonce'' = JStr u3"
  "keyset (reconcile_envelope L p now u1 u2 u3) = expected_fields ''policy.reconcile''"
  by (simp_all add: reconcile_envelope_def Let_def get_default_def keyset_def expected_fields_def
      BASE_FIELDS_def NO_PLAN_ACTIONS_def)

lemma in_dropWhile: "c \<in> set s \<Longrightarrow> \<not> P c \<Longrightarrow> c \<in> set (dropWhile P s)"
  by (induction s) auto

lemma strip_nonempty: "c \<in> set s \<Longrightarrow> \<not> is_space c \<Longrightarrow> strip s \<noteq> []"
  unfolding strip_def by (metis in_dropWhile set_rev empty_iff empty_set)

lemma reconcile_envelope_checked:
  assumes times: "\<And>t. 0 \<le> t \<Longrightarrow> t mod second = 0 \<Longrightarrow> fromiso L (replace_Z (isoz L t)) = Some (Aware t)"
    and pos: "0 \<le> now"
    and ids: "strip p \<noteq> []" "length p \<le> 255" "length u1 \<le> 200" "length u2 \<le> 200"
      "strip u3 \<noteq> []" "length u3 \<le> 200"
  shows "check_envelope L (reconcile_envelope L p now u1 u2 u3) ''policy.reconcile'' payload
    = Inr (now div second * second, now div second * second + 120 * second)"
proof -
  let ?e = "reconcile_envelope L p now u1 u2 u3"
  have t: "parse_time L (JStr (isoz L (now div second * second))) = Inr (now div second * second)"
    "parse_time L (JStr (isoz L (now div second * second + 120 * second))) = Inr (now div second * second + 120 * second)"
    using pos by (simp_all add: parse_time_def times mod_add_eq second_def)
  have "strip (''timer:'' @ u1) \<noteq> []" "strip (''reconcile:'' @ u2) \<noteq> []" "strip ''service'' \<noteq> []"
    by (rule strip_nonempty [of "CHR ''e''"]; simp add: is_space_def)+
  then have "list_all (principal_ok ?e) PRINCIPAL_FIELDS"
    using ids by (simp add: PRINCIPAL_FIELDS_def principal_ok_def get_reconcile_envelope)
  then show ?thesis
    by (simp add: check_envelope_def get_reconcile_envelope t ACTION_SCOPES_def NO_PLAN_ACTIONS_def)
qed

text \<open>C19: The reconcile timer can do its job. The request that \<open>build_reconcile_request\<close> signs is accepted by
  the broker for two minutes: whenever the broker's clock lies in the window, the peer is allowed to
  reconcile, holds the matching public key, and the fresh nonce has not been used. The hypotheses on
  the library are documented behaviour: Ed25519 correctness, \<open>fromisoformat\<close> reads what \<open>isoformat\<close>
  wrote, and UUID texts are short and not blank.\<close>

theorem reconcile_request_accepted:
  assumes "\<And>t. 0 \<le> t \<Longrightarrow> t mod second = 0 \<Longrightarrow> fromiso L (replace_Z (isoz L t)) = Some (Aware t)"
    and "\<And>m. ed25519_verify L (pe_public_key peer) (ed25519_sign L key m) m"
    and "\<And>n. n < 3 \<Longrightarrow> strip (uuid4 L (uuids s + n)) \<noteq> [] \<and> length (uuid4 L (uuids s + n)) \<le> 200"
    and "0 \<le> now_us L (ticks s)"
    and "strip p \<noteq> []" and "length p \<le> 255" and "''policy.reconcile'' \<in> pe_allowed_actions peer"
    and "build_reconcile_request L key p limit s = (Inr (payload, env, sig), s')"
    and "now_us L (ticks s) div second * second \<le> now_us L (ticks b)"
    and "now_us L (ticks b) < now_us L (ticks s) div second * second + 120 * second"
    and "str_value (get env ''nonce'') \<notin> no_nonce ` set (used_nonces b)"
  shows "\<exists>v t. authorize_broker_request L \<lparr>rq_request_id = i, rq_action = ''policy.reconcile'',
      rq_payload = payload, rq_authorization = env, rq_signature = sig\<rparr> peer b = (Inr v, t)
    \<and> va_principal_type v = ''service'' \<and> va_principal_id v = p"
proof -
  let ?now = "now_us L (ticks s)"
  have env: "env = reconcile_envelope L p ?now (uuid4 L (uuids s)) (uuid4 L (Suc (uuids s)))
      (uuid4 L (Suc (Suc (uuids s))))"
    and sig: "sig = sign_envelope L key env"
    using assms(8)
    by (auto simp: build_reconcile_request_def read_clock_def fresh_uuid_def Let_def prog_simps split: if_splits)
  have chk: "check_envelope L env ''policy.reconcile'' payload
      = Inr (?now div second * second, ?now div second * second + 120 * second)"
    unfolding env
    by (rule reconcile_envelope_checked)
      (use assms(1,4,5,6) assms(3) [of 0] assms(3) [of 1] assms(3) [of 2] in auto)
  have win: "live_window (?now div second * second) (?now div second * second + 120 * second) (now_us L (ticks b))"
    using assms(9,10) by (simp add: live_window_def second_def)
  have str: "str_value (get env ''principal_type'') = ''service''" "str_value (get env ''principal_id'') = p"
    by (simp_all add: env get_reconcile_envelope)
  show ?thesis
    using assms(2,7,11) chk win str
    by (simp add: authorize_broker_request_def bind_Inr seq_Inr verify_envelope_run sig sign_envelope_def
        check_plan_digest_run digest_gate_def plan_bound_def consume_nonce_run Let_def ret_def)
qed

lemma replace_Z_id: "CHR ''Z'' \<notin> set s \<Longrightarrow> replace_Z s = s"
  by (induction s) (auto simp: replace_Z_def)

lemma demo_time: "0 \<le> t \<Longrightarrow> t mod second = 0 \<Longrightarrow>
  fromiso (demo_lib clk) (replace_Z (isoz (demo_lib clk) t)) = Some (Aware t)"
proof -
  assume t: "0 \<le> t" "t mod second = 0"
  have "0 \<le> t div second" using t(1) by (simp add: second_def)
  then have iso: "isoz (demo_lib clk) t = CHR ''T'' # nat_digits (nat (t div second))"
    by (simp add: demo_lib_def int_text_def)
  have "CHR ''Z'' \<notin> set (nat_digits n)" for n
    using nat_digits_digits [of n] by (auto simp: list_all_iff is_digit_def)
  then have "replace_Z (isoz (demo_lib clk) t) = CHR ''T'' # nat_digits (nat (t div second))"
    unfolding iso by (intro replace_Z_id) simp
  moreover have "second * (t div second) = t" using t(2) by (metis mult_div_mod_eq add.right_neutral)
  ultimately show ?thesis
    using \<open>0 \<le> t div second\<close> by (simp add: demo_lib_def demo_fromiso_def parse_nat_def digits_value_nat_digits)
qed

theorem reconcile_request_accepted_witness:
  "\<exists>payload env sig s' v t. build_reconcile_request (demo_lib demo_clock) ''pk'' ''timer'' 64 (empty_db ())
       = (Inr (payload, env, sig), s')
     \<and> authorize_broker_request (demo_lib demo_clock) \<lparr>rq_request_id = [], rq_action = ''policy.reconcile'',
         rq_payload = payload, rq_authorization = env, rq_signature = sig\<rparr> demo_peer (empty_db ()) = (Inr v, t)"
proof -
  let ?L = "demo_lib demo_clock"
  have b: "build_reconcile_request ?L ''pk'' ''timer'' 64 (empty_db ()) =
    (let env = reconcile_envelope ?L ''timer'' 1000000000 ''uuid-0'' ''uuid-1'' ''uuid-2'' in
     (Inr (JObj [(''limit'', JInt 64)], env, sign_envelope ?L ''pk'' env),
      (empty_db ())\<lparr>ticks := 1, uuids := 3\<rparr>))"
    by code_simp
  let ?e = "reconcile_envelope ?L ''timer'' 1000000000 ''uuid-0'' ''uuid-1'' ''uuid-2''"
  have "\<exists>v t. authorize_broker_request ?L \<lparr>rq_request_id = [], rq_action = ''policy.reconcile'',
      rq_payload = JObj [(''limit'', JInt 64)], rq_authorization = ?e,
      rq_signature = sign_envelope ?L ''pk'' ?e\<rparr> demo_peer (empty_db ()) = (Inr v, t)
    \<and> va_principal_type v = ''service'' \<and> va_principal_id v = ''timer''"
  proof (rule reconcile_request_accepted [OF demo_time])
    show "build_reconcile_request ?L ''pk'' ''timer'' 64 (empty_db ()) =
      (Inr (JObj [(''limit'', JInt 64)], ?e, sign_envelope ?L ''pk'' ?e), (empty_db ())\<lparr>ticks := 1, uuids := 3\<rparr>)"
      using b by (simp add: Let_def)
    show "strip (uuid4 ?L (uuids (empty_db ()) + n)) \<noteq> [] \<and> length (uuid4 ?L (uuids (empty_db ()) + n)) \<le> 200"
      if "n < 3" for n
    proof -
      have "n = 0 \<or> n = 1 \<or> n = 2" using that by auto
      then show ?thesis by (elim disjE; hypsubst) code_simp+
    qed
    show "strip ''timer'' \<noteq> []" by code_simp
  qed (simp_all add: demo_lib_def demo_peer_def demo_clock_def empty_db_def ACTIONS_def second_def)
  with b show ?thesis unfolding Let_def by blast
qed

end
