(* ===== verification/Control_Service.thy ===== *)
theory Control_Service
  imports Resolver_Correctness Executor_Correctness Audit_Chain Authorization
begin

text \<open>
  The control service (\<open>netopsctl/service.py\<close>) and the loop of the server that feeds it
  (\<open>netopsctl/server.py\<close>). \<open>dispatch\<close> runs one authorized action between audit events; an action that may
  write to the device first records its start and delivers a checkpoint of the log to the audit sink, and is
  refused when that is impossible. \<open>serve_one\<close> is one turn of the loop: the peer, the request, its
  authorization, the action, the response. An exception of a class the loop does not catch is the value
  \<open>Inl\<close> of a turn: it ends the broker.
\<close>

section \<open>The service\<close>

record 'd service =
  sv_lib :: pylib
  sv_os :: os_env
  sv_snapshot :: snapshot
  sv_adapter :: "'d adapter"
  sv_sources :: "(string \<times> string) list"
  sv_source_sla :: int
  sv_signer :: audit_signer
  sv_writes_enabled :: bool
  sv_sink :: audit_sink
  sv_sink_up :: "json list \<Rightarrow> json \<Rightarrow> bool"
  sv_plan_ttl :: int
  sv_identity_age :: int
  sv_probe :: "'d probe option"

text \<open>The lambda passed as \<open>anchor_check\<close>: only the first configured enforcement source is inspected.\<close>

definition service_anchor_check :: "'d service \<Rightarrow> string \<Rightarrow> ('d netops, json) prog" where
  "service_anchor_check sv target = (case sv_sources sv of [] \<Rightarrow> raise StopIteration
     | (site, source) # _ \<Rightarrow> if target = source then on_device (ad_inspect (sv_adapter sv)) else ret (JBool False))"

definition service_resolver :: "'d service \<Rightarrow> 'd resolver" where
  "service_resolver sv = \<lparr>enforcement_sources_by_site = sv_sources sv, source_sla_seconds = sv_source_sla sv,
     anchor_check = service_anchor_check sv\<rparr>"

definition audit :: "'d service \<Rightarrow> string \<Rightarrow> string \<Rightarrow> authenticated_peer \<Rightarrow> json \<Rightarrow> string \<Rightarrow> ('d netops, unit) prog" where
  "audit sv event_type action peer subject outcome =
     seq (append_event (sv_lib sv) (sv_signer sv) event_type (JObj
       [(''action'', JStr action),
        (''authenticated_peer'', JObj [(''uid'', JInt (pe_uid peer)), (''gid'', JInt (pe_gid peer)), (''pid'', JInt (pe_pid peer)),
           (''service_principal'', JStr (pe_service_principal peer))]),
        (''authorized_subject'', subject), (''outcome'', JStr outcome)])) (ret ())"

definition checkpoint :: "'d service \<Rightarrow> ('d netops, unit) prog" where
  "checkpoint sv = (if \<not> sv_writes_enabled sv then raise (ValueError ''production network writes are disabled'')
     else bind (build_checkpoint (sv_lib sv) (sv_signer sv) (sink_instance_id (sv_sink sv)))
       (deliver_checkpoint (sv_sink_up sv) (sv_sink sv)))"

section \<open>The actions\<close>

definition policy_json :: "policy_row \<Rightarrow> json" where
  "policy_json p = JObj [(''id'', JInt (int (po_id p))), (''subject_type'', JStr (po_subject_type p)),
     (''subject_key'', JStr (po_subject_key p)), (''policy_type'', JStr (po_policy_type p)),
     (''desired_state'', JStr (po_desired_state p)), (''enforcement_scope'', JStr (po_enforcement_scope p)),
     (''reason'', JStr (po_reason p)), (''valid_from'', JStr (po_valid_from p)), (''valid_until'', JNull),
     (''source_plan_id'', JInt (int (po_source_plan_id p))), (''status'', JStr (po_status p)),
     (''updated_at'', JStr (po_updated_at p))]"

definition list_policies :: "'d netops \<Rightarrow> json" where
  "list_policies s = JObj [(''policies'', JList (map policy_json
     (take 100 (rev (sort_key (\<lambda>p. (po_updated_at p, po_id p)) (policies s))))))]"

definition with_digest :: "'d service \<Rightarrow> string \<Rightarrow> json \<Rightarrow> ('d netops, json) prog" where
  "with_digest sv plan_key result = bind (plan_digest (sv_lib sv) plan_key) (\<lambda>d. ret (set_field result ''plan_digest'' (JStr d)))"

definition create_action :: "'d service \<Rightarrow> json \<Rightarrow> json \<Rightarrow> ('d netops, json) prog" where
  "create_action sv payload subject = bind (lift (getitem payload ''plan'')) (\<lambda>plan.
     bind (fresh_uuid (sv_lib sv)) (\<lambda>u.
     let L = sv_lib sv; plan_key = ''plan-'' @ u;
         actor = py_str L (get subject ''principal_type'') @ '':'' @ py_str L (get subject ''principal_id'') in
     bind (lift (getitem plan ''desired_state'')) (\<lambda>desired. bind (lift (getitem plan ''reason'')) (\<lambda>reason.
     bind (lift (getitem plan ''subject_type'')) (\<lambda>kind. bind (lift (getitem plan ''subject_key'')) (\<lambda>key.
     bind (if kind = JStr ''asset''
           then create_asset_internet_access_plan L (sv_snapshot sv) (service_resolver sv) (sv_plan_ttl sv) (sv_identity_age sv)
             plan_key actor (str_value key) (str_value desired) (str_value reason)
           else create_user_internet_access_plan L (sv_snapshot sv) (service_resolver sv) (sv_plan_ttl sv) (sv_identity_age sv)
             plan_key actor (str_value key) (str_value desired) (str_value reason)) (with_digest sv plan_key)))))))"

definition approve_action :: "'d service \<Rightarrow> string \<Rightarrow> ('d netops, json) prog" where
  "approve_action sv plan_key = seq (transition_plan (sv_lib sv) plan_key Validated)
     (bind (transition_plan (sv_lib sv) plan_key Approved) (with_digest sv plan_key))"

definition apply_action :: "'d service \<Rightarrow> string \<Rightarrow> ('d netops, json) prog" where
  "apply_action sv plan_key = apply_plan (sv_lib sv) (sv_os sv) (sv_adapter sv) plan_key
     (changed_plan_preconditions (sv_lib sv) (sv_snapshot sv) (service_resolver sv) (sv_plan_ttl sv) (sv_identity_age sv))"

definition verify_action :: "'d service \<Rightarrow> string \<Rightarrow> ('d netops, json) prog" where
  "verify_action sv plan_key = bind (verify_plan (sv_lib sv) (sv_adapter sv) plan_key (sv_probe sv)) (\<lambda>result.
     if get result ''status'' = JStr ''verified'' then
       bind (plan_row_of plan_key) (\<lambda>plan.
       bind (lift (loads (pl_desired_state_json plan))) (\<lambda>desired.
       bind (lift (getitem desired ''internet_access'')) (\<lambda>access.
       seq (upsert_desired_policy (sv_lib sv) plan_key (pl_subject_type plan) (pl_subject_key plan)
             (py_str (sv_lib sv) access) (pl_reason plan) ''all-sites'')
         (ret result))))
     else ret result)"

definition reconcile_action :: "'d service \<Rightarrow> json \<Rightarrow> ('d netops, json) prog" where
  "reconcile_action sv payload = bind (lift (getitem payload ''limit'')) (\<lambda>v. bind (lift (py_int (sv_lib sv) v)) (\<lambda>limit.
     reconcile_desired_policies (sv_lib sv) (sv_os sv) (sv_adapter sv)
       (resolve_for_reconcile (sv_lib sv) (sv_snapshot sv) (service_resolver sv)) limit))"

definition WRITE_ACTIONS :: "string set" where
  "WRITE_ACTIONS = {''plan.apply'', ''plan.rollback'', ''policy.reconcile''}"

definition plan_key_of :: "json \<Rightarrow> (string \<Rightarrow> ('d netops, json) prog) \<Rightarrow> ('d netops, json) prog" where
  "plan_key_of payload k = bind (lift (getitem payload ''plan_key'')) (\<lambda>v. k (str_value v))"

definition perform :: "'d service \<Rightarrow> string \<Rightarrow> json \<Rightarrow> json \<Rightarrow> ('d netops, json) prog" where
  "perform sv action payload subject =
     (if action = ''status'' then ret (JObj [(''status'', JStr ''ok''), (''service'', JStr ''netopsctl''),
          (''writes_enabled'', JBool (sv_writes_enabled sv))])
      else if action = ''policy.list'' then gets list_policies
      else if action = ''plan.create'' then create_action sv payload subject
      else if action = ''plan.inspect'' then plan_key_of payload (\<lambda>k. bind (get_change_plan k) (with_digest sv k))
      else if action = ''plan.approve'' then plan_key_of payload (approve_action sv)
      else if action = ''plan.apply'' then plan_key_of payload (apply_action sv)
      else if action = ''plan.verify'' then plan_key_of payload (verify_action sv)
      else if action = ''plan.rollback'' then plan_key_of payload (\<lambda>k.
        rollback_plan (sv_lib sv) (sv_os sv) (sv_adapter sv) k (sv_probe sv))
      else if action = ''policy.reconcile'' then reconcile_action sv payload
      else raise (ValueError ''unsupported control action''))"

definition dispatch ::
    "'d service \<Rightarrow> string \<Rightarrow> json \<Rightarrow> authenticated_peer \<Rightarrow> json \<Rightarrow> ('d netops, json) prog" where
  "dispatch sv action payload peer subject = (let write_action = (action \<in> WRITE_ACTIONS) in
     bind (catch
         (seq (if write_action
               then seq (audit sv ''network_control_started'' action peer subject ''started'') (checkpoint sv) else ret ())
           (perform sv action payload subject))
         (\<lambda>e. seq (audit sv ''network_control_failed'' action peer subject ''failed'')
           (seq (if write_action then checkpoint sv else ret ()) (raise e)))) (\<lambda>result.
     seq (audit sv ''network_control_succeeded'' action peer subject ''ok'')
       (seq (if write_action then checkpoint sv else ret ()) (ret result))))"

section \<open>The server\<close>

definition subject_json :: "verified_authorization \<Rightarrow> json" where
  "subject_json a = JObj [(''principal_type'', JStr (va_principal_type a)), (''principal_id'', JStr (va_principal_id a)),
     (''principal_name'', JStr (va_principal_name a)), (''session_id'', JStr (va_session_id a)),
     (''authorization_id'', JStr (va_authorization_id a))]"

definition handle :: "'d service \<Rightarrow> broker_request \<Rightarrow> authenticated_peer \<Rightarrow> verified_authorization \<Rightarrow> ('d netops, json) prog" where
  "handle sv request peer authorization =
     bind (dispatch sv (rq_action request) (rq_payload request) peer (subject_json authorization)) (\<lambda>result.
       ret (JObj [(''status'', JStr ''ok''), (''request_id'', JStr (rq_request_id request)), (''data'', result)]))"

text \<open>What \<open>accept\<close> and \<open>recv\<close> give: the kernel's credentials of the peer, and the bytes.\<close>

record connection =
  cn_uid :: int
  cn_gid :: int
  cn_pid :: int
  cn_data :: string

definition trusted_peer :: "(int \<rightharpoonup> authenticated_peer) \<Rightarrow> connection \<Rightarrow> authenticated_peer res" where
  "trusted_peer peers c = (case peers (cn_uid c) of
     None \<Rightarrow> Inl (ProtocolError ''untrusted local caller'')
   | Some peer \<Rightarrow> if pe_gid peer \<noteq> cn_gid c then Inl (ProtocolError ''untrusted local caller'')
       else Inr (peer\<lparr>pe_uid := cn_uid c, pe_gid := cn_gid c, pe_pid := cn_pid c\<rparr>))"

definition error_response :: "string \<Rightarrow> exn \<Rightarrow> json" where
  "error_response request_id e = JObj [(''status'', JStr ''error''), (''request_id'', JStr request_id), (''error'', JStr (exn_text e))]"

fun caught :: "exn \<Rightarrow> bool" where
  "caught (RuntimeError m) = True"
| "caught e = is_ValueError e"

definition recover :: "string \<Rightarrow> ('d netops, json) prog \<Rightarrow> ('d netops, json) prog" where
  "recover request_id m = catch m (\<lambda>e. if caught e then ret (error_response request_id e) else raise e)"

text \<open>One turn of the loop; the bytes sent back, or the exception that leaves \<open>serve\<close>.\<close>

definition serve_one ::
    "'d service \<Rightarrow> (int \<rightharpoonup> authenticated_peer) \<Rightarrow> connection \<Rightarrow> ('d netops, string) prog" where
  "serve_one sv peers c = bind
     (case rbind (trusted_peer peers c) (\<lambda>peer. rbind (decode_request (sv_lib sv) (cn_data c)) (\<lambda>request. Inr (peer, request))) of
        Inl e \<Rightarrow> recover [] (raise e)
      | Inr (peer, request) \<Rightarrow> recover (rq_request_id request)
          (bind (authorize_broker_request (sv_lib sv) request peer) (handle sv request peer)))
     (\<lambda>response. lift (encode_response (sv_lib sv) response))"

text \<open>The whole loop, until an exception leaves it or no more connections come.\<close>

fun serve :: "'d service \<Rightarrow> (int \<rightharpoonup> authenticated_peer) \<Rightarrow> connection list \<Rightarrow> ('d netops, string list) prog" where
  "serve sv peers [] = ret []"
| "serve sv peers (c # cs) = bind (serve_one sv peers c) (\<lambda>r. bind (serve sv peers cs) (\<lambda>rs. ret (r # rs)))"

section \<open>Frames of the service\<close>

text \<open>What holds of the audit log, the checkpoints, the nonces and every action that can be reached holds of
  the whole server. An action that writes is reached only when writes are enabled.\<close>

locale service_frame = frame R0 for R0 :: "'d netops \<Rightarrow> 'd netops \<Rightarrow> bool" +
  fixes sv :: "'d service"
  assumes append: "confined R0 (append_event (sv_lib sv) (sv_signer sv) ty payload)"
    and build: "confined R0 (build_checkpoint (sv_lib sv) (sv_signer sv) i)"
    and deliver: "confined R0 (deliver_checkpoint (sv_sink_up sv) (sv_sink sv) c)"
    and authorize: "confined R0 (authorize_broker_request (sv_lib sv) request peer)"
    and perform: "action \<notin> WRITE_ACTIONS \<or> sv_writes_enabled sv \<Longrightarrow> confined R0 (perform sv action payload subject)"
begin

lemma audit: "confined R0 (audit sv ty action peer subject outcome)"
  unfolding audit_def by (intro frame_rules append)

lemma checkpoint: "confined R0 (checkpoint sv)"
  unfolding checkpoint_def by (intro frame_rules build deliver)

lemma gated:
  "confined R0 (seq (if action \<in> WRITE_ACTIONS then seq (audit sv ty action peer subject o') (checkpoint sv) else ret ())
     (perform sv action payload subject))"
proof (cases "action \<in> WRITE_ACTIONS \<and> \<not> sv_writes_enabled sv")
  case True
  then have "seq (seq (audit sv ty action peer subject o') (checkpoint sv)) (perform sv action payload subject)
      = bind (audit sv ty action peer subject o') (\<lambda>_. raise (ValueError ''production network writes are disabled''))"
    by (auto simp: checkpoint_def seq_def bind_def raise_def fun_eq_iff split: prod.splits sum.splits)
  then show ?thesis using True by (simp add: frame_rules audit)
next
  case False
  then have "confined R0 (perform sv action payload subject)" by (intro perform) auto
  then show ?thesis by (intro frame_rules audit checkpoint)
qed

lemma dispatch: "confined R0 (dispatch sv action payload peer subject)"
  unfolding dispatch_def Let_def by (intro frame_rules gated audit checkpoint)

lemma handle: "confined R0 (handle sv request peer a)"
  unfolding handle_def by (intro frame_rules dispatch)

lemma serve_one: "confined R0 (serve_one sv peers c)"
  unfolding serve_one_def recover_def by (intro frame_rules authorize handle)

lemma serve: "confined R0 (serve sv peers cs)"
  by (induction cs) (simp_all add: frame_rules serve_one)

end

subsection \<open>The plan database\<close>

lemma safe_audit_writes [simp]:
  "confined safe (append_event L signer ty payload)" "confined safe (build_checkpoint L signer i)"
  "confined safe (deliver_checkpoint up sink c)"
proof -
  have ins: "confined safe (insert_event r)" for r
    by (auto simp: confined_def insert_event_def intro: safe_frameI)
  show "confined safe (append_event L signer ty payload)"
    unfolding append_event_def by (intro sf.frame_rules ins safe_utc_now safe_clock)
  show "confined safe (build_checkpoint L signer i)"
    unfolding build_checkpoint_def by (intro sf.frame_rules safe_utc_now)
  show "confined safe (deliver_checkpoint up sink c)"
    unfolding deliver_checkpoint_def by (intro sf.frame_rules safe_modify) simp_all
qed

lemma safe_authorize [simp]: "confined safe (authorize_broker_request L request peer)"
proof -
  have "confined safe (insert_nonce n)" for n
    by (auto simp: confined_def insert_nonce_def intro: safe_frameI)
  then show ?thesis
    unfolding authorize_broker_request_def verify_envelope_def check_plan_digest_def consume_nonce_def
    by (intro sf.frame_rules safe_clock safe_plan_digest)
qed

lemma safe_anchor_check [simp]: "confined safe (service_anchor_check sv x)"
  unfolding service_anchor_check_def by (auto intro!: sf.frame_rules split: list.split)

interpretation rs: resolver_frame safe "sv_lib sv" "service_resolver sv" for sv :: "'d service"
  by unfold_locales (simp_all add: service_resolver_def)

lemma safe_store_access_plan [simp]:
  "confined safe (store_access_plan L k actor reason ty key desired dj pk ak targets basis ttl)"
  unfolding store_access_plan_def
  by (intro sf.frame_rules safe_create_change_plan safe_add_plan_step)

lemma safe_perform: "confined safe (perform sv action payload subject)"
proof -
  have "confined safe (create_action sv payload subject)"
    unfolding create_action_def create_asset_internet_access_plan_def create_user_internet_access_plan_def with_digest_def Let_def
    by (intro sf.frame_rules safe_clock frame_snapshot frame_user rs.asset_plan_basis safe_store_access_plan safe_plan_digest)
  moreover have "confined safe (apply_action sv k)" for k
    unfolding apply_action_def by (intro safe_apply_plan rs.changed_plan_preconditions)
  moreover have "confined safe (reconcile_action sv payload)"
    unfolding reconcile_action_def by (intro sf.frame_rules safe_reconcile rs.resolve_for_reconcile)
  ultimately show ?thesis
    unfolding perform_def plan_key_of_def with_digest_def approve_action_def verify_action_def
    by (intro sf.frame_rules safe_plan_digest safe_transition_plan safe_get_change_plan safe_verify_plan safe_rollback_plan
        safe_plan_row_of safe_upsert_desired_policy)
qed

interpretation ss: service_frame safe sv for sv :: "'d service"
  by unfold_locales (simp_all add: safe_perform)

end
