(* ===== verification/Service_Correctness.thy ===== *)
theory Service_Correctness
  imports Control_Service
begin

text \<open>
  What the broker guarantees across any number of connections: plans move only along the transition table
  and an approved plan keeps its digest; the audit log, the delivered checkpoints and the used nonces only
  grow, and the log keeps verifying; the device is written only after the start of the action was logged and
  its checkpoint delivered; with writes disabled nothing the broker does changes an enforced entry; a caller
  that is not trusted, or whose request does not decode, changes nothing at all.
\<close>

section \<open>The journal\<close>

definition journal :: "'d netops \<Rightarrow> audit_row list \<times> json list \<times> nonce_row list" where
  "journal s = (audit_events s, delivered s, used_nonces s)"

lemma journal_rest: "confined (same rest_locks) m \<Longrightarrow> confined (same journal) m"
  by (erule confined_mono) (simp add: same_def rest_locks_def rest_def journal_def)

lemma journal_released: "confined released m \<Longrightarrow> confined (same journal) m"
  by (erule confined_mono) (simp add: same_def released_def rest_def journal_def)

interpretation rr: resolver_frame "same rest_locks" "sv_lib sv" "service_resolver sv" for sv :: "'d service"
proof unfold_locales
  fix x show "confined (same rest_locks) (anchor_check (service_resolver sv) x)"
    by (auto simp: service_resolver_def service_anchor_check_def intro!: sm.frame_rules split: list.split)
qed simp_all

lemma rest_store_plan [simp]:
  "confined (same rest_locks) (create_change_plan L a)" "confined (same rest_locks) (add_plan_step k ad op tk rq)"
proof -
  have "confined (same rest_locks) (insert_plan p)" "confined (same rest_locks) (insert_step st)" for p st
    by (auto simp: confined_def same_def rest_locks_def rest_def insert_plan_def insert_step_def Let_def)
  then show "confined (same rest_locks) (create_change_plan L a)" "confined (same rest_locks) (add_plan_step k ad op tk rq)"
    unfolding create_change_plan_def add_plan_step_def by (auto intro!: sm.frame_rules)
qed

lemma rest_plan_digest [simp]: "confined (same rest_locks) (plan_digest L k)"
  unfolding plan_digest_def by (intro sm.frame_rules rest_store)

lemma journal_perform: "confined (same journal) (perform sv action payload subject)"
proof -
  have cr: "confined (same rest_locks) (create_action sv payload subject)"
    unfolding create_action_def create_asset_internet_access_plan_def create_user_internet_access_plan_def
      with_digest_def store_access_plan_def Let_def
    by (intro sm.frame_rules rest_store frame_snapshot frame_user rr.asset_plan_basis rest_store_plan rest_plan_digest)
  have ap: "confined (same rest_locks) (approve_action sv k)" for k
    unfolding approve_action_def with_digest_def by (intro sm.frame_rules rest_transition_plan rest_plan_digest)
  have ins: "confined (same rest_locks) (bind (get_change_plan k) (with_digest sv k))" for k
    unfolding with_digest_def by (intro sm.frame_rules rest_store rest_plan_digest)
  have al: "confined released (apply_action sv k)" for k
    unfolding apply_action_def by (intro released_apply_plan rr.changed_plan_preconditions)
  have rc: "confined released (reconcile_action sv payload)"
    unfolding reconcile_action_def by (intro rl.frame_rules released_reconcile rr.resolve_for_reconcile)
  have up: "confined (same journal) (upsert_desired_policy L k a b c d e)" for L k a b c d e
  proof -
    have "confined (same journal) (utc_now L)" "confined (same journal) (plan_row_of k)" for L k
      by (simp_all add: journal_rest)
    then show ?thesis
      unfolding upsert_desired_policy_def Let_def
      by (intro sm.frame_rules sm.w_modify) (simp_all add: same_def journal_def)
  qed
  have ve: "confined (same journal) (verify_action sv k)" for k
    unfolding verify_action_def
    by (intro sm.frame_rules up journal_rest [OF rest_verify_plan] journal_rest [OF rest_store(4)])
  show ?thesis
    unfolding perform_def plan_key_of_def
    by (intro sm.w_if sm.w_ret sm.w_gets sm.w_raise sm.w_bind [OF sm.w_lift] ve journal_rest [OF cr] journal_rest [OF ap]
        journal_rest [OF ins] journal_released [OF al] journal_released [OF rc] journal_released [OF released_rollback_plan])
qed

lemma journal_grows:
  assumes "confined (same journal) m"
  shows "confined (grows audit_events) m" "confined (grows delivered) m" "confined (grows used_nonces) m"
    "confined (keeps (\<lambda>s. I (audit_events s))) m"
  using assms by (auto elim!: confined_mono simp: same_def grows_def keeps_def journal_def)

definition outside_log :: "'d netops \<Rightarrow> json list \<times> nonce_row list \<times> 'd" where
  "outside_log s = (delivered s, used_nonces s, device s)"

definition outside_sink :: "'d netops \<Rightarrow> audit_row list \<times> nonce_row list \<times> 'd" where
  "outside_sink s = (audit_events s, used_nonces s, device s)"

definition outside_nonces :: "'d netops \<Rightarrow> audit_row list \<times> json list \<times> 'd" where
  "outside_nonces s = (audit_events s, delivered s, device s)"

lemma clock_outside:
  "confined (same outside_log) (utc_now L)" "confined (same outside_log) (fresh_uuid L)"
  "confined (same outside_sink) (utc_now L)" "confined (same outside_nonces) (read_clock L)"
  by (simp_all add: confined_def same_def outside_log_def outside_sink_def outside_nonces_def fresh_uuid_def read_clock_def)

lemma append_event_outside: "confined (same outside_log) (append_event L signer ty payload)"
proof -
  have "confined (same outside_log) (insert_event r)" for r
    by (simp add: confined_def same_def outside_log_def insert_event_def)
  then show ?thesis unfolding append_event_def by (intro sm.frame_rules clock_outside)
qed

lemma build_checkpoint_pure:
  "build_checkpoint L signer i s = (r, t) \<Longrightarrow> t = s \<or> t = s\<lparr>ticks := Suc (ticks s)\<rparr>"
  by (auto simp: build_checkpoint_def prog_simps Let_def split: if_splits)

lemma deliver_checkpoint_run:
  "deliver_checkpoint up sink c s = (r, t) \<Longrightarrow>
     (r = Inr () \<and> t = s\<lparr>delivered := delivered s @ [c]\<rparr>) \<or> ((\<exists>e. r = Inl e) \<and> t = s)"
  by (auto simp: deliver_checkpoint_def prog_simps split: if_splits)

lemma authorize_outside: "confined (same outside_nonces) (authorize_broker_request L request peer)"
proof -
  have "confined (same outside_nonces) (insert_nonce n)" for n
    by (simp add: confined_def same_def outside_nonces_def insert_nonce_def)
  moreover have "confined (same outside_nonces) (plan_digest L k)" for k
    by (auto simp: confined_def same_def plan_digest_run split: option.split)
  ultimately show ?thesis
    unfolding authorize_broker_request_def verify_envelope_def check_plan_digest_def consume_nonce_def
    by (intro sm.frame_rules clock_outside)
qed

lemma authorize_nonces: "confined (grows used_nonces) (authorize_broker_request L request peer)"
proof -
  have "confined (grows used_nonces) (insert_nonce n)" for n
    by (simp add: confined_def grows_def insert_nonce_def)
  moreover have "confined (grows used_nonces) (plan_digest L k)" "confined (grows used_nonces) (read_clock L)" for k
    by (auto simp: confined_def grows_def plan_digest_run read_clock_def split: option.split)
  ultimately show ?thesis
    unfolding authorize_broker_request_def verify_envelope_def check_plan_digest_def consume_nonce_def
    by (intro gr.frame_rules)
qed

text \<open>A frame on the log, the sink and the nonces is a frame of the whole service.\<close>

lemma journal_service:
  fixes sv :: "'d service"
  assumes fr: "frame R0"
    and append: "\<And>ty payload. confined R0 (append_event (sv_lib sv) (sv_signer sv) ty payload)"
    and same: "\<And>s t :: 'd netops. journal t = journal s \<Longrightarrow> R0 s t"
    and sink: "\<And>(s :: 'd netops) c. R0 s (s\<lparr>delivered := delivered s @ [c]\<rparr>)"
    and nonces: "\<And>(s :: 'd netops) t. audit_events t = audit_events s \<Longrightarrow> delivered t = delivered s \<Longrightarrow>
      prefix (used_nonces s) (used_nonces t) \<Longrightarrow> R0 s t"
  shows "service_frame R0 sv"
proof (intro service_frame.intro fr service_frame_axioms.intro append)
  show "confined R0 (build_checkpoint (sv_lib sv) (sv_signer sv) i)" for i
    by (rule confinedI) (auto dest!: build_checkpoint_pure intro!: same simp: journal_def)
  show "confined R0 (deliver_checkpoint (sv_sink_up sv) (sv_sink sv) c)" for c
    by (rule confinedI) (auto dest!: deliver_checkpoint_run intro: same sink)
  show "confined R0 (perform sv action payload subject)" for action payload subject
    by (rule confined_mono [OF journal_perform]) (simp add: same_def same)
  show "confined R0 (authorize_broker_request (sv_lib sv) request peer)" for request peer
  proof (rule confinedI)
    fix s t :: "'d netops" and r assume run: "authorize_broker_request (sv_lib sv) request peer s = (r, t)"
    have "prefix (used_nonces s) (used_nonces t)"
      using confinedD [OF authorize_nonces run] by (simp add: grows_def)
    with confined_sameD [OF authorize_outside run] show "R0 s t"
      by (intro nonces) (simp_all add: outside_nonces_def)
  qed
qed

lemma append_event_grows: "confined (grows audit_events) (append_event L signer ty payload)"
  by (rule confinedI, case_tac r)
    (auto simp: grows_def dest: append_event_error elim!: append_event_run)

lemma outside_log_grows:
  "confined (grows delivered) (append_event L signer ty payload)" "confined (grows used_nonces) (append_event L signer ty payload)"
  by (rule confined_mono [OF append_event_outside]; simp add: same_def grows_def outside_log_def)+

interpretation sa: service_frame "grows audit_events" sv for sv :: "'d service"
  by (rule journal_service [OF gr.frame_axioms append_event_grows]) (auto simp: grows_def journal_def)

interpretation sd: service_frame "grows delivered" sv for sv :: "'d service"
  by (rule journal_service [OF gr.frame_axioms outside_log_grows(1)]) (auto simp: grows_def journal_def)

interpretation sn: service_frame "grows used_nonces" sv for sv :: "'d service"
  by (rule journal_service [OF gr.frame_axioms outside_log_grows(2)]) (auto simp: grows_def journal_def)

lemma chain_service:
  assumes "keys (key_id (sv_signer sv)) = Some pub"
    and "\<And>m. ed25519_verify (sv_lib sv) pub (ed25519_sign (sv_lib sv) (private_key (sv_signer sv)) m) m"
  shows "service_frame (keeps (\<lambda>s. chain_ok (sv_lib sv) keys (audit_events s))) sv"
proof (rule journal_service [OF kp.frame_axioms])
  show "confined (keeps (\<lambda>s. chain_ok (sv_lib sv) keys (audit_events s))) (append_event (sv_lib sv) (sv_signer sv) ty payload)"
    for ty payload
  proof (rule confinedI)
    fix s r t assume run: "append_event (sv_lib sv) (sv_signer sv) ty payload s = (r, t)"
    show "keeps (\<lambda>s. chain_ok (sv_lib sv) keys (audit_events s)) s t"
    proof (cases r)
      case (Inl e)
      with run show ?thesis by (auto simp: keeps_def dest: append_event_error)
    next
      case (Inr x)
      with run have "append_event (sv_lib sv) (sv_signer sv) ty payload s = (Inr x, t)" by simp
      from append_event_chain [of keys "sv_signer sv" pub "sv_lib sv" s, OF assms(1) assms(2) _ this]
      show ?thesis by (simp add: keeps_def)
    qed
  qed
qed (simp_all add: keeps_def journal_def)

text \<open>C8: The journal of the broker. Over any number of connections, whatever the callers send and whatever
  fails, the audit log, the delivered checkpoints and the used nonces only grow; and if the log verified
  before, it verifies after, given that signatures of the configured signer verify under its public key.\<close>

theorem broker_keeps_journal:
  assumes "keys (key_id (sv_signer sv)) = Some pub"
    and "\<And>m. ed25519_verify (sv_lib sv) pub (ed25519_sign (sv_lib sv) (private_key (sv_signer sv)) m) m"
    and run: "serve sv peers cs s = (r, t)"
  shows "prefix (audit_events s) (audit_events t) \<and> prefix (delivered s) (delivered t) \<and> prefix (used_nonces s) (used_nonces t)
    \<and> (verify_chain (sv_lib sv) keys (audit_events s) = Inr ok \<longrightarrow>
        (\<exists>ok'. verify_chain (sv_lib sv) keys (audit_events t) = Inr ok'))"
  using confinedD [OF sa.serve run] confinedD [OF sd.serve run] confinedD [OF sn.serve run]
    confinedD [OF service_frame.serve [OF chain_service [of keys sv, OF assms(1,2)]] run]
  by (auto simp: grows_def keeps_def chain_ok_def)

text \<open>C7: Plans across the life of the broker. Over any number of connections a well-formed database stays well
  formed, no plan disappears, every plan has moved along a path of the transition table, and a plan that was
  approved (or further) keeps its digest, so that an authorization bound to the digest is bound to the content
  that was approved.\<close>

theorem broker_keeps_plans:
  assumes wf: "wf_db s" and run: "serve sv peers cs s = (r, t)"
  shows "wf_db t \<and> (\<forall>k p. find_plan (plans s) k = Some p \<longrightarrow>
    (\<exists>q. find_plan (plans t) k = Some q \<and> plan_path (pl_status p) (pl_status q)
      \<and> (\<not> unfrozen (pl_status p) \<longrightarrow> fst (plan_digest L k t) = fst (plan_digest L k s) \<and> pl_reason q = pl_reason p)))"
proof -
  have "wf_db t" and ev: "evolves s t"
    using confinedD [OF ss.serve run] wf by (simp_all add: safe_def)
  moreover have "\<exists>q. find_plan (plans t) k = Some q \<and> plan_path (pl_status p) (pl_status q)
      \<and> (\<not> unfrozen (pl_status p) \<longrightarrow> fst (plan_digest L k t) = fst (plan_digest L k s) \<and> pl_reason q = pl_reason p)"
    if p: "find_plan (plans s) k = Some p" for k p
    using evolves_find_plan [OF ev p] plan_digest_frozen [OF ev p] by (auto simp: row_evolves_def)
  ultimately show ?thesis by blast
qed

section \<open>Writes to the device\<close>

lemma last_event_max: "last_event xs = Some r \<Longrightarrow> y \<in> set xs \<Longrightarrow> au_sequence y \<le> au_sequence r"
proof -
  assume r: "last_event xs = Some r" and y: "y \<in> set xs"
  let ?ys = "sort_key au_sequence xs"
  have ne: "?ys \<noteq> []" and last: "r = last ?ys" using r by (auto simp: last_event_def split: list.splits)
  have "y \<in> set ?ys" using y by simp
  then obtain i where i: "i < length ?ys" "y = ?ys ! i" by (metis in_set_conv_nth)
  have "sorted (map au_sequence ?ys)" by simp
  then have "au_sequence (?ys ! i) \<le> au_sequence (?ys ! (length ?ys - 1))"
    using i(1) by (auto simp: sorted_iff_nth_mono)
  then show ?thesis using i ne last by (simp add: last_conv_nth)
qed

lemma last_event_snoc:
  assumes "au_sequence row = (case last_event xs of None \<Rightarrow> 1 | Some r \<Rightarrow> au_sequence r + 1)"
  shows "last_event (xs @ [row]) = Some row"
proof -
  have "au_sequence y \<le> au_sequence row" if "y \<in> set xs" for y
  proof (cases "last_event xs")
    case None
    then have "sort_key au_sequence xs = []" by (simp add: last_event_def split: list.splits)
    then have "set xs = {}" by (metis set_empty set_sort)
    with that show ?thesis by simp
  next
    case (Some r)
    with last_event_max [OF this that] assms show ?thesis by simp
  qed
  then have "sort_key au_sequence (xs @ [row]) = sort_key au_sequence xs @ [row]"
    by (intro sort_key_snoc_max) simp
  then show ?thesis by (cases "sort_key au_sequence xs") (simp_all add: last_event_def)
qed

lemma build_checkpoint_Inr:
  assumes "build_checkpoint L signer i s = (Inr cp, t)"
  shows "t = s\<lparr>ticks := Suc (ticks s)\<rparr> \<and> get cp ''chain_head'' = JStr (case last_event (audit_events s) of
    None \<Rightarrow> GENESIS_HASH | Some row \<Rightarrow> au_event_hash row)"
proof -
  obtain created sig where "t = s\<lparr>ticks := Suc (ticks s)\<rparr>"
      "cp = set_field (checkpoint_body signer i (audit_events s) created) ''signature'' sig"
    using assms by (auto simp: build_checkpoint_def prog_simps Let_def split: if_splits)
  moreover have "get (checkpoint_body signer i (audit_events s) created) ''chain_head'' = JStr (case last_event (audit_events s) of
      None \<Rightarrow> GENESIS_HASH | Some row \<Rightarrow> au_event_hash row)"
    by (cases "last_event (audit_events s)") (simp_all add: checkpoint_body_def get_default_def GENESIS_HASH_def)
  ultimately show ?thesis by simp
qed

lemma checkpoint_cases:
  assumes "checkpoint sv s = (r, t)"
  shows "device t = device s \<and> audit_events t = audit_events s
    \<and> ((\<exists>e. r = Inl e) \<and> delivered t = delivered s \<or> r = Inr () \<and> sv_writes_enabled sv
       \<and> (\<exists>cp. delivered t = delivered s @ [cp] \<and> get cp ''chain_head'' = JStr (case last_event (audit_events s) of
            None \<Rightarrow> GENESIS_HASH | Some row \<Rightarrow> au_event_hash row)))"
proof (cases "sv_writes_enabled sv")
  case False
  with assms show ?thesis by (auto simp: checkpoint_def raise_def)
next
  case True
  with assms have "bind (build_checkpoint (sv_lib sv) (sv_signer sv) (sink_instance_id (sv_sink sv)))
       (deliver_checkpoint (sv_sink_up sv) (sv_sink sv)) s = (r, t)" by (simp add: checkpoint_def)
  then show ?thesis
  proof (cases rule: bind_cases)
    case (error e)
    then show ?thesis by (auto dest: build_checkpoint_pure)
  next
    case (ok cp s')
    with build_checkpoint_Inr [OF ok(1)] deliver_checkpoint_run [OF ok(2)] True show ?thesis by auto
  qed
qed

lemma audit_device: "audit sv ty action peer subject o' s = (r, t) \<Longrightarrow> device t = device s \<and> delivered t = delivered s"
  by (auto simp: audit_def seq_def outside_log_def ret_def elim!: bind_cases dest!: confined_sameD [OF append_event_outside])

lemma started:
  assumes "seq (audit sv ty action peer subject o') (checkpoint sv) s = (Inr u, s1)"
  shows "sv_writes_enabled sv \<and> device s1 = device s \<and> (\<exists>row cp. audit_events s1 = audit_events s @ [row]
    \<and> au_event_type row = ty \<and> delivered s1 = delivered s @ [cp] \<and> get cp ''chain_head'' = JStr (au_event_hash row))"
proof -
  obtain s0 where a: "audit sv ty action peer subject o' s = (Inr (), s0)" and c: "checkpoint sv s0 = (Inr (), s1)"
    using assms by (auto simp: seq_Inr)
  from a obtain x payload where "append_event (sv_lib sv) (sv_signer sv) ty payload s = (Inr x, s0)"
    by (auto simp: audit_def seq_Inr ret_def)
  then obtain row where row: "audit_events s0 = audit_events s @ [row]" "au_event_type row = ty"
      "au_sequence row = (case last_event (audit_events s) of None \<Rightarrow> 1 | Some r \<Rightarrow> au_sequence r + 1)"
    by (rule append_event_run) blast
  from checkpoint_cases [OF c] audit_device [OF a] row last_event_snoc [OF row(3)] show ?thesis by auto
qed

text \<open>C6: Nothing is written to the device off the record. When an action that may write has changed the device, or has
  even been performed, the broker was configured for writes and, before the action ran and while the device was
  still as it was, the log had been extended by exactly the start event and a checkpoint whose chain head is
  the hash of that event had been delivered to the audit sink; both are still there afterwards.\<close>

theorem write_only_on_record:
  assumes act: "action \<in> WRITE_ACTIONS" and run: "dispatch sv action payload peer subject s = (r, t)"
  shows "device t = device s \<or> (\<exists>s1 s2 row cp q. sv_writes_enabled sv
    \<and> device s1 = device s \<and> audit_events s1 = audit_events s @ [row] \<and> au_event_type row = ''network_control_started''
    \<and> delivered s1 = delivered s @ [cp] \<and> get cp ''chain_head'' = JStr (au_event_hash row)
    \<and> perform sv action payload subject s1 = (q, s2) \<and> device t = device s2
    \<and> prefix (audit_events s1) (audit_events t) \<and> prefix (delivered s1) (delivered t))"
proof -
  let ?start = "seq (audit sv ''network_control_started'' action peer subject ''started'') (checkpoint sv)"
  let ?fail = "\<lambda>e. seq (audit sv ''network_control_failed'' action peer subject ''failed'') (seq (checkpoint sv) (raise e))"
  let ?done = "\<lambda>x. seq (audit sv ''network_control_succeeded'' action peer subject ''ok'') (seq (checkpoint sv) (ret x))"
  have quiet: "confined (same device) (audit sv ty action peer subject o')" "confined (same device) (checkpoint sv)" for ty o'
    by (auto intro!: confinedI simp: same_def dest: audit_device checkpoint_cases)
  have rest: "confined (same device) (?fail e)" "confined (same device) (?done x)" for e x
    by (intro sm.frame_rules quiet)+
  have growa: "confined (grows audit_events) (?fail e)" "confined (grows audit_events) (?done x)" for e x
    by (intro gr.frame_rules sa.audit sa.checkpoint)+
  have growd: "confined (grows delivered) (?fail e)" "confined (grows delivered) (?done x)" for e x
    by (intro gr.frame_rules sd.audit sd.checkpoint)+
  have d: "bind (catch (seq ?start (perform sv action payload subject)) ?fail) ?done s = (r, t)"
    using run by (simp add: dispatch_def act)
  obtain q0 s1 where s1: "?start s = (q0, s1)" by (rule prod.exhaust)
  show ?thesis
  proof (cases q0)
    case (Inl e)
    have "device s1 = device s" using confined_sameD [OF sm.w_seq [OF quiet] s1] .
    moreover have "seq ?start (perform sv action payload subject) s = (Inl e, s1)"
      using s1 Inl by (simp add: seq_def [of ?start] bind_def)
    from sm.after_try [OF rest this d] have "device t = device s1" by (simp add: same_def)
    ultimately show ?thesis by simp
  next
    case (Inr u)
    obtain q s2 where s2: "perform sv action payload subject s1 = (q, s2)" by (rule prod.exhaust)
    have m: "seq ?start (perform sv action payload subject) s = (q, s2)"
      using s1 Inr s2 by (simp add: seq_def [of ?start] bind_def)
    have "journal s2 = journal s1" by (rule confined_sameD [OF journal_perform s2])
    then have "device t = device s2" "prefix (audit_events s1) (audit_events t)" "prefix (delivered s1) (delivered t)"
      using sm.after_try [OF rest m d] gr.after_try [OF growa m d] gr.after_try [OF growd m d]
      by (simp_all add: same_def grows_def journal_def)
    with started [OF s1 [unfolded Inr]] s2 show ?thesis by blast
  qed
qed

section \<open>A broker that may not write\<close>

lemma device_clock:
  "confined (same device) (utc_now L)" "confined (same device) (fresh_uuid L)" "confined (same device) (read_context_snapshot snap)"
  "confined (same device) (plan_row_of k)" "confined (same device) (plan_digest L k)" "confined (same device) (get_change_plan k)"
  by (simp_all add: confined_def same_def fresh_uuid_def read_context_snapshot_def plan_row_of_run plan_digest_run split: option.split)

lemma device_store:
  "confined (same device) (create_change_plan L a)" "confined (same device) (add_plan_step k ad op tk rq)"
  "confined (same device) (transition_plan L k st)" "confined (same device) (upsert_desired_policy L k ty key d re sc)"
proof -
  have ins: "confined (same device) (insert_plan p)" "confined (same device) (insert_step st)" for p st
    by (auto simp: confined_def same_def insert_plan_def insert_step_def Let_def)
  show "confined (same device) (create_change_plan L a)" "confined (same device) (add_plan_step k ad op tk rq)"
    unfolding create_change_plan_def add_plan_step_def by (intro sm.frame_rules ins device_clock)+
  show "confined (same device) (transition_plan L k st)"
    by (rule confinedI) (simp add: same_def transition_plan_device)
  show "confined (same device) (upsert_desired_policy L k ty key d re sc)"
    unfolding upsert_desired_policy_def by (intro sm.frame_rules device_clock sm.w_modify) (simp add: same_def)
qed

context device_adapter
begin

lemma untouched_same: "confined (same device) m \<Longrightarrow> confined untouched m"
  by (erule confined_mono) (simp add: same_def untouched_def)

lemmas untouched_store = device_clock [THEN untouched_same] device_store [THEN untouched_same]

lemma untouched_on_device:
  assumes "\<And>d r d'. good d \<Longrightarrow> m d = (r, d') \<Longrightarrow> good d' \<and> view d' = view d"
  shows "confined untouched (on_device m)"
proof (rule confinedI)
  fix s r t assume "on_device m s = (r, t)"
  then obtain d where "m (device s) = (r, d)" "t = s\<lparr>device := d\<rparr>" by (auto simp: on_device_run)
  with assms [of "device s" r d] show "untouched s t" by (simp add: untouched_def)
qed

lemma untouched_resolver: "sv_adapter sv = A \<Longrightarrow> resolver_frame untouched (sv_lib sv) (service_resolver sv)"
proof (intro resolver_frame.intro untouched_frame resolver_frame_axioms.intro)
  assume A: "sv_adapter sv = A"
  have "confined untouched (on_device (ad_inspect A))" by (rule untouched_on_device) (rule inspect_frame)
  then show "confined untouched (anchor_check (service_resolver sv) x)" for x
    by (auto simp: service_resolver_def service_anchor_check_def A intro!: ut_rules split: list.split)
qed (rule untouched_same, simp add: confined_def same_def is_fresh_run read_context_snapshot_def
    resolve_policy_asset_for_user_def read_clock_def bind_def ret_def split: option.split)+

lemma untouched_verify_plan: "confined untouched (verify_plan L' A k probe)"
proof -
  have ins: "confined untouched (on_device (ad_inspect A))" and lst: "confined untouched (on_device (ad_list A tgt))" for tgt
    by (rule untouched_on_device, erule inspect_frame list_frame, assumption)+
  have set: "confined untouched (set_step P f)" "confined untouched (plan_and_steps k)"
      "confined untouched (active_connectivity_result L' probe p e)" for P f k p e
    by (rule untouched_device, simp, rule untouched_device, simp add: plan_and_steps_run split: option.split,
        rule untouched_device, metis active_connectivity_pure prod.collapse)
  have "confined untouched (check_anchors L' A fps acc ts)" for fps acc ts
    by (induction ts arbitrary: acc) (auto simp: Let_def intro!: ut_rules ins)
  moreover have "confined untouched (verify_steps L' A k anchors active sts)" for anchors active sts
    by (induction sts) (auto intro!: ut_rules lst set)
  ultimately show ?thesis
    unfolding verify_plan_def by (intro ut_rules set untouched_transition)
qed

lemma untouched_perform:
  assumes "sv_adapter sv = A" and "action \<notin> WRITE_ACTIONS"
  shows "confined untouched (perform sv action payload subject)"
proof -
  note R = untouched_resolver [OF assms(1)]
  have cr: "confined untouched (create_action sv payload subject)"
    unfolding create_action_def create_asset_internet_access_plan_def create_user_internet_access_plan_def
      with_digest_def store_access_plan_def Let_def
    by (intro ut_rules untouched_store resolver_frame.user [OF R] resolver_frame.asset_plan_basis [OF R])
  have ap: "confined untouched (approve_action sv k)" for k
    unfolding approve_action_def with_digest_def by (intro ut_rules untouched_store)
  have ins: "confined untouched (bind (get_change_plan k) (with_digest sv k))" for k
    unfolding with_digest_def by (intro ut_rules untouched_store)
  have ve: "confined untouched (verify_action sv k)" for k
    unfolding verify_action_def assms(1) by (intro ut_rules untouched_store untouched_verify_plan)
  have no: "action \<noteq> ''plan.apply''" "action \<noteq> ''plan.rollback''" "action \<noteq> ''policy.reconcile''"
    using assms(2) by (auto simp: WRITE_ACTIONS_def)
  show ?thesis
    unfolding perform_def plan_key_of_def if_not_P [OF no(1)] if_not_P [OF no(2)] if_not_P [OF no(3)]
    by (intro ut_rules cr ap ve ins)
qed

lemma untouched_service:
  assumes "sv_adapter sv = A" and "\<not> sv_writes_enabled sv"
  shows "service_frame untouched sv"
proof (intro service_frame.intro untouched_frame service_frame_axioms.intro)
  show "confined untouched (append_event (sv_lib sv) (sv_signer sv) ty payload)" for ty payload
    by (rule untouched_same, rule confined_mono [OF append_event_outside]) (simp add: same_def outside_log_def)
  show "confined untouched (build_checkpoint (sv_lib sv) (sv_signer sv) i)" for i
    by (rule untouched_same, rule confinedI) (auto simp: same_def dest!: build_checkpoint_pure)
  show "confined untouched (deliver_checkpoint (sv_sink_up sv) (sv_sink sv) c)" for c
    by (rule untouched_same, rule confinedI) (auto simp: same_def dest!: deliver_checkpoint_run)
  show "confined untouched (authorize_broker_request (sv_lib sv) request peer)" for request peer
    by (rule untouched_same, rule confined_mono [OF authorize_outside]) (simp add: same_def outside_nonces_def)
  show "action \<notin> WRITE_ACTIONS \<or> sv_writes_enabled sv \<Longrightarrow> confined untouched (perform sv action payload subject)"
    for action payload subject
    using untouched_perform [OF assms(1)] assms(2) by blast
qed

end

text \<open>The kill switch works. While writes are disabled, whatever the callers send over any number of
  connections, in whatever state plans and policies are, the set of pairs of address and owner that the device
  enforces stays exactly what it was.\<close>

theorem writes_disabled_device_unchanged:
  assumes "device_adapter L (sv_adapter sv) view nf good" and "good (device s)"
    and "\<not> sv_writes_enabled sv" and "serve sv peers cs s = (r, t)"
  shows "view (device t) = view (device s)"
  using confinedD [OF service_frame.serve [OF device_adapter.untouched_service [OF assms(1) refl assms(3)]] assms(4)]
    assms(2) device_adapter.untouched_def [OF assms(1)] by simp

section \<open>Callers that are refused\<close>

text \<open>A caller that is not trusted changes nothing. If the kernel's credentials of the peer are not those of a
  configured one, or the request does not decode to a well-formed one (a protocol error), the turn of the loop
  leaves the broker's whole state as it was, the device included, and only the error goes back, provided it
  fits the size of a response.\<close>

theorem refused_caller_changes_nothing:
  assumes "trusted_peer peers c = Inl e \<or>
      (\<exists>peer m. trusted_peer peers c = Inr peer \<and> decode_request (sv_lib sv) (cn_data c) = Inl e \<and> e = ProtocolError m)"
  shows "serve_one sv peers c s = (encode_response (sv_lib sv) (error_response [] e), s)"
proof -
  have "trusted_peer peers c = Inl e \<Longrightarrow> caught e"
    by (auto simp: trusted_peer_def split: option.splits if_splits)
  with assms show ?thesis
    by (auto simp: serve_one_def recover_def catch_def raise_def ret_def bind_def lift_def)
qed

text \<open>A request the broker does not survive. A trusted local caller that sends an otherwise well-formed request
  whose action is a JSON list makes the membership test of the action raise \<open>TypeError\<close>, which the loop does
  not catch: \<open>serve\<close> ends, and none of the connections that follow is served.\<close>

theorem unhashable_action_ends_broker:
  assumes "trusted_peer peers c = Inr peer"
    and "cn_data c \<noteq> []" "length (cn_data c) \<le> MAX_REQUEST_BYTES" "CHR 0x0A \<notin> set (cn_data c)" "CHR 0x0D \<notin> set (cn_data c)"
    and "json_loads (sv_lib sv) (cn_data c) = Some v" and "is_dict v" and "keyset v = REQUEST_FIELDS"
    and "get v ''protocol_version'' = JInt 2" and "get v ''request_id'' = JStr i" and "uuid_ok (sv_lib sv) i"
    and "get v ''action'' = JList xs"
  shows "serve sv peers (c # cs) s = (Inl TypeError, s)"
proof -
  have "decode_request (sv_lib sv) (cn_data c) = Inl TypeError"
    using assms(2-) by (simp add: decode_request_def decode_value_def PROTOCOL_VERSION_def)
  with assms(1) show ?thesis
    by (simp add: serve_one_def recover_def catch_def raise_def bind_def)
qed

section \<open>A concrete broker\<close>

definition sdemo :: "bool \<Rightarrow> sim_router service" where
  "sdemo writes = \<lparr>sv_lib = demo_L, sv_os = demo_os, sv_snapshot = (\<lambda>n. Inr rdemo_ctx), sv_adapter = demo_adapter,
     sv_sources = [(''hq'', ''gw'')], sv_source_sla = 300, sv_signer = demo_signer, sv_writes_enabled = writes,
     sv_sink = \<lparr>sink_instance_id = ''i'', sink_host = ''h'', sink_identity_file = ''f'', sink_known_hosts = ''k''\<rparr>,
     sv_sink_up = (\<lambda>sent c. True), sv_plan_ttl = 300, sv_identity_age = 900, sv_probe = demo_probe\<rparr>"

definition sdemo_peers :: "int \<rightharpoonup> authenticated_peer" where
  "sdemo_peers = (\<lambda>u. if u = 33 then Some demo_peer else None)"

definition sdemo_conn :: "string \<Rightarrow> connection" where
  "sdemo_conn data = \<lparr>cn_uid = 33, cn_gid = 33, cn_pid = 9, cn_data = data\<rparr>"

lemma sdemo_sel [simp]:
  "sv_lib (sdemo w) = demo_L" "sv_signer (sdemo w) = demo_signer" "sv_writes_enabled (sdemo w) = w" "sv_adapter (sdemo w) = demo_adapter"
  by (simp_all add: sdemo_def)

theorem broker_keeps_journal_witness:
  "\<exists>ok. verify_chain demo_L [''audit-1'' \<mapsto> ''k''] (audit_events (snd (serve (sdemo True) sdemo_peers [sdemo_conn demo_line] demo_db))) = Inr ok"
proof -
  have "verify_chain demo_L [''audit-1'' \<mapsto> ''k''] (audit_events demo_db) = Inr (JObj [(''valid'', JBool True), (''events'', JInt 0)])"
    by code_simp
  then show ?thesis
    using broker_keeps_journal [of "[''audit-1'' \<mapsto> ''k'']" "sdemo True" "''k''" sdemo_peers "[sdemo_conn demo_line]" demo_db,
        OF _ _ surjective_pairing]
    by (simp add: demo_signer_def)
qed

theorem broker_keeps_plans_witness:
  "\<exists>q. find_plan (plans (snd (serve (sdemo True) sdemo_peers [sdemo_conn demo_line] demo_db))) ''plan-1'' = Some q
     \<and> plan_path Approved (pl_status q)"
proof -
  have "wf_db demo_db" by code_simp
  from broker_keeps_plans [OF this surjective_pairing, of "sdemo True" sdemo_peers "[sdemo_conn demo_line]" demo_L] show ?thesis
    by (auto dest!: spec [of _ "''plan-1''"])
qed

theorem write_only_on_record_witness:
  "let run = dispatch (sdemo True) ''plan.apply'' (JObj [(''plan_key'', JStr ''plan-1'')]) demo_peer (JObj []) demo_db in
   device (snd run) = device demo_db \<or> (\<exists>row. au_event_type row = ''network_control_started'' \<and> row \<in> set (audit_events (snd run)))"
proof -
  have a: "''plan.apply'' \<in> WRITE_ACTIONS" by (simp add: WRITE_ACTIONS_def)
  from write_only_on_record [OF a surjective_pairing, of "sdemo True" "JObj [(''plan_key'', JStr ''plan-1'')]" demo_peer "JObj []" demo_db]
  show ?thesis unfolding Let_def
    by (elim disjE exE conjE) (auto dest!: set_mono_prefix)
qed

theorem writes_disabled_device_unchanged_witness:
  "entry_view demo_L (sr_entries (device (snd (serve (sdemo False) sdemo_peers [sdemo_conn demo_line] demo_db))))
     = entry_view demo_L (sr_entries (device demo_db))"
proof -
  have "sim_good demo_L (device demo_db)" by code_simp
  from writes_disabled_device_unchanged [of demo_L "sdemo False" "\<lambda>d. entry_view demo_L (sr_entries d)" "adapter_ipv4 demo_L"
      "sim_good demo_L" demo_db sdemo_peers "[sdemo_conn demo_line]", OF _ this _ surjective_pairing] demo_contract
  show ?thesis by simp
qed

theorem refused_caller_changes_nothing_witness:
  "snd (serve_one (sdemo True) Map.empty (sdemo_conn demo_line) demo_db) = demo_db"
proof -
  have "trusted_peer Map.empty (sdemo_conn demo_line) = Inl (ProtocolError ''untrusted local caller'')"
    by (simp add: trusted_peer_def)
  from refused_caller_changes_nothing [OF disjI1, OF this, of "sdemo True" demo_db] show ?thesis by simp
qed

definition sdemo_bad :: json where
  "sdemo_bad = JObj [(''action'', JList []), (''authorization'', JObj []), (''payload'', JObj []), (''protocol_version'', JInt 2),
     (''request_id'', JStr (replicate 36 CHR ''0'')), (''signature'', JStr ''s'')]"

theorem unhashable_action_ends_broker_witness:
  "serve (sdemo True) sdemo_peers [sdemo_conn (dumps (\<lambda>_. []) True sdemo_bad), sdemo_conn demo_line] demo_db = (Inl TypeError, demo_db)"
proof (rule unhashable_action_ends_broker)
  let ?d = "dumps (\<lambda>_. []) True sdemo_bad"
  show "trusted_peer sdemo_peers (sdemo_conn ?d) = Inr (demo_peer\<lparr>pe_pid := 9\<rparr>)"
    by (simp add: trusted_peer_def sdemo_peers_def sdemo_conn_def demo_peer_def)
  show "cn_data (sdemo_conn ?d) \<noteq> []" "length (cn_data (sdemo_conn ?d)) \<le> MAX_REQUEST_BYTES"
    by code_simp+
  show "CHR 0x0A \<notin> set (cn_data (sdemo_conn ?d))" "CHR 0x0D \<notin> set (cn_data (sdemo_conn ?d))" by code_simp+
  show "json_loads (sv_lib (sdemo True)) (cn_data (sdemo_conn ?d)) = Some sdemo_bad" by code_simp
  show "is_dict sdemo_bad" "get sdemo_bad ''protocol_version'' = JInt 2" "get sdemo_bad ''action'' = JList []"
    "get sdemo_bad ''request_id'' = JStr (replicate 36 CHR ''0'')" "keyset sdemo_bad = REQUEST_FIELDS"
    by (auto simp: sdemo_bad_def get_default_def keyset_def REQUEST_FIELDS_def)
  show "uuid_ok (sv_lib (sdemo True)) (replicate 36 CHR ''0'')" by (simp add: demo_lib_def)
qed

end
