(* ===== verification/Connectivity_Probe.thy ===== *)
theory Connectivity_Probe
  imports Plan_Executor
begin

text \<open>
  The active connectivity probe (\<open>src/netopsctl/connectivity_probe.py\<close>): its configuration, the ssh command, the
  script that runs on the probing host, and the reading of its output. Running the command is a parameter, a
  function of the argument vector and of the state of the world that gives exit status and output.
\<close>

section \<open>Configuration\<close>

definition probe_asset_key_re :: "string \<Rightarrow> bool" where
  "probe_asset_key_re = ident_match is_alnum (\<lambda>c. is_alnum c \<or> in_chars ''._:-'' c) 180"

definition probe_user_re :: "string \<Rightarrow> bool" where
  "probe_user_re = ident_match (\<lambda>c. is_upper_az c \<or> is_lower_az c \<or> c = CHR ''_'')
     (\<lambda>c. is_alnum c \<or> in_chars ''_-'' c) 63"

record endpoint =
  ep_host :: string
  ep_port :: int

record probe_target =
  pt_host :: string
  pt_user :: string
  pt_internet :: endpoint
  pt_internal :: endpoint

record ssh_probe =
  sp_assets :: "(string \<times> probe_target) list"
  sp_identity_file :: string

definition invalid_probe :: exn where
  "invalid_probe = ValueError ''invalid active connectivity probe configuration''"

definition probe_ipv4 :: "pylib \<Rightarrow> json \<Rightarrow> string res" where
  "probe_ipv4 L value = (if \<not> is_str value then Inl invalid_probe
     else case ip_address L value of None \<Rightarrow> Inl invalid_probe
     | Some parsed \<Rightarrow> if ip_version parsed \<noteq> 4 then Inl invalid_probe else Inr (ip_text L parsed))"

definition ENDPOINT_FIELDS :: "string set" where
  "ENDPOINT_FIELDS = {''host'', ''port''}"

definition PROBE_FIELDS :: "string set" where
  "PROBE_FIELDS = {''host'', ''user'', ''internet'', ''internal''}"

definition probe_endpoint :: "pylib \<Rightarrow> json \<Rightarrow> endpoint res" where
  "probe_endpoint L value = (if \<not> is_dict value \<or> keyset value \<noteq> ENDPOINT_FIELDS then Inl invalid_probe
     else let port = get value ''port'' in
       if \<not> type_is_int port \<or> \<not> (1 \<le> int_value port \<and> int_value port \<le> 65535) then Inl invalid_probe
       else rbind (probe_ipv4 L (get value ''host'')) (\<lambda>host. Inr \<lparr>ep_host = host, ep_port = int_value port\<rparr>))"

definition probe_record :: "pylib \<Rightarrow> string \<Rightarrow> json \<Rightarrow> probe_target res" where
  "probe_record L asset_key record =
     (if \<not> probe_asset_key_re asset_key \<or> \<not> is_dict record then Inl invalid_probe
      else if keyset record \<noteq> PROBE_FIELDS then Inl invalid_probe
      else rbind (probe_ipv4 L (get record ''host'')) (\<lambda>host.
        let user = get record ''user'' in
        if \<not> is_str user \<or> \<not> probe_user_re (str_value user) then Inl invalid_probe
        else rbind (probe_endpoint L (get record ''internet'')) (\<lambda>internet.
          rbind (probe_endpoint L (get record ''internal'')) (\<lambda>internal.
          Inr \<lparr>pt_host = host, pt_user = str_value user, pt_internet = internet, pt_internal = internal\<rparr>))))"

fun probe_records :: "pylib \<Rightarrow> (string \<times> json) list \<Rightarrow> (string \<times> probe_target) list res" where
  "probe_records L [] = Inr []"
| "probe_records L ((asset_key, record) # recs) = rbind (probe_record L asset_key record) (\<lambda>target.
     rbind (probe_records L recs) (\<lambda>assets. Inr ((asset_key, target) # assets)))"

definition probe_from_json :: "pylib \<Rightarrow> string \<Rightarrow> string \<Rightarrow> ssh_probe res" where
  "probe_from_json L raw identity_file = (case json_loads L raw of None \<Rightarrow> Inl invalid_probe
     | Some parsed \<Rightarrow>
         if \<not> is_dict parsed \<or> \<not> truthy parsed \<or> \<not> startswith identity_file ''/'' then Inl invalid_probe
         else rbind (probe_records L (items parsed)) (\<lambda>assets.
           Inr \<lparr>sp_assets = assets, sp_identity_file = identity_file\<rparr>))"

section \<open>Running the probe\<close>

definition probe_arguments :: "probe_target \<Rightarrow> string list" where
  "probe_arguments t = [ep_host (pt_internet t), int_text (ep_port (pt_internet t)),
     ep_host (pt_internal t), int_text (ep_port (pt_internal t))]"

definition ssh_command :: "ssh_probe \<Rightarrow> probe_target \<Rightarrow> string list" where
  "ssh_command p t = [''ssh'', ''-i'', sp_identity_file p, ''-o'', ''BatchMode=yes'', ''-o'', ''StrictHostKeyChecking=yes'',
     ''-o'', ''ConnectTimeout=8'', pt_user t @ ''@'' @ pt_host t, ''python3'', ''-''] @ probe_arguments t"

text \<open>The script fed to the remote interpreter: it connects to both endpoints and prints a line for each. A port
  that is no integer ends it with a traceback.\<close>

definition probe_line :: "string \<Rightarrow> bool \<Rightarrow> string" where
  "probe_line label up = label @ (if up then ''=reachable'' else ''=blocked'') @ [CHR 0x0A]"

definition FIXED_TCP_PROBE :: "pylib \<Rightarrow> (string \<Rightarrow> int \<Rightarrow> bool) \<Rightarrow> string list \<Rightarrow> int \<times> string" where
  "FIXED_TCP_PROBE L connect argv = (case argv of
     [h1, p1, h2, p2] \<Rightarrow> (case (int_of_str L p1, int_of_str L p2) of
       (Some n1, Some n2) \<Rightarrow> (0, probe_line ''internet'' (connect h1 n1) @ probe_line ''internal'' (connect h2 n2))
     | _ \<Rightarrow> (1, []))
   | _ \<Rightarrow> (1, []))"

text \<open>\<open>str.splitlines\<close>, with \<open>\r\n\<close> as one separator, and \<open>str.partition("=")\<close>.\<close>

definition is_line_end :: "char \<Rightarrow> bool" where
  "is_line_end c \<longleftrightarrow> code c \<in> {10, 11, 12, 13, 28, 29, 30, 133}"

fun crlf :: "string \<Rightarrow> string" where
  "crlf (c # d # s) = (if c = CHR 0x0D \<and> d = CHR 0x0A then crlf (d # s) else c # crlf (d # s))"
| "crlf s = s"

fun lines_from :: "string \<Rightarrow> string \<Rightarrow> string list" where
  "lines_from acc [] = (if acc = [] then [] else [rev acc])"
| "lines_from acc (c # s) = (if is_line_end c then rev acc # lines_from [] s else lines_from (c # acc) s)"

definition splitlines :: "string \<Rightarrow> string list" where
  "splitlines s = lines_from [] (crlf s)"

definition partition_eq :: "string \<Rightarrow> string \<times> bool \<times> string" where
  "partition_eq s = (let key = takeWhile (\<lambda>c. c \<noteq> CHR ''='') s in
     (key, CHR ''='' \<in> set s, drop (Suc (length key)) s))"

definition note_line :: "string \<Rightarrow> (string \<times> json) list \<Rightarrow> (string \<times> json) list" where
  "note_line line parsed = (case partition_eq line of (key, separator, state) \<Rightarrow>
     if separator \<and> key \<in> {''internet'', ''internal''} \<and> state \<in> {''reachable'', ''blocked''}
     then put key (JStr state) parsed else parsed)"

definition parse_output :: "string \<Rightarrow> json res" where
  "parse_output value = (let parsed = fold note_line (splitlines value) [] in
     if fst ` set parsed \<noteq> {''internet'', ''internal''}
     then Inl (ValueError ''active connectivity probe returned invalid result'')
     else Inr (JObj parsed))"

definition probe_verify ::
    "ssh_probe \<Rightarrow> (string list \<Rightarrow> 'd \<Rightarrow> (int \<times> string) res) \<Rightarrow> 'd probe" where
  "probe_verify p run asset_key expected_internet d = (case map_of (sp_assets p) asset_key of
     None \<Rightarrow> Inl (ValueError ''active connectivity probe is not configured for this asset'')
   | Some target \<Rightarrow> rbind (run (ssh_command p target) d) (\<lambda>(returncode, stdout).
       if returncode \<noteq> 0 then Inl (ValueError ''active connectivity probe transport failed'')
       else rbind (parse_output stdout) (\<lambda>result.
         let expected = (if expected_internet then ''reachable'' else ''blocked'') in
         if get result ''internet'' \<noteq> JStr expected \<or> get result ''internal'' \<noteq> JStr ''reachable''
         then Inl (ValueError ''active connectivity verification failed'')
         else Inr (JObj ((''asset_key'', JStr asset_key) # items result)))))"

section \<open>What an accepted configuration guarantees\<close>

definition endpoint_ok :: "pylib \<Rightarrow> endpoint \<Rightarrow> bool" where
  "endpoint_ok L e \<longleftrightarrow> 1 \<le> ep_port e \<and> ep_port e \<le> 65535 \<and> (\<exists>a. ep_host e = ip_text L a \<and> ip_version a = 4)"

definition target_ok :: "pylib \<Rightarrow> probe_target \<Rightarrow> bool" where
  "target_ok L t \<longleftrightarrow> endpoint_ok L (pt_internet t) \<and> endpoint_ok L (pt_internal t)
     \<and> (\<exists>a. pt_host t = ip_text L a \<and> ip_version a = 4) \<and> probe_user_re (pt_user t)"

lemma probe_ipv4D: "probe_ipv4 L v = Inr h \<Longrightarrow> \<exists>a. h = ip_text L a \<and> ip_version a = 4"
  by (auto simp: probe_ipv4_def split: if_splits option.splits)

lemma probe_endpointD: "probe_endpoint L v = Inr e \<Longrightarrow> endpoint_ok L e"
  by (auto simp: probe_endpoint_def endpoint_ok_def Let_def rbind_Inr_iff split: if_splits dest: probe_ipv4D)

lemma probe_recordD: "probe_record L k v = Inr t \<Longrightarrow> target_ok L t \<and> probe_asset_key_re k"
  by (auto simp: probe_record_def target_ok_def Let_def rbind_Inr_iff split: if_splits
      dest: probe_ipv4D probe_endpointD)

lemma probe_recordsD:
  "probe_records L recs = Inr assets \<Longrightarrow> map fst assets = map fst recs
     \<and> list_all (\<lambda>(k, t). target_ok L t \<and> probe_asset_key_re k) assets"
proof (induction recs arbitrary: assets)
  case (Cons r recs)
  then show ?case by (cases r) (auto simp: rbind_Inr_iff dest: probe_recordD)
qed auto

lemma probe_from_jsonD:
  assumes "probe_from_json L raw f = Inr p" and "(k, t) \<in> set (sp_assets p)"
  shows "target_ok L t \<and> probe_asset_key_re k \<and> sp_identity_file p = f \<and> startswith f ''/''"
  using assms
  by (auto simp: probe_from_json_def rbind_Inr_iff list_all_iff split: option.splits if_splits dest!: probe_recordsD)

lemma user_not_option: "probe_user_re u \<Longrightarrow> u @ w \<noteq> [] \<and> hd (u @ w) \<noteq> CHR ''-''"
  by (cases u) (auto simp: probe_user_re_def ident_match_def is_upper_az_def is_lower_az_def)

section \<open>The output of the script\<close>

lemma int_text_no_minus: "0 \<le> i \<Longrightarrow> int_text i = nat_digits (nat i)"
  by (simp add: int_text_def)

lemma parse_probe_output:
  "parse_output (probe_line ''internet'' a @ probe_line ''internal'' b)
     = Inr (JObj [(''internet'', JStr (if a then ''reachable'' else ''blocked'')),
         (''internal'', JStr (if b then ''reachable'' else ''blocked''))])"
  by (induction a; induction b; code_simp)

text \<open>The probe executes only what its configuration allows. From an accepted configuration every argument of
  the ssh command is fixed, an IPv4 address in canonical form, a port between 1 and 65535 or the identity file
  at an absolute path; the destination cannot be taken for an option, whatever user name was configured.\<close>

theorem probe_command_bounds:
  assumes "probe_from_json L raw f = Inr p" and "(k, t) \<in> set (sp_assets p)"
  shows "\<exists>h a b m n. ssh_command p t = [''ssh'', ''-i'', f, ''-o'', ''BatchMode=yes'', ''-o'', ''StrictHostKeyChecking=yes'',
      ''-o'', ''ConnectTimeout=8'', pt_user t @ ''@'' @ ip_text L h, ''python3'', ''-'', ip_text L a, int_text m, ip_text L b, int_text n]
    \<and> hd (pt_user t @ ''@'' @ ip_text L h) \<noteq> CHR ''-'' \<and> hd f = CHR ''/'' \<and> {m, n} \<subseteq> {1..65535}
    \<and> ip_version h = 4 \<and> ip_version a = 4 \<and> ip_version b = 4"
proof -
  from probe_from_jsonD [OF assms] have t: "target_ok L t" and f: "sp_identity_file p = f" "startswith f ''/''" by simp_all
  then obtain h a b where hosts: "pt_host t = ip_text L h" "ip_version h = 4" "ep_host (pt_internet t) = ip_text L a"
      "ip_version a = 4" "ep_host (pt_internal t) = ip_text L b" "ip_version b = 4"
    and ports: "{ep_port (pt_internet t), ep_port (pt_internal t)} \<subseteq> {1..65535}" and u: "probe_user_re (pt_user t)"
    by (auto simp: target_ok_def endpoint_ok_def)
  have "hd f = CHR ''/''" using f(2) by (cases f) (simp_all add: startswith_def)
  moreover have "hd (pt_user t @ ''@'' @ ip_text L h) \<noteq> CHR ''-''" using user_not_option [OF u] by blast
  ultimately show ?thesis
    by (intro exI [of _ h] exI [of _ a] exI [of _ b] exI [of _ "ep_port (pt_internet t)"] exI [of _ "ep_port (pt_internal t)"])
      (use hosts ports f(1) in \<open>simp add: ssh_command_def probe_arguments_def\<close>)
qed

text \<open>The probe tells the truth. When ssh runs the script faithfully on the probing host, \<open>verify\<close> succeeds exactly
  when the internet endpoint is reachable as expected and the internal endpoint is reachable, and then reports
  just that; in every other case it raises.\<close>

theorem probe_verify_exact:
  assumes "probe_from_json L raw f = Inr p" and "map_of (sp_assets p) k = Some t"
    and "\<And>i. 0 < i \<Longrightarrow> int_of_str L (int_text i) = Some i"
    and "run (ssh_command p t) d = Inr (FIXED_TCP_PROBE L connect (drop 12 (ssh_command p t)))"
  shows "probe_verify p run k expected d =
    (if connect (ep_host (pt_internet t)) (ep_port (pt_internet t)) = expected
        \<and> connect (ep_host (pt_internal t)) (ep_port (pt_internal t))
     then Inr (JObj [(''asset_key'', JStr k), (''internet'', JStr (if expected then ''reachable'' else ''blocked'')),
        (''internal'', JStr ''reachable'')])
     else Inl (ValueError ''active connectivity verification failed''))"
proof -
  have "target_ok L t" using probe_from_jsonD [OF assms(1) map_of_SomeD [OF assms(2)]] by simp
  then have "0 < ep_port (pt_internet t)" "0 < ep_port (pt_internal t)" by (simp_all add: target_ok_def endpoint_ok_def)
  then have "FIXED_TCP_PROBE L connect (drop 12 (ssh_command p t))
      = (0, probe_line ''internet'' (connect (ep_host (pt_internet t)) (ep_port (pt_internet t)))
          @ probe_line ''internal'' (connect (ep_host (pt_internal t)) (ep_port (pt_internal t))))"
    by (simp add: ssh_command_def probe_arguments_def FIXED_TCP_PROBE_def assms(3))
  with assms(2,4) show ?thesis
    by (simp add: probe_verify_def parse_probe_output get_default_def)
qed

section \<open>A configured probe\<close>

definition cdemo_raw :: string where
  "cdemo_raw = dumps (\<lambda>_. []) True (JObj [(''pc-1'', JObj [(''host'', JStr ''10.0.0.9''),
     (''internal'', JObj [(''host'', JStr ''10.0.0.1''), (''port'', JInt 22)]),
     (''internet'', JObj [(''host'', JStr ''8.8.8.8''), (''port'', JInt 53)]), (''user'', JStr ''probe'')])])"

definition cdemo_target :: probe_target where
  "cdemo_target = \<lparr>pt_host = ''10.0.0.9'', pt_user = ''probe'', pt_internet = \<lparr>ep_host = ''8.8.8.8'', ep_port = 53\<rparr>,
     pt_internal = \<lparr>ep_host = ''10.0.0.1'', ep_port = 22\<rparr>\<rparr>"

definition cdemo :: ssh_probe where
  "cdemo = \<lparr>sp_assets = [(''pc-1'', cdemo_target)], sp_identity_file = ''/k''\<rparr>"

lemma cdemo_from_json: "probe_from_json (demo_lib (\<lambda>_. 0)) cdemo_raw ''/k'' = Inr cdemo"
  by code_simp

lemma demo_int_roundtrip: "0 < i \<Longrightarrow> int_of_str (demo_lib clk) (int_text i) = Some i"
  by (simp add: demo_lib_def int_text_def parse_nat_def digits_value_nat_digits)

text \<open>A transport that runs the script: the internet endpoint is shut off, the internal one answers.\<close>

definition cdemo_run :: "string list \<Rightarrow> unit \<Rightarrow> (int \<times> string) res" where
  "cdemo_run cmd d = Inr (FIXED_TCP_PROBE (demo_lib (\<lambda>_. 0)) (\<lambda>h n. n = 22) (drop 12 cmd))"

theorem probe_command_bounds_witness:
  "probe_from_json (demo_lib (\<lambda>_. 0)) cdemo_raw ''/k'' = Inr cdemo
    \<and> (\<exists>h a b m n. ssh_command cdemo cdemo_target = [''ssh'', ''-i'', ''/k'', ''-o'', ''BatchMode=yes'', ''-o'', ''StrictHostKeyChecking=yes'',
      ''-o'', ''ConnectTimeout=8'', ''probe'' @ ''@'' @ ip_text (demo_lib (\<lambda>_. 0)) h, ''python3'', ''-'',
      ip_text (demo_lib (\<lambda>_. 0)) a, int_text m, ip_text (demo_lib (\<lambda>_. 0)) b, int_text n])"
proof -
  have "(''pc-1'', cdemo_target) \<in> set (sp_assets cdemo)" by (simp add: cdemo_def)
  from probe_command_bounds [OF cdemo_from_json this] cdemo_from_json show ?thesis
    by (simp add: cdemo_target_def) blast
qed

theorem probe_verify_exact_witness:
  "probe_verify cdemo cdemo_run ''pc-1'' False () =
     Inr (JObj [(''asset_key'', JStr ''pc-1''), (''internet'', JStr ''blocked''), (''internal'', JStr ''reachable'')])
   \<and> probe_verify cdemo cdemo_run ''pc-1'' True () = Inl (ValueError ''active connectivity verification failed'')"
proof -
  have t: "map_of (sp_assets cdemo) ''pc-1'' = Some cdemo_target" by (simp add: cdemo_def)
  have r: "cdemo_run (ssh_command cdemo cdemo_target) () =
      Inr (FIXED_TCP_PROBE (demo_lib (\<lambda>_. 0)) (\<lambda>h n. n = 22) (drop 12 (ssh_command cdemo cdemo_target)))"
    by (simp add: cdemo_run_def)
  show ?thesis
    using probe_verify_exact [where run = cdemo_run and expected = False, OF cdemo_from_json t demo_int_roundtrip r]
      probe_verify_exact [where run = cdemo_run and expected = True, OF cdemo_from_json t demo_int_roundtrip r]
    by (simp add: cdemo_target_def)
qed

end
