(* ===== verification/Broker_Runtime.thy ===== *)
theory Broker_Runtime
  imports Service_Correctness Connectivity_Probe "HOL-Library.AList"
begin

text \<open>
  The broker's start: its environment and files (\<open>src/netopsctl/runtime.py\<close>, \<open>credentials.py\<close>), the table of peers
  and the service it builds (\<open>_load_peers\<close> and \<open>_build_service\<close> of \<open>server.py\<close>). The host is the record \<open>machine\<close>: the
  environment, \<open>lstat\<close> with the content of a file, the reading of a file, and the expansion of a home directory.
\<close>

unbundle bit_operations_syntax

section \<open>The host\<close>

record machine =
  mc_env :: "string \<rightharpoonup> string"
  mc_lstat :: "string \<Rightarrow> (int \<times> string res) option"
  mc_read :: "string \<Rightarrow> string res"
  mc_is_file :: "string \<Rightarrow> bool"
  mc_expanduser :: "string \<Rightarrow> string res"

text \<open>\<open>environment.get(name)\<close> with \<open>or ""\<close>, \<open>environ.get(name, default)\<close> and \<open>environ[name]\<close>.\<close>

definition env_or_empty :: "machine \<Rightarrow> string \<Rightarrow> string" where
  "env_or_empty M name = (case mc_env M name of None \<Rightarrow> [] | Some v \<Rightarrow> v)"

definition env_default :: "machine \<Rightarrow> string \<Rightarrow> string \<Rightarrow> string" where
  "env_default M name d = (case mc_env M name of None \<Rightarrow> d | Some v \<Rightarrow> v)"

definition env_item :: "machine \<Rightarrow> string \<Rightarrow> string res" where
  "env_item M name = (case mc_env M name of None \<Rightarrow> Inl (KeyError name) | Some v \<Rightarrow> Inr v)"

definition int_text_value :: "pylib \<Rightarrow> string \<Rightarrow> int res" where
  "int_text_value L s = py_int L (JStr s)"

text \<open>\<open>except (..) as exc: raise E from exc\<close>.\<close>

definition rcatch :: "(exn \<Rightarrow> bool) \<Rightarrow> exn \<Rightarrow> 'a res \<Rightarrow> 'a res" where
  "rcatch p e r = (case r of Inl x \<Rightarrow> Inl (if p x then e else x) | Inr v \<Rightarrow> Inr v)"

lemma rcatch_Inr_iff [simp]: "rcatch p e r = Inr v \<longleftrightarrow> r = Inr v"
  by (cases r) (simp_all add: rcatch_def)

fun is_OSError :: "exn \<Rightarrow> bool" where
  "is_OSError (OSError _) = True"
| "is_OSError _ = False"

fun is_KeyError :: "exn \<Rightarrow> bool" where
  "is_KeyError (KeyError _) = True"
| "is_KeyError _ = False"

section \<open>The switches\<close>

definition enabled :: "string option \<Rightarrow> bool" where
  "enabled value \<longleftrightarrow> lower (strip (case value of None \<Rightarrow> [] | Some v \<Rightarrow> v)) \<in> {''1'', ''true'', ''yes'', ''on''}"

definition production_writes_allowed :: "machine \<Rightarrow> bool" where
  "production_writes_allowed M \<longleftrightarrow> enabled (mc_env M ''NETOPSCTL_PRODUCTION_WRITES_ENABLED'')
     \<and> enabled (mc_env M ''NETOPSCTL_AUDIT_CHECKPOINT_HEALTHY'')"

section \<open>The router's connection\<close>

record routeros_config =
  rc_host :: string
  rc_port :: int
  rc_username :: string
  rc_password :: string
  rc_tls :: bool
  rc_verify_tls :: bool
  rc_timeout :: int

definition load_routeros_config :: "pylib \<Rightarrow> machine \<Rightarrow> routeros_config res" where
  "load_routeros_config L M = (let host = strip (env_or_empty M ''NETOPSCTL_ROUTEROS_HOST'');
       username = strip (env_or_empty M ''NETOPSCTL_ROUTEROS_USERNAME'') in
     rbind (mc_expanduser M (env_or_empty M ''NETOPSCTL_ROUTEROS_PASSWORD_FILE'')) (\<lambda>password_file.
     rbind (guard (host \<noteq> [] \<and> username \<noteq> [] \<and> mc_is_file M password_file)
       (ValueError ''dedicated RouterOS secret file and endpoint configuration are required'')) (\<lambda>_.
     rbind (mc_read M password_file) (\<lambda>content.
     let password = strip content in
     rbind (guard (password \<noteq> []) (ValueError ''dedicated RouterOS secret file is empty'')) (\<lambda>_.
     rbind (rcatch is_ValueError (ValueError ''invalid RouterOS connection configuration'')
       (rbind (int_text_value L (env_default M ''NETOPSCTL_ROUTEROS_PORT'' ''8729'')) (\<lambda>port.
        rbind (int_text_value L (env_default M ''NETOPSCTL_ROUTEROS_TIMEOUT'' ''8'')) (\<lambda>timeout. Inr (port, timeout)))))
       (\<lambda>(port, timeout).
     rbind (guard (1 \<le> port \<and> port \<le> 65535 \<and> 1 \<le> timeout \<and> timeout \<le> 60)
       (ValueError ''invalid RouterOS connection configuration'')) (\<lambda>_.
     Inr \<lparr>rc_host = host, rc_port = port, rc_username = username, rc_password = password,
       rc_tls = enabled (Some (env_default M ''NETOPSCTL_ROUTEROS_TLS'' ''true'')),
       rc_verify_tls = enabled (Some (env_default M ''NETOPSCTL_ROUTEROS_VERIFY_TLS'' ''true'')),
       rc_timeout = timeout\<rparr>)))))))"

section \<open>Private keys\<close>

text \<open>\<open>stat.S_IFMT\<close>, the file types, and the mode bits \<open>0o037\<close>.\<close>

definition S_ISREG :: "int \<Rightarrow> bool" where
  "S_ISREG mode \<longleftrightarrow> mode AND 61440 = 32768"

definition S_ISLNK :: "int \<Rightarrow> bool" where
  "S_ISLNK mode \<longleftrightarrow> mode AND 61440 = 40960"

definition S_IMODE :: "int \<Rightarrow> int" where
  "S_IMODE mode = mode AND 4095"

definition invalid_credential :: "string \<Rightarrow> exn" where
  "invalid_credential role = ValueError (''invalid '' @ role @ '' credential'')"

definition checked_key_file :: "int \<times> string res \<Rightarrow> string res" where
  "checked_key_file f = (case f of (mode, content) \<Rightarrow>
     if \<not> S_ISREG mode \<or> S_ISLNK mode then Inl (ValueError [])
     else if S_IMODE mode AND 31 \<noteq> 0 then Inl (ValueError [])
     else content)"

definition read_ed25519_private_key :: "machine \<Rightarrow> string \<Rightarrow> string \<Rightarrow> string res" where
  "read_ed25519_private_key M credential_name role =
     (let directory = env_or_empty M ''CREDENTIALS_DIRECTORY'' in
      rbind (guard (directory \<noteq> [] \<and> credential_name \<noteq> [] \<and> CHR ''/'' \<notin> set credential_name
          \<and> CHR 0x5C \<notin> set credential_name) (invalid_credential role)) (\<lambda>_.
      rbind (rcatch (\<lambda>e. is_OSError e \<or> is_ValueError e) (invalid_credential role)
        (case mc_lstat M (directory @ ''/'' @ credential_name) of
           None \<Rightarrow> Inl (OSError ''No such file or directory'')
         | Some f \<Rightarrow> checked_key_file f)) (\<lambda>value.
      rbind (guard (length value = 32) (invalid_credential role)) (\<lambda>_. Inr value))))"

section \<open>The peers\<close>

text \<open>\<open>bytes.strip()\<close> removes the six ASCII white-space bytes.\<close>

definition is_space_byte :: "char \<Rightarrow> bool" where
  "is_space_byte c \<longleftrightarrow> code c \<in> {9, 10, 11, 12, 13, 32}"

definition strip_bytes :: "string \<Rightarrow> string" where
  "strip_bytes s = rev (dropWhile is_space_byte (rev (dropWhile is_space_byte s)))"

definition invalid_peer :: exn where
  "invalid_peer = RuntimeError ''invalid netopsctl peer principal''"

definition peer_record :: "pylib \<Rightarrow> machine \<Rightarrow> string \<Rightarrow> json \<Rightarrow> authenticated_peer res" where
  "peer_record L M uid_raw record =
     rbind (int_text_value L uid_raw) (\<lambda>uid.
     rbind (getitem record ''gid'') (\<lambda>g. rbind (py_int L g) (\<lambda>gid.
     rbind (getitem record ''service_principal'') (\<lambda>principal.
     rbind (getitem record ''allowed_actions'') (\<lambda>a. rbind (py_iter a) (\<lambda>allowed.
     rbind (getitem record ''public_key_file'') (\<lambda>f. rbind (mc_read M (py_str L f)) (\<lambda>content.
     Inr \<lparr>pe_uid = uid, pe_gid = gid, pe_pid = 0, pe_service_principal = py_str L principal,
       pe_public_key = strip_bytes content, pe_allowed_actions = set (map (py_str L) allowed)\<rparr>))))))))"

definition is_peer_error :: "exn \<Rightarrow> bool" where
  "is_peer_error e \<longleftrightarrow> is_KeyError e \<or> is_OSError e \<or> e = TypeError \<or> is_ValueError e"

definition load_peer :: "pylib \<Rightarrow> machine \<Rightarrow> string \<Rightarrow> json \<Rightarrow> authenticated_peer res" where
  "load_peer L M uid_raw record = rbind (guard (is_dict record) invalid_peer) (\<lambda>_.
     rbind (rcatch is_peer_error invalid_peer (peer_record L M uid_raw record)) (\<lambda>peer.
     rbind (guard (0 \<le> pe_uid peer \<and> 0 \<le> pe_gid peer \<and> pe_service_principal peer \<noteq> []
         \<and> length (pe_public_key peer) = 32 \<and> pe_allowed_actions peer \<noteq> {}) invalid_peer) (\<lambda>_. Inr peer)))"

fun load_peer_records ::
    "pylib \<Rightarrow> machine \<Rightarrow> (string \<times> json) list \<Rightarrow> (int \<times> authenticated_peer) list \<Rightarrow> (int \<times> authenticated_peer) list res" where
  "load_peer_records L M [] result = Inr result"
| "load_peer_records L M ((uid_raw, record) # records) result = rbind (load_peer L M uid_raw record) (\<lambda>peer.
     load_peer_records L M records (AList.update (pe_uid peer) peer result))"

definition load_peers :: "pylib \<Rightarrow> machine \<Rightarrow> (int \<times> authenticated_peer) list res" where
  "load_peers L M = (case json_loads L (env_default M ''NETOPSCTL_PEER_PRINCIPALS_JSON'' ''{}'') of
     None \<Rightarrow> Inl (RuntimeError ''invalid NETOPSCTL_PEER_PRINCIPALS_JSON'')
   | Some raw \<Rightarrow> if \<not> is_dict raw then Inl (RuntimeError ''invalid NETOPSCTL_PEER_PRINCIPALS_JSON'')
       else rbind (load_peer_records L M (items raw) []) (\<lambda>result.
         rbind (guard (result \<noteq> []) (RuntimeError ''at least one authenticated peer principal is required'')) (\<lambda>_.
         Inr result)))"

section \<open>The service and the process\<close>

text \<open>What the broker reaches outside itself: the clock and libraries, its process table, the snapshot behind a
  database URL, a RouterOS session per call, ssh to a probing host and to the audit sink.\<close>

record 'd outside =
  out_lib :: pylib
  out_os :: os_env
  out_snapshot :: "string \<Rightarrow> snapshot"
  out_router :: "routeros_config \<Rightarrow> 'd router_call"
  out_ssh :: "string list \<Rightarrow> 'd \<Rightarrow> (int \<times> string) res"
  out_sink_up :: "audit_sink \<Rightarrow> json list \<Rightarrow> json \<Rightarrow> bool"

definition load_source_map :: "pylib \<Rightarrow> machine \<Rightarrow> (string \<times> string) list res" where
  "load_source_map L M = rbind (env_item M ''NETOPSCTL_ENFORCEMENT_SOURCES_JSON'') (\<lambda>text.
     case json_loads L text of None \<Rightarrow> Inl (ValueError ''JSONDecodeError'')
     | Some source_map \<Rightarrow>
         rbind (guard (is_dict source_map \<and> truthy source_map \<and> list_all (\<lambda>(k, v). is_str v) (items source_map)) (ValueError []))
           (\<lambda>_. Inr (map (\<lambda>(k, v). (k, str_value v)) (items source_map))))"

definition load_sink :: "machine \<Rightarrow> audit_sink res" where
  "load_sink M = rbind (env_item M ''NETOPSCTL_AUDIT_SINK_HOST'') (\<lambda>host.
     rbind (env_item M ''NETOPSCTL_AUDIT_SSH_IDENTITY_FILE'') (\<lambda>identity_file.
     rbind (env_item M ''NETOPSCTL_AUDIT_KNOWN_HOSTS'') (\<lambda>known_hosts.
     Inr \<lparr>sink_instance_id = env_default M ''NETOPSCTL_INSTANCE_ID'' ''sosn-netopsctl'', sink_host = host,
       sink_identity_file = identity_file, sink_known_hosts = known_hosts\<rparr>)))"

definition rstrip_slash :: "string \<Rightarrow> string" where
  "rstrip_slash s = rev (dropWhile (\<lambda>c. c = CHR ''/'') (rev s))"

definition load_probe :: "pylib \<Rightarrow> machine \<Rightarrow> ssh_probe option res" where
  "load_probe L M = (let active_probe_config = env_default M ''NETOPSCTL_ACTIVE_PROBES_JSON'' ''{}'';
       directory = env_or_empty M ''CREDENTIALS_DIRECTORY'' in
     if active_probe_config = ''{}'' then Inr None
     else rbind (guard (directory \<noteq> []) (ValueError [])) (\<lambda>_.
       rbind (probe_from_json L active_probe_config (rstrip_slash directory @ ''/netopsctl-active-probe-ssh-key''))
         (\<lambda>p. Inr (Some p))))"

record runtime_parts =
  rp_sources :: "(string \<times> string) list"
  rp_signer :: audit_signer
  rp_config :: routeros_config
  rp_sink :: audit_sink
  rp_plan_ttl :: int
  rp_identity_age :: int
  rp_probe :: "ssh_probe option"

definition load_parts :: "pylib \<Rightarrow> machine \<Rightarrow> runtime_parts res" where
  "load_parts L M = rbind (load_source_map L M) (\<lambda>sources.
     rbind (read_ed25519_private_key M ''netopsctl-audit-signing-key'' ''audit signing'') (\<lambda>key.
     rbind (env_item M ''NETOPSCTL_AUDIT_SIGNING_KEY_ID'') (\<lambda>kid.
     rbind (load_routeros_config L M) (\<lambda>config.
     rbind (load_sink M) (\<lambda>sink.
     rbind (int_text_value L (env_default M ''NETOPSCTL_PLAN_TTL_SECONDS'' ''300'')) (\<lambda>ttl.
     rbind (int_text_value L (env_default M ''NETOPSCTL_IDENTITY_OBSERVATION_MAX_AGE_SECONDS'' ''900'')) (\<lambda>age.
     rbind (load_probe L M) (\<lambda>p.
     Inr \<lparr>rp_sources = sources, rp_signer = \<lparr>key_id = kid, private_key = key\<rparr>, rp_config = config, rp_sink = sink,
       rp_plan_ttl = ttl, rp_identity_age = age, rp_probe = p\<rparr>))))))))"

definition build_service :: "'d outside \<Rightarrow> machine \<Rightarrow> 'd service res" where
  "build_service W M = (let L = out_lib W in
     rbind (rcatch (\<lambda>e. is_KeyError e \<or> is_OSError e \<or> is_ValueError e)
       (RuntimeError ''invalid netopsctl runtime configuration'') (load_parts L M)) (\<lambda>rp.
     rbind (int_text_value L (env_default M ''NETOPSCTL_SOURCE_SLA_SECONDS'' ''300'')) (\<lambda>sla.
     Inr \<lparr>sv_lib = L, sv_os = out_os W,
       sv_snapshot = out_snapshot W (env_default M ''NETOPSCTL_NETCTL_DB_URL'' ''sqlite:////var/lib/netctl/netctl.sqlite''),
       sv_adapter = mikrotik L (env_default M ''NETOPSCTL_ENFORCEMENT_SOURCE'' ''mikrotik-main'') (out_router W (rp_config rp)),
       sv_sources = rp_sources rp, sv_source_sla = sla, sv_signer = rp_signer rp,
       sv_writes_enabled = production_writes_allowed M, sv_sink = rp_sink rp, sv_sink_up = out_sink_up W (rp_sink rp),
       sv_plan_ttl = rp_plan_ttl rp, sv_identity_age = rp_identity_age rp,
       sv_probe = map_option (\<lambda>p. probe_verify p (out_ssh W)) (rp_probe rp)\<rparr>)))"

definition socket_from_activation :: "pylib \<Rightarrow> machine \<Rightarrow> unit res" where
  "socket_from_activation L M = rbind (int_text_value L (env_default M ''LISTEN_FDS'' ''0'')) (\<lambda>listen_fds.
     guard (listen_fds = 1) (RuntimeError ''netopsctl requires one systemd-activated socket''))"

definition broker_main :: "'d outside \<Rightarrow> machine \<Rightarrow> connection list \<Rightarrow> ('d netops, string list) prog" where
  "broker_main W M cs = bind (lift (socket_from_activation (out_lib W) M)) (\<lambda>_.
     bind (lift (load_peers (out_lib W) M)) (\<lambda>peers.
     bind (lift (build_service W M)) (\<lambda>sv. serve sv (map_of peers) cs)))"

section \<open>What a started broker relies on\<close>

lemma mode_bits_clear:
  assumes "S_IMODE mode AND 31 = 0" and "i < 5"
  shows "\<not> bit mode i"
proof -
  have "\<not> bit (S_IMODE mode AND 31) i" using assms(1) by simp
  moreover have "i \<in> {0, 1, 2, 3, 4}" using assms(2) by auto
  ultimately show ?thesis by (auto simp: S_IMODE_def bit_and_iff)
qed

lemma checked_key_fileD:
  "checked_key_file (mode, content) = Inr v \<Longrightarrow> content = Inr v \<and> S_ISREG mode \<and> (\<forall>i < 5. \<not> bit mode i)"
  by (auto simp: checked_key_file_def mode_bits_clear split: if_splits)

definition private_key_file :: "machine \<Rightarrow> string \<Rightarrow> string \<Rightarrow> bool" where
  "private_key_file M path key \<longleftrightarrow> length key = 32 \<and>
     (\<exists>mode. mc_lstat M path = Some (mode, Inr key) \<and> S_ISREG mode \<and> (\<forall>i < 5. \<not> bit mode i))"

lemma read_key_safe:
  assumes "read_ed25519_private_key M n role = Inr key"
  shows "private_key_file M (env_or_empty M ''CREDENTIALS_DIRECTORY'' @ ''/'' @ n) key \<and> CHR ''/'' \<notin> set n"
  using assms unfolding read_ed25519_private_key_def private_key_file_def
  by (auto simp: Let_def rbind_Inr_iff guard_Inr_iff split: option.splits dest!: checked_key_fileD)

lemma load_routeros_configD:
  assumes "load_routeros_config L M = Inr c"
  shows "rc_port c \<in> {1..65535} \<and> rc_timeout c \<in> {1..60} \<and> rc_host c \<noteq> [] \<and> rc_username c \<noteq> [] \<and> rc_password c \<noteq> []"
  using assms unfolding load_routeros_config_def by (auto simp: Let_def rbind_Inr_iff guard_Inr_iff)

lemma build_serviceD:
  assumes "build_service W M = Inr sv"
  obtains rp where "load_parts (out_lib W) M = Inr rp" "sv_signer sv = rp_signer rp" "sv_sources sv = rp_sources rp"
    "sv_lib sv = out_lib W" "sv_writes_enabled sv = production_writes_allowed M"
    "sv_adapter sv = mikrotik (out_lib W) (env_default M ''NETOPSCTL_ENFORCEMENT_SOURCE'' ''mikrotik-main'') (out_router W (rp_config rp))"
    "sv_probe sv = map_option (\<lambda>p. probe_verify p (out_ssh W)) (rp_probe rp)"
  using assms by (auto simp: build_service_def Let_def rbind_Inr_iff)

lemma load_partsD:
  assumes "load_parts L M = Inr rp"
  shows "load_source_map L M = Inr (rp_sources rp) \<and> load_routeros_config L M = Inr (rp_config rp)
    \<and> read_ed25519_private_key M ''netopsctl-audit-signing-key'' ''audit signing'' = Inr (private_key (rp_signer rp))
    \<and> load_probe L M = Inr (rp_probe rp)"
  using assms by (auto simp: load_parts_def rbind_Inr_iff)


definition peer_ok :: "int \<times> authenticated_peer \<Rightarrow> bool" where
  "peer_ok = (\<lambda>(uid, p). pe_uid p = uid \<and> 0 \<le> uid \<and> 0 \<le> pe_gid p \<and> pe_service_principal p \<noteq> []
     \<and> length (pe_public_key p) = 32 \<and> pe_allowed_actions p \<noteq> {})"

lemma load_peerD: "load_peer L M u r = Inr p \<Longrightarrow> peer_ok (pe_uid p, p)"
  by (auto simp: load_peer_def peer_ok_def rbind_Inr_iff guard_Inr_iff)

lemma load_peer_recordsD:
  "load_peer_records L M recs acc = Inr ps \<Longrightarrow> distinct (map fst acc) \<Longrightarrow> list_all peer_ok acc \<Longrightarrow>
     distinct (map fst ps) \<and> list_all peer_ok ps"
proof (induction recs arbitrary: acc)
  case (Cons r recs)
  obtain u v where r: "r = (u, v)" by fastforce
  from Cons.prems(1) r obtain p where p: "load_peer L M u v = Inr p"
    and rest: "load_peer_records L M recs (AList.update (pe_uid p) p acc) = Inr ps"
    by (auto simp: rbind_Inr_iff)
  show ?case
  proof (rule Cons.IH [OF rest])
    show "distinct (map fst (AList.update (pe_uid p) p acc))" using Cons.prems(2) by (rule distinct_update)
    show "list_all peer_ok (AList.update (pe_uid p) p acc)"
      using Cons.prems(3) load_peerD [OF p] by (induction acc) auto
  qed
qed auto

text \<open>The peers the broker admits are those configured, each under its own user id, with a group, a name, a
  32-byte public key and at least one action; no user id is negative and the table is never empty.\<close>

theorem load_peers_sound:
  assumes "load_peers L M = Inr ps"
  shows "ps \<noteq> [] \<and> (\<forall>uid p. map_of ps uid = Some p \<longrightarrow> pe_uid p = uid \<and> 0 \<le> uid \<and> 0 \<le> pe_gid p
    \<and> pe_service_principal p \<noteq> [] \<and> length (pe_public_key p) = 32 \<and> pe_allowed_actions p \<noteq> {})"
proof -
  from assms obtain raw where "load_peer_records L M (items raw) [] = Inr ps" and "ps \<noteq> []"
    by (auto simp: load_peers_def rbind_Inr_iff guard_Inr_iff split: option.splits if_splits)
  from load_peer_recordsD [OF this(1)] this(2) show ?thesis
    by (auto simp: list_all_iff peer_ok_def dest!: map_of_SomeD)
qed

text \<open>C39: The broker fails closed. Started in any environment in which one of the two switches is missing or not
  affirmative, the process leaves the entries the router enforces as they were, whatever connects to it and
  whatever the rest of its configuration is.\<close>

theorem broker_fails_closed:
  assumes "\<not> (enabled (mc_env M ''NETOPSCTL_PRODUCTION_WRITES_ENABLED'') \<and> enabled (mc_env M ''NETOPSCTL_AUDIT_CHECKPOINT_HEALTHY''))"
    and "\<And>source c. device_adapter (out_lib W) (mikrotik (out_lib W) source (out_router W c)) view nf good"
    and "good (device s)" and "broker_main W M cs s = (r, t)"
  shows "view (device t) = view (device s)"
proof -
  have "t = s \<or> (\<exists>peers sv. build_service W M = Inr sv \<and> serve sv (map_of peers) cs s = (r, t))"
    using assms(4) by (auto simp: broker_main_def bind_def lift_def split: sum.splits)
  then show ?thesis
  proof
    assume "\<exists>peers sv. build_service W M = Inr sv \<and> serve sv (map_of peers) cs s = (r, t)"
    then obtain peers sv where sv: "build_service W M = Inr sv" and run: "serve sv (map_of peers) cs s = (r, t)" by blast
    from build_serviceD [OF sv] assms(2) have A: "device_adapter (out_lib W) (sv_adapter sv) view nf good" by metis
    from build_serviceD [OF sv] assms(1) have "\<not> sv_writes_enabled sv" by (metis production_writes_allowed_def)
    from confinedD [OF service_frame.serve [OF device_adapter.untouched_service [OF A refl this]] run]
    show ?thesis using assms(3) device_adapter.untouched_def [OF A] by simp
  qed simp
qed

text \<open>A raw public key may begin or end with a byte that counts as white space. \<open>_load_peers\<close> strips the file before it
  measures it, so the broker does not start with such a key, although the file holds 32 bytes.\<close>

theorem stripped_key_refused:
  assumes "peer_record L (M\<lparr>mc_read := \<lambda>_. Inr key\<rparr>) u r = Inr p" and "is_dict r"
    and "length key = 32" and "is_space_byte (hd key)"
  shows "load_peer L (M\<lparr>mc_read := \<lambda>_. Inr key\<rparr>) u r = Inl invalid_peer"
proof -
  have "pe_public_key p = strip_bytes key"
    using assms(1) by (auto simp: peer_record_def rbind_Inr_iff)
  moreover have "length (strip_bytes key) < 32"
  proof -
    obtain c k where k: "key = c # k" "is_space_byte c" using assms(3,4) by (cases key) auto
    have "length (dropWhile P xs) \<le> length xs" for P and xs :: string by (induction xs) auto
    then have "length (dropWhile is_space_byte (rev (dropWhile is_space_byte k))) \<le> length k"
      by (metis le_trans length_rev)
    then show ?thesis using k assms(3) by (simp add: strip_bytes_def)
  qed
  ultimately show ?thesis using assms(1,2) by (simp add: load_peer_def rcatch_def guard_def)
qed

section \<open>A configured host\<close>

definition bdemo_sources :: string where
  "bdemo_sources = dumps (\<lambda>_. []) True (JObj [(''hq'', JStr ''gw'')])"

definition bdemo_peers :: string where
  "bdemo_peers = dumps (\<lambda>_. []) True (JObj [(''7'', JObj [(''allowed_actions'', JList [JStr ''status'']), (''gid'', JInt 8),
     (''public_key_file'', JStr ''/pub''), (''service_principal'', JStr ''web'')])])"

definition bdemo_env :: "(string \<times> string) list" where
  "bdemo_env = [(''NETOPSCTL_ENFORCEMENT_SOURCES_JSON'', bdemo_sources), (''NETOPSCTL_PEER_PRINCIPALS_JSON'', bdemo_peers),
     (''CREDENTIALS_DIRECTORY'', ''/cred''), (''NETOPSCTL_AUDIT_SIGNING_KEY_ID'', ''k1''), (''NETOPSCTL_ROUTEROS_HOST'', ''gw''),
     (''NETOPSCTL_ROUTEROS_USERNAME'', ''bot''), (''NETOPSCTL_ROUTEROS_PASSWORD_FILE'', ''/pw''), (''NETOPSCTL_ROUTEROS_PORT'', ''22''),
     (''NETOPSCTL_AUDIT_SINK_HOST'', ''sink''), (''NETOPSCTL_AUDIT_SSH_IDENTITY_FILE'', ''/id''), (''NETOPSCTL_AUDIT_KNOWN_HOSTS'', ''/kh''),
     (''NETOPSCTL_PLAN_TTL_SECONDS'', ''30''), (''NETOPSCTL_IDENTITY_OBSERVATION_MAX_AGE_SECONDS'', ''90''),
     (''NETOPSCTL_SOURCE_SLA_SECONDS'', ''30''), (''LISTEN_FDS'', ''1'')]"

definition bdemo :: machine where
  "bdemo = \<lparr>mc_env = map_of bdemo_env,
     mc_lstat = (\<lambda>path. if path = ''/cred/netopsctl-audit-signing-key'' then Some (33056, Inr (replicate 32 CHR ''k'')) else None),
     mc_read = (\<lambda>path. Inr (replicate 32 CHR ''p'')), mc_is_file = (\<lambda>path. path = ''/pw''), mc_expanduser = Inr\<rparr>"

definition bdemo_out :: "sim_router outside" where
  "bdemo_out = \<lparr>out_lib = demo_L, out_os = demo_os, out_snapshot = (\<lambda>_. sv_snapshot (sdemo False)),
     out_router = (\<lambda>c. sim_call demo_L), out_ssh = (\<lambda>cmd d. Inl (OSError [])), out_sink_up = (\<lambda>_ _ _. True)\<rparr>"

lemma bdemo_parts: "\<exists>rp. load_parts demo_L bdemo = Inr rp"
proof -
  have "\<not> isl (load_parts demo_L bdemo)" by code_simp
  then show ?thesis by (cases "load_parts demo_L bdemo") auto
qed

lemma bdemo_starts: "\<exists>sv. build_service bdemo_out bdemo = Inr sv"
proof -
  have "int_text_value demo_L (env_default bdemo ''NETOPSCTL_SOURCE_SLA_SECONDS'' ''300'') = Inr 30" by code_simp
  with bdemo_parts show ?thesis by (auto simp: build_service_def bdemo_out_def rcatch_def Let_def)
qed


theorem load_peers_sound_witness:
  "\<exists>ps p. load_peers demo_L bdemo = Inr ps \<and> map_of ps 7 = Some p \<and> pe_uid p = 7 \<and> length (pe_public_key p) = 32"
proof -
  have "(case load_peers demo_L bdemo of Inr ps \<Rightarrow> map_of ps 7 \<noteq> None | Inl _ \<Rightarrow> False)" by code_simp
  then obtain ps p where ps: "load_peers demo_L bdemo = Inr ps" and p: "map_of ps 7 = Some p"
    by (auto split: sum.splits)
  from load_peers_sound [OF ps] p ps show ?thesis by blast
qed

theorem broker_fails_closed_witness:
  "entry_view demo_L (sr_entries (device (snd (broker_main bdemo_out bdemo [sdemo_conn demo_line] demo_db))))
     = entry_view demo_L (sr_entries (device demo_db))"
proof -
  have off: "\<not> (enabled (mc_env bdemo ''NETOPSCTL_PRODUCTION_WRITES_ENABLED'') \<and> enabled (mc_env bdemo ''NETOPSCTL_AUDIT_CHECKPOINT_HEALTHY''))"
    by code_simp
  have good: "sim_good demo_L (device demo_db)" by code_simp
  show ?thesis
    by (rule broker_fails_closed [where W = bdemo_out and M = bdemo and nf = "adapter_ipv4 demo_L" and good = "sim_good demo_L"
          and view = "\<lambda>d. entry_view demo_L (sr_entries d)", OF off _ good surjective_pairing])
      (simp add: bdemo_out_def sim.dev.device_adapter_axioms)
qed

end
