(* ===== verification/Link_Topology.thy ===== *)
theory Link_Topology
  imports Canonical_Json
begin

text \<open>
  Links between switches (\<open>src/netctl/topology_models.py\<close>, \<open>topology_reconcile.py\<close>): pieces of evidence about a pair
  of switches are aggregated into one link with its ports, state and confidence; \<open>topology_depths\<close> measures the
  distance of every switch from the core by breadth-first search.
\<close>

section \<open>Hardware addresses\<close>

text \<open>\<open>normalize_mac\<close> of \<open>normalizer.py\<close>: drop everything that is no hexadecimal digit, demand twelve of them.\<close>

definition is_hex_digit :: "char \<Rightarrow> bool" where
  "is_hex_digit c \<longleftrightarrow> is_digit c \<or> (65 \<le> code c \<and> code c \<le> 70) \<or> (97 \<le> code c \<and> code c \<le> 102)"

definition upper_char :: "char \<Rightarrow> char" where
  "upper_char c = (if is_lower_az c then char_of (code c - 32) else c)"

fun pairs_of :: "string \<Rightarrow> string list" where
  "pairs_of (a # b # s) = [a, b] # pairs_of s"
| "pairs_of s = []"

definition normalize_mac :: "string option \<Rightarrow> string option" where
  "normalize_mac value = (case value of None \<Rightarrow> None
     | Some v \<Rightarrow> let raw = map upper_char (filter is_hex_digit v) in
         if length raw \<noteq> 12 then None else Some (join '':'' (pairs_of raw)))"

section \<open>Evidence and links\<close>

record link_endpoint =
  le_source :: int
  le_port :: string

record link_evidence =
  ev_a :: link_endpoint
  ev_b :: link_endpoint
  ev_type :: string
  ev_confidence :: int
  ev_observed_at :: string
  ev_intent :: string
  ev_details :: json

record switch_link =
  ln_key :: string
  ln_a :: int
  ln_port_a :: string
  ln_b :: int
  ln_port_b :: string
  ln_state :: string
  ln_confidence :: int
  ln_intent :: string
  ln_observed_at :: string
  ln_evidence :: "link_evidence list"

definition canonical_evidence :: "link_evidence \<Rightarrow> link_evidence option" where
  "canonical_evidence e = (let first = ev_a e; second = ev_b e in
     if le_source first = le_source second then None
     else if le_source first < le_source second then Some e
     else Some (e\<lparr>ev_a := second, ev_b := first\<rparr>))"

definition evidence_key ::
    "pylib \<Rightarrow> link_evidence \<Rightarrow> string \<times> int \<times> string \<times> int \<times> string \<times> string \<times> string \<times> string" where
  "evidence_key L e = (ev_type e, le_source (ev_a e), le_port (ev_a e), le_source (ev_b e), le_port (ev_b e),
     ev_intent e, ev_observed_at e, dumps (float_repr L) False (ev_details e))"

definition link_key :: "int \<Rightarrow> string \<Rightarrow> int \<Rightarrow> string \<Rightarrow> string" where
  "link_key a pa b pb = int_text a @ '':'' @ pa @ ''|'' @ int_text b @ '':'' @ pb"

definition fdb_sides_resolved :: "link_evidence list \<Rightarrow> bool" where
  "fdb_sides_resolved evidence \<longleftrightarrow>
     (\<exists>e \<in> set evidence. ev_type e = ''fdb_management_mac'' \<and> le_port (ev_a e) \<noteq> [])
   \<and> (\<exists>e \<in> set evidence. ev_type e = ''fdb_management_mac'' \<and> le_port (ev_b e) \<noteq> [])"

definition evidence_priorities :: "link_evidence list \<Rightarrow> (string \<times> int) list" where
  "evidence_priorities evidence = [(''intent'', 500), (''lldp_chassis_mac'', 400),
     (''fdb_management_mac'', if fdb_sides_resolved evidence then 300 else 150),
     (''fdb_subtree'', 200), (''mac_density'', 100)]"

definition priority_of :: "(string \<times> int) list \<Rightarrow> string \<Rightarrow> int" where
  "priority_of priorities ty = (case map_of priorities ty of None \<Rightarrow> 0 | Some n \<Rightarrow> n)"

definition preferred_port ::
    "(link_evidence \<Rightarrow> link_endpoint) \<Rightarrow> (string \<times> int) list \<Rightarrow> link_evidence list \<Rightarrow> string \<times> bool" where
  "preferred_port endpoint priorities evidence =
     (let ranked = map (\<lambda>e. (priority_of priorities (ev_type e), le_port (endpoint e)))
            (filter (\<lambda>e. le_port (endpoint e) \<noteq> []) evidence) in
      if ranked = [] then ([], False)
      else let strongest = Max (set (map fst ranked));
               ports = sort (remdups (map snd (filter (\<lambda>(p, port). p = strongest) ranked))) in
        case ports of [port] \<Rightarrow> (port, False) | _ \<Rightarrow> ([], True))"

definition evidence_types :: "link_evidence list \<Rightarrow> string set" where
  "evidence_types evidence = set (map ev_type evidence)"

definition link_state ::
    "link_evidence list \<Rightarrow> (string \<times> int) list \<Rightarrow> bool \<Rightarrow> bool \<Rightarrow> string \<times> int" where
  "link_state evidence priorities conflicting both_ports = (let types = evidence_types evidence in
     if conflicting then (''conflicting'', 0)
     else if ''intent'' \<in> types \<and> (''lldp_chassis_mac'' \<in> types \<or> ''fdb_management_mac'' \<in> types)
       then (''confirmed'', min 100 (Max (set (map ev_confidence evidence)) + 10))
     else if ''lldp_chassis_mac'' \<in> types then (''inferred'', 85)
     else if ''fdb_management_mac'' \<in> types \<and> priority_of priorities ''fdb_management_mac'' = 300 then (''inferred'', 70)
     else if ''intent'' \<in> types then (''inferred'', if both_ports then 60 else 45)
     else if ''fdb_subtree'' \<in> types
       then (''inferred'', Max (set (map ev_confidence (filter (\<lambda>e. ev_type e = ''fdb_subtree'') evidence))))
     else if ''fdb_management_mac'' \<in> types then (''inferred'', 70)
     else (''ambiguous'', 0))"

definition aggregate_pair :: "pylib \<Rightarrow> string \<Rightarrow> int \<times> int \<Rightarrow> link_evidence list \<Rightarrow> switch_link" where
  "aggregate_pair L observed_at pair evidence0 =
     (let evidence = sort_key (evidence_key L) evidence0;
          priorities = evidence_priorities evidence;
          (port_a, a_conflicting) = preferred_port ev_a priorities evidence;
          (port_b, b_conflicting) = preferred_port ev_b priorities evidence;
          intent_ids = remdups (filter (\<lambda>i. i \<noteq> []) (map ev_intent evidence));
          (state, confidence) = link_state evidence priorities (a_conflicting \<or> b_conflicting) (port_a \<noteq> [] \<and> port_b \<noteq> []) in
      \<lparr>ln_key = link_key (fst pair) port_a (snd pair) port_b, ln_a = fst pair, ln_port_a = port_a, ln_b = snd pair,
       ln_port_b = port_b, ln_state = state, ln_confidence = confidence,
       ln_intent = (case intent_ids of [i] \<Rightarrow> i | _ \<Rightarrow> []), ln_observed_at = observed_at, ln_evidence = evidence\<rparr>)"

definition pair_of :: "link_evidence \<Rightarrow> int \<times> int" where
  "pair_of e = (le_source (ev_a e), le_source (ev_b e))"

definition aggregate_link_evidence :: "pylib \<Rightarrow> string \<Rightarrow> link_evidence list \<Rightarrow> switch_link list" where
  "aggregate_link_evidence L observed_at evidence =
     (let canonical = List.map_filter canonical_evidence evidence in
      map (\<lambda>pair. aggregate_pair L observed_at pair (filter (\<lambda>e. pair_of e = pair) canonical))
        (sort (remdups (map pair_of canonical))))"

section \<open>Distance from the core\<close>

text \<open>The peers of a switch over links that are not conflicting, in ascending order.\<close>

definition adjacent :: "switch_link list \<Rightarrow> int \<Rightarrow> int list" where
  "adjacent links v = sort (remdups (concat (map (\<lambda>l.
     if ln_state l = ''conflicting'' then []
     else (if ln_a l = v then [ln_b l] else []) @ (if ln_b l = v then [ln_a l] else [])) links)))"

fun visit_peers :: "int \<Rightarrow> int list \<Rightarrow> int list \<Rightarrow> (int \<times> int) list \<Rightarrow> int list \<times> (int \<times> int) list" where
  "visit_peers depth [] queue depths = (queue, depths)"
| "visit_peers depth (p # ps) queue depths =
     (if p \<in> set (map fst depths) then visit_peers depth ps queue depths
      else visit_peers depth ps (queue @ [p]) (depths @ [(p, depth)]))"

definition depth_at :: "(int \<times> int) list \<Rightarrow> int \<Rightarrow> int" where
  "depth_at depths v = (case map_of depths v of None \<Rightarrow> 0 | Some d \<Rightarrow> d)"

definition switches :: "switch_link list \<Rightarrow> int set" where
  "switches links = set (map ln_a links) \<union> set (map ln_b links)"

lemma adjacent_switches: "w \<in> set (adjacent links v) \<Longrightarrow> w \<in> switches links"
  by (auto simp: adjacent_def switches_def split: if_splits)

lemma visit_peers_spec:
  "distinct ps \<Longrightarrow> visit_peers d ps q ds =
     (let new = filter (\<lambda>p. p \<notin> set (map fst ds)) ps in (q @ new, ds @ map (\<lambda>p. (p, d)) new))"
proof (induction ps arbitrary: q ds)
  case (Cons p ps)
  then have "p \<notin> set (map fst ds) \<Longrightarrow>
      filter (\<lambda>x. x \<notin> set (map fst (ds @ [(p, d)]))) ps = filter (\<lambda>x. x \<notin> set (map fst ds)) ps"
    by (intro filter_cong) auto
  with Cons show ?case by (simp add: Let_def)
qed simp

function search :: "switch_link list \<Rightarrow> int list \<Rightarrow> (int \<times> int) list \<Rightarrow> (int \<times> int) list" where
  "search links [] depths = depths"
| "search links (v # queue) depths =
     (case visit_peers (depth_at depths v + 1) (adjacent links v) queue depths of
        (queue', depths') \<Rightarrow> search links queue' depths')"
  by pat_completeness auto

text \<open>Every turn takes one switch off the queue and puts on it only switches that had no depth before.\<close>

termination search
proof (relation "measures [\<lambda>(links, q, ds). card (switches links - fst ` set ds), \<lambda>(links, q, ds). length q]")
  fix links :: "switch_link list" and v queue depths queue' depths'
  assume r: "(queue', depths') = visit_peers (depth_at depths v + 1) (adjacent links v) queue depths"
  let ?new = "filter (\<lambda>p. p \<notin> set (map fst depths)) (adjacent links v)"
  have "distinct (adjacent links v)" by (simp add: adjacent_def)
  from visit_peers_spec [OF this] r
  have q: "queue' = queue @ ?new" and ds: "depths' = depths @ map (\<lambda>p. (p, depth_at depths v + 1)) ?new"
    by (simp_all add: Let_def)
  have dom: "fst ` set depths' = fst ` set depths \<union> set ?new" by (simp add: ds image_Un image_image)
  show "((links, queue', depths'), (links, v # queue, depths))
    \<in> measures [\<lambda>(links, q, ds). card (switches links - fst ` set ds), \<lambda>(links, q, ds). length q]"
  proof (cases "?new = []")
    case True
    then show ?thesis using q dom by simp
  next
    case False
    define p where "p = hd ?new"
    have p: "p \<in> set ?new" unfolding p_def by (rule hd_in_set [OF False])
    have "finite (switches links)" by (simp add: switches_def)
    moreover have "switches links - fst ` set depths' \<subset> switches links - fst ` set depths"
      using p dom adjacent_switches [of p links v] by auto
    ultimately have "card (switches links - fst ` set depths') < card (switches links - fst ` set depths)"
      by (intro psubset_card_mono) auto
    then show ?thesis by simp
  qed
qed simp

definition topology_depths :: "switch_link list \<Rightarrow> int list \<Rightarrow> (int \<times> int) list" where
  "topology_depths links roots = (let ordered = sort (remdups roots) in
     if ordered = [] then [] else search links ordered (map (\<lambda>r. (r, 0)) ordered))"

section \<open>Depths are distances\<close>

text \<open>\<open>walk links roots n v\<close>: some root is joined to \<open>v\<close> by \<open>n\<close> links, none of them conflicting.\<close>

inductive walk :: "switch_link list \<Rightarrow> int set \<Rightarrow> nat \<Rightarrow> int \<Rightarrow> bool" for links roots where
  walk_root: "r \<in> roots \<Longrightarrow> walk links roots 0 r"
| walk_link: "walk links roots n u \<Longrightarrow> l \<in> set links \<Longrightarrow> ln_state l \<noteq> ''conflicting'' \<Longrightarrow>
    (ln_a l, ln_b l) = (u, v) \<or> (ln_b l, ln_a l) = (u, v) \<Longrightarrow> walk links roots (Suc n) v"

lemma adjacent_iff:
  "v \<in> set (adjacent links u) \<longleftrightarrow> (\<exists>l \<in> set links. ln_state l \<noteq> ''conflicting''
     \<and> ((ln_a l, ln_b l) = (u, v) \<or> (ln_b l, ln_a l) = (u, v)))"
  by (auto simp: adjacent_def split: if_splits)

lemma walk_adjacent: "walk links roots n u \<Longrightarrow> v \<in> set (adjacent links u) \<Longrightarrow> walk links roots (Suc n) v"
  unfolding adjacent_iff by (blast intro: walk_link)

text \<open>The state of the search: depths are lengths of walks, whoever has left the queue has all peers at most one
  further, the queue ascends, and nothing known is more than one beyond its head.\<close>

definition search_inv :: "switch_link list \<Rightarrow> int set \<Rightarrow> int list \<Rightarrow> (int \<times> int) list \<Rightarrow> bool" where
  "search_inv links roots q ds \<longleftrightarrow> set q \<subseteq> dom (map_of ds)
     \<and> (\<forall>v k. map_of ds v = Some k \<longrightarrow> 0 \<le> k \<and> walk links roots (nat k) v)
     \<and> (\<forall>r \<in> roots. map_of ds r = Some 0)
     \<and> (\<forall>u w. u \<in> dom (map_of ds) - set q \<longrightarrow> w \<in> set (adjacent links u) \<longrightarrow>
          (\<exists>j. map_of ds w = Some j \<and> j \<le> depth_at ds u + 1))
     \<and> sorted (map (depth_at ds) q)
     \<and> (q \<noteq> [] \<longrightarrow> (\<forall>v k. map_of ds v = Some k \<longrightarrow> k \<le> depth_at ds (hd q) + 1))"

lemma map_of_new:
  assumes "\<forall>p \<in> set new. p \<notin> dom (map_of ds)"
  shows "map_of (ds @ map (\<lambda>p. (p, d)) new) v = (if v \<in> set new then Some d else map_of ds v)"
proof -
  have "map_of (map (\<lambda>p. (p, d)) new) v = (if v \<in> set new then Some d else None)" by (induction new) auto
  moreover have "v \<in> set new \<Longrightarrow> map_of ds v = None" using assms by blast
  ultimately show ?thesis by (simp add: map_add_def split: option.split)
qed

lemma sorted_const: "sorted (map (\<lambda>_. c :: int) xs)"
  by (induction xs) auto

lemma search_inv_step:
  assumes inv: "search_inv links roots (v # q) ds" and step: "visit_peers (depth_at ds v + 1) (adjacent links v) q ds = (q', ds')"
  shows "search_inv links roots q' ds'"
proof -
  define new where "new = filter (\<lambda>p. p \<notin> dom (map_of ds)) (adjacent links v)"
  define m where "m = depth_at ds v"
  have dom: "dom (map_of xs) = fst ` set xs" for xs :: "(int \<times> int) list" by (rule dom_map_of_conv_image_fst)
  have "distinct (adjacent links v)" by (simp add: adjacent_def)
  from visit_peers_spec [OF this, of _ q ds] step
  have q': "q' = q @ new" and ds': "ds' = ds @ map (\<lambda>p. (p, m + 1)) new" by (simp_all add: new_def m_def Let_def dom)
  have fresh: "\<forall>p \<in> set new. p \<notin> dom (map_of ds)" by (auto simp: new_def)
  have mo: "map_of ds' w = (if w \<in> set new then Some (m + 1) else map_of ds w)" for w
    unfolding ds' by (rule map_of_new [OF fresh])
  have da: "depth_at ds' w = (if w \<in> set new then m + 1 else depth_at ds w)" for w
    by (simp add: depth_at_def mo)
  from inv have vq: "v \<in> dom (map_of ds)" "set q \<subseteq> dom (map_of ds)"
    and walks: "\<And>w k. map_of ds w = Some k \<Longrightarrow> 0 \<le> k \<and> walk links roots (nat k) w"
    and roots: "\<forall>r \<in> roots. map_of ds r = Some 0"
    and closed: "\<And>u w. u \<in> dom (map_of ds) - set (v # q) \<Longrightarrow> w \<in> set (adjacent links u) \<Longrightarrow>
          \<exists>j. map_of ds w = Some j \<and> j \<le> depth_at ds u + 1"
    and asc: "sorted (map (depth_at ds) q)" "\<forall>w \<in> set q. m \<le> depth_at ds w"
    and near: "\<And>w k. map_of ds w = Some k \<Longrightarrow> k \<le> m + 1"
    unfolding search_inv_def m_def by auto
  have old: "w \<notin> set new" if "w \<in> dom (map_of ds)" for w using fresh that by blast
  obtain k where k: "map_of ds v = Some k" "m = k" using vq(1) by (auto simp: m_def depth_at_def)
  have qnear: "\<forall>w \<in> set q. depth_at ds w \<le> m + 1" using vq(2) near by (force simp: depth_at_def)
  show ?thesis unfolding search_inv_def
  proof (intro conjI allI impI ballI)
    show "set q' \<subseteq> dom (map_of ds')" using vq(2) old by (auto simp: q' mo dom_def)
    show "0 \<le> j" "walk links roots (nat j) w" if "map_of ds' w = Some j" for w j
    proof -
      have "walk links roots (Suc (nat m)) w \<and> 0 \<le> m" if "w \<in> set new"
        using walks [OF k(1)] k(2) that by (auto simp: new_def intro: walk_adjacent)
      with that show "0 \<le> j" "walk links roots (nat j) w"
        using walks [of w j] by (auto simp: mo Suc_nat_eq_nat_zadd1 add.commute split: if_splits)
    qed
    show "map_of ds' r = Some 0" if "r \<in> roots" for r using that roots old [of r] by (auto simp: mo dom_def)
    show "\<exists>j. map_of ds' w = Some j \<and> j \<le> depth_at ds' u + 1"
      if u: "u \<in> dom (map_of ds') - set q'" and w: "w \<in> set (adjacent links u)" for u w
    proof -
      from u have u': "u \<in> dom (map_of ds)" "u \<notin> set new" "u \<notin> set q" by (auto simp: q' mo split: if_splits)
      show ?thesis
      proof (cases "u = v")
        case True
        show ?thesis
        proof (cases "w \<in> set new")
          case False
          with w True have "w \<in> dom (map_of ds)" by (auto simp: new_def)
          with near False True u'(2) show ?thesis by (auto simp: mo da m_def)
        qed (use True u'(2) in \<open>auto simp: mo da m_def\<close>)
      next
        case False
        with u' have "u \<in> dom (map_of ds) - set (v # q)" by simp
        from closed [OF this w] u'(2) old [of w] show ?thesis by (auto simp: mo da dom_def)
      qed
    qed
    have eq: "map (depth_at ds') q = map (depth_at ds) q" "map (depth_at ds') new = map (\<lambda>_. m + 1) new"
      using vq(2) old by (auto simp: da)
    have "sorted (map (depth_at ds') q)" "sorted (map (depth_at ds') new)"
      unfolding eq by (rule asc(1), rule sorted_const)
    moreover have "\<forall>x \<in> set q. \<forall>y \<in> set new. depth_at ds' x \<le> depth_at ds' y" using qnear vq(2) old by (auto simp: da)
    ultimately show "sorted (map (depth_at ds') q')" by (auto simp: q' sorted_append)
    show "j \<le> depth_at ds' (hd q') + 1" if "q' \<noteq> []" "map_of ds' w = Some j" for w j
    proof -
      have "m \<le> depth_at ds' (hd q')"
        using that(1) asc(2) vq(2) old by (cases q; cases new) (auto simp: q' da)
      moreover have "j \<le> m + 1" using that(2) near by (auto simp: mo split: if_splits)
      ultimately show ?thesis by simp
    qed
  qed
qed

lemma search_correct:
  "search_inv links roots q ds \<Longrightarrow> search_inv links roots [] (search links q ds)"
proof (induction links q ds rule: search.induct)
  case (2 links v queue depths)
  obtain q' ds' where step: "visit_peers (depth_at depths v + 1) (adjacent links v) queue depths = (q', ds')" by fastforce
  from 2(1) [OF step [symmetric] search_inv_step [OF 2(2) step]] step show ?case by simp
qed simp

lemma topology_depths_inv:
  assumes "roots \<noteq> []"
  shows "search_inv links (set roots) [] (topology_depths links roots)"
proof -
  let ?r = "sort (remdups roots)"
  have mo: "map_of (map (\<lambda>r. (r, 0 :: int)) ?r) v = (if v \<in> set roots then Some 0 else None)" for v
  proof -
    have "map_of (map (\<lambda>r. (r, 0 :: int)) xs) v = (if v \<in> set xs then Some 0 else None)" for xs by (induction xs) auto
    then show ?thesis by simp
  qed
  have "map (depth_at (map (\<lambda>r. (r, 0)) ?r)) ?r = map (\<lambda>_. 0) ?r" by (simp add: depth_at_def mo)
  then have "sorted (map (depth_at (map (\<lambda>r. (r, 0)) ?r)) ?r)" by (simp only: sorted_const)
  then have "search_inv links (set roots) ?r (map (\<lambda>r. (r, 0)) ?r)"
    unfolding search_inv_def by (auto simp: mo dom_def depth_at_def walk_root split: if_splits)
  moreover have "?r \<noteq> []" using assms by (metis set_empty set_remdups set_sort)
  ultimately show ?thesis using search_correct by (simp add: topology_depths_def Let_def)
qed

lemma walk_covered:
  assumes "search_inv links roots [] ds" and "walk links roots n v"
  shows "\<exists>k. map_of ds v = Some k \<and> k \<le> int n"
  using assms(2)
proof induction
  case (walk_root r)
  then show ?case using assms(1) by (auto simp: search_inv_def)
next
  case (walk_link n u l v)
  then obtain k where k: "map_of ds u = Some k" "k \<le> int n" by blast
  have "v \<in> set (adjacent links u)" unfolding adjacent_iff using walk_link.hyps(2-) by blast
  moreover have "u \<in> dom (map_of ds) - set []" using k by auto
  ultimately obtain j where "map_of ds v = Some j" "j \<le> depth_at ds u + 1"
    using assms(1) unfolding search_inv_def by blast
  with k show ?case by (simp add: depth_at_def)
qed

text \<open>C25: The depth of a switch is its distance from the core. The search ends, whatever cycles the links form, and gives a
  switch depth \<open>d\<close> exactly if some core switch is \<open>d\<close> non-conflicting links away and none is nearer; switches that
  no core switch reaches have no depth.\<close>

theorem topology_depths_distance:
  "map_of (topology_depths links roots) v = Some d \<longleftrightarrow>
     0 \<le> d \<and> walk links (set roots) (nat d) v \<and> (\<forall>n. walk links (set roots) n v \<longrightarrow> d \<le> int n)"
proof (cases "roots = []")
  case True
  have "\<not> walk links {} n v" for n
  proof
    assume "walk links {} n v"
    then show False by induction auto
  qed
  with True show ?thesis by (simp add: topology_depths_def)
next
  case False
  let ?ds = "topology_depths links roots"
  note inv = topology_depths_inv [OF False, of links]
  have w: "0 \<le> k \<and> walk links (set roots) (nat k) v" if "map_of ?ds v = Some k" for k
    using inv that by (simp add: search_inv_def)
  show ?thesis
  proof
    assume d: "map_of ?ds v = Some d"
    with walk_covered [OF inv] w [OF d] show "0 \<le> d \<and> walk links (set roots) (nat d) v \<and> (\<forall>n. walk links (set roots) n v \<longrightarrow> d \<le> int n)"
      by fastforce
  next
    assume r: "0 \<le> d \<and> walk links (set roots) (nat d) v \<and> (\<forall>n. walk links (set roots) n v \<longrightarrow> d \<le> int n)"
    then obtain k where k: "map_of ?ds v = Some k" "k \<le> d" using walk_covered [OF inv, of "nat d" v] by auto
    with r w [OF k(1)] show "map_of ?ds v = Some d" by fastforce
  qed
qed

section \<open>What an aggregated link says\<close>

definition port_witness ::
    "(link_evidence \<Rightarrow> link_endpoint) \<Rightarrow> (string \<times> int) list \<Rightarrow> link_evidence list \<Rightarrow> link_evidence \<Rightarrow> bool" where
  "port_witness endpoint priorities evidence e \<longleftrightarrow> e \<in> set evidence \<and> le_port (endpoint e) \<noteq> []
     \<and> (\<forall>e' \<in> set evidence. le_port (endpoint e') \<noteq> [] \<longrightarrow> priority_of priorities (ev_type e') \<le> priority_of priorities (ev_type e))"

lemma preferred_port_ranked:
  fixes endpoint priorities evidence
  defines "ranked \<equiv> map (\<lambda>e. (priority_of priorities (ev_type e), le_port (endpoint e)))
      (filter (\<lambda>e. le_port (endpoint e) \<noteq> []) evidence)"
  assumes "ranked \<noteq> []"
  shows "snd ` {x \<in> set ranked. fst x = Max (set (map fst ranked))}
    = (\<lambda>e. le_port (endpoint e)) ` {e. port_witness endpoint priorities evidence e}"
proof -
  define M where "M = Max (set (map fst ranked))"
  have top: "priority_of priorities (ev_type e) = M \<longleftrightarrow> port_witness endpoint priorities evidence e"
    if e: "e \<in> set evidence" "le_port (endpoint e) \<noteq> []" for e
  proof -
    have mem: "priority_of priorities (ev_type e) \<in> set (map fst ranked)" using e by (force simp: ranked_def)
    have "M = priority_of priorities (ev_type e) \<longleftrightarrow> (\<forall>n \<in> set (map fst ranked). n \<le> priority_of priorities (ev_type e))"
      unfolding M_def using mem by (subst Max_eq_iff) auto
    also have "\<dots> \<longleftrightarrow> port_witness endpoint priorities evidence e"
      using e by (auto simp: port_witness_def ranked_def)
    finally show ?thesis by auto
  qed
  have "{x \<in> set ranked. fst x = M} = (\<lambda>e. (priority_of priorities (ev_type e), le_port (endpoint e)))
      ` {e \<in> set evidence. le_port (endpoint e) \<noteq> [] \<and> priority_of priorities (ev_type e) = M}"
    by (auto simp: ranked_def)
  also have "{e \<in> set evidence. le_port (endpoint e) \<noteq> [] \<and> priority_of priorities (ev_type e) = M}
      = {e. port_witness endpoint priorities evidence e}"
    using top by (auto simp: port_witness_def)
  finally show ?thesis by (simp add: image_image M_def)
qed

lemma sort_remdups_single: "(\<exists>x. sort (remdups xs) = [x]) \<longleftrightarrow> (\<exists>x. set xs = {x})" for xs :: "'a :: linorder list"
proof
  assume "\<exists>x. sort (remdups xs) = [x]"
  then show "\<exists>x. set xs = {x}" by (metis list.set(1,2) set_remdups set_sort)
next
  assume "\<exists>x. set xs = {x}"
  then obtain x where x: "set xs = {x}" by blast
  have "length (sort (remdups xs)) = card (set xs)" by (simp add: length_remdups_card_conv)
  then show "\<exists>x. sort (remdups xs) = [x]" using x by (auto simp: length_Suc_conv)
qed

lemma preferred_port_cases:
  assumes "preferred_port endpoint priorities evidence = (port, conflicting)"
  shows "(conflicting \<longleftrightarrow> (\<exists>e e'. port_witness endpoint priorities evidence e \<and> port_witness endpoint priorities evidence e'
        \<and> le_port (endpoint e) \<noteq> le_port (endpoint e')))
    \<and> (port \<noteq> [] \<longrightarrow> (\<exists>e. port_witness endpoint priorities evidence e \<and> le_port (endpoint e) = port))"
proof -
  define ranked where "ranked = map (\<lambda>e. (priority_of priorities (ev_type e), le_port (endpoint e)))
      (filter (\<lambda>e. le_port (endpoint e) \<noteq> []) evidence)"
  define W where "W = (\<lambda>e. le_port (endpoint e)) ` {e. port_witness endpoint priorities evidence e}"
  show ?thesis
  proof (cases "ranked = []")
    case True
    then have "\<not> port_witness endpoint priorities evidence e" for e by (auto simp: ranked_def port_witness_def filter_empty_conv)
    with True assms show ?thesis by (simp add: preferred_port_def ranked_def)
  next
    case False
    let ?ports = "map snd (filter (\<lambda>(p, port). p = Max (set (map fst ranked))) ranked)"
    have W: "set ?ports = W"
      using preferred_port_ranked [of priorities endpoint evidence, folded ranked_def, OF False] by (simp add: W_def case_prod_beta)
    have run: "(case sort (remdups ?ports) of [p] \<Rightarrow> (p, False) | _ \<Rightarrow> ([], True)) = (port, conflicting)"
      using assms False unfolding preferred_port_def ranked_def [symmetric] Let_def by (simp split: list.splits)
    have W_ne: "W \<noteq> {}"
    proof -
      have "Max (set (map fst ranked)) \<in> set (map fst ranked)" using False by (intro Max_in) auto
      then have "set ?ports \<noteq> {}" by (auto simp: filter_empty_conv)
      with W show ?thesis by simp
    qed
    show ?thesis
    proof (cases "\<exists>x. sort (remdups ?ports) = [x]")
      case True
      then obtain x where x: "sort (remdups ?ports) = [x]" by blast
      from run x have "port = x" "\<not> conflicting" by simp_all
      moreover have "W = {x}" using x W by (metis list.set(1,2) set_remdups set_sort)
      moreover from \<open>W = {x}\<close> have "\<forall>e. port_witness endpoint priorities evidence e \<longrightarrow> le_port (endpoint e) = x"
          "\<exists>e. port_witness endpoint priorities evidence e \<and> le_port (endpoint e) = x"
        unfolding W_def by blast+
      ultimately show ?thesis by metis
    next
      case False
      from run False have "port = []" "conflicting" by (auto split: list.splits)
      moreover have "\<not> (\<exists>x. W = {x})" using False W sort_remdups_single [of ?ports] by simp
      moreover from W_ne \<open>\<not> (\<exists>x. W = {x})\<close> obtain p p' where "p \<in> W" "p' \<in> W" "p \<noteq> p'" by blast
      ultimately show ?thesis unfolding W_def by auto
    qed
  qed
qed

text \<open>The evidence contradicts itself about an end of the link: two pieces of the highest rank that name a port there
  name different ones.\<close>

definition contradictory :: "(link_evidence \<Rightarrow> link_endpoint) \<Rightarrow> link_evidence list \<Rightarrow> bool" where
  "contradictory endpoint evidence \<longleftrightarrow> (\<exists>e e'. port_witness endpoint (evidence_priorities evidence) evidence e
     \<and> port_witness endpoint (evidence_priorities evidence) evidence e' \<and> le_port (endpoint e) \<noteq> le_port (endpoint e'))"

definition well_founded_port :: "(link_evidence \<Rightarrow> link_endpoint) \<Rightarrow> string \<Rightarrow> link_evidence list \<Rightarrow> bool" where
  "well_founded_port endpoint port evidence \<longleftrightarrow>
     (\<exists>e. port_witness endpoint (evidence_priorities evidence) evidence e \<and> le_port (endpoint e) = port)"

lemma canonical_ascending: "canonical_evidence e = Some c \<Longrightarrow> le_source (ev_a c) < le_source (ev_b c)"
  by (auto simp: canonical_evidence_def Let_def split: if_splits)

lemma link_state_conflicting: "fst (link_state ev pr c b) = ''conflicting'' \<longleftrightarrow> c"
  by (simp add: link_state_def Let_def)

lemma link_state_confirmed:
  "fst (link_state ev pr c b) = ''confirmed'' \<longleftrightarrow> \<not> c \<and> ''intent'' \<in> evidence_types ev
     \<and> (''lldp_chassis_mac'' \<in> evidence_types ev \<or> ''fdb_management_mac'' \<in> evidence_types ev)"
  by (simp add: link_state_def Let_def)

lemma aggregate_pair_facts:
  fixes L t pair ev0
  defines "l \<equiv> aggregate_pair L t pair ev0"
  shows "(ln_a l, ln_b l) = pair" and "set (ln_evidence l) = set ev0"
    and "ln_state l = ''conflicting'' \<longleftrightarrow> contradictory ev_a (ln_evidence l) \<or> contradictory ev_b (ln_evidence l)"
    and "ln_state l = ''confirmed'' \<longleftrightarrow> ln_state l \<noteq> ''conflicting'' \<and> ''intent'' \<in> evidence_types (ln_evidence l)
      \<and> (''lldp_chassis_mac'' \<in> evidence_types (ln_evidence l) \<or> ''fdb_management_mac'' \<in> evidence_types (ln_evidence l))"
    and "ln_port_a l \<noteq> [] \<Longrightarrow> well_founded_port ev_a (ln_port_a l) (ln_evidence l)"
    and "ln_port_b l \<noteq> [] \<Longrightarrow> well_founded_port ev_b (ln_port_b l) (ln_evidence l)"
proof -
  define ev where "ev = sort_key (evidence_key L) ev0"
  define pr where "pr = evidence_priorities ev"
  obtain pa ca where a: "preferred_port ev_a pr ev = (pa, ca)" by fastforce
  obtain pb cb where b: "preferred_port ev_b pr ev = (pb, cb)" by fastforce
  obtain st cf where st: "link_state ev pr (ca \<or> cb) (pa \<noteq> [] \<and> pb \<noteq> []) = (st, cf)" by fastforce
  have l: "ln_a l = fst pair" "ln_b l = snd pair" "ln_evidence l = ev" "ln_port_a l = pa" "ln_port_b l = pb" "ln_state l = st"
    unfolding l_def aggregate_pair_def by (simp_all add: Let_def ev_def [symmetric] pr_def [symmetric] a b st)
  note ca = preferred_port_cases [OF a, unfolded pr_def]
  note cb = preferred_port_cases [OF b, unfolded pr_def]
  show "(ln_a l, ln_b l) = pair" "set (ln_evidence l) = set ev0" by (simp_all add: l ev_def)
  have "st = ''conflicting'' \<longleftrightarrow> ca \<or> cb" using link_state_conflicting [of ev pr "ca \<or> cb" "pa \<noteq> [] \<and> pb \<noteq> []"] st by simp
  with ca cb show c: "ln_state l = ''conflicting'' \<longleftrightarrow> contradictory ev_a (ln_evidence l) \<or> contradictory ev_b (ln_evidence l)"
    by (simp add: l contradictory_def)
  show "ln_state l = ''confirmed'' \<longleftrightarrow> ln_state l \<noteq> ''conflicting'' \<and> ''intent'' \<in> evidence_types (ln_evidence l)
      \<and> (''lldp_chassis_mac'' \<in> evidence_types (ln_evidence l) \<or> ''fdb_management_mac'' \<in> evidence_types (ln_evidence l))"
    using link_state_confirmed [of ev pr "ca \<or> cb" "pa \<noteq> [] \<and> pb \<noteq> []"] st \<open>st = ''conflicting'' \<longleftrightarrow> ca \<or> cb\<close>
    by (simp add: l)
  show "ln_port_a l \<noteq> [] \<Longrightarrow> well_founded_port ev_a (ln_port_a l) (ln_evidence l)"
    and "ln_port_b l \<noteq> [] \<Longrightarrow> well_founded_port ev_b (ln_port_b l) (ln_evidence l)"
    using ca cb by (simp_all add: l well_founded_port_def)
qed


section \<open>Three switches in a ring\<close>

definition tdemo_evidence :: "int \<Rightarrow> string \<Rightarrow> int \<Rightarrow> string \<Rightarrow> string \<Rightarrow> link_evidence" where
  "tdemo_evidence a pa b pb ty = \<lparr>ev_a = \<lparr>le_source = a, le_port = pa\<rparr>, ev_b = \<lparr>le_source = b, le_port = pb\<rparr>, ev_type = ty,
     ev_confidence = 90, ev_observed_at = ''T1'', ev_intent = [], ev_details = JNull\<rparr>"

definition tdemo_seen :: "link_evidence list" where
  "tdemo_seen = [tdemo_evidence 2 ''p1'' 1 ''p7'' ''lldp_chassis_mac'', tdemo_evidence 1 ''p7'' 2 ''p1'' ''intent'',
     tdemo_evidence 2 ''p2'' 3 ''p1'' ''lldp_chassis_mac'', tdemo_evidence 3 ''p2'' 4 ''p1'' ''lldp_chassis_mac'',
     tdemo_evidence 1 ''p8'' 4 ''p2'' ''intent'', tdemo_evidence 3 ''p3'' 1 ''p9'' ''intent'', tdemo_evidence 1 ''p6'' 3 ''p3'' ''intent'']"

definition tdemo_links :: "switch_link list" where
  "tdemo_links = aggregate_link_evidence (demo_lib (\<lambda>_. 0)) ''T1'' tdemo_seen"

theorem topology_depths_distance_witness:
  "map_of (topology_depths tdemo_links [1]) 3 = Some 2 \<and> walk tdemo_links {1} 2 3"
proof -
  have "map_of (topology_depths tdemo_links [1]) 3 = Some 2" by code_simp
  with topology_depths_distance [of tdemo_links "[1]" 3 2] show ?thesis by simp
qed


end
