(* ===== verification/Attachment.thy ===== *)
theory Attachment
  imports Link_Topology
begin

text \<open>
  Where an asset is plugged in (\<open>src/netctl/attachment_candidates.py\<close>, \<open>attachment_reconcile.py\<close>,
  \<open>switch_eligibility.py\<close>). Every entry of a switch's forwarding table that shows the MAC of an active interface is a
  candidate with a score; the candidates of an interface are resolved to one port or to a reason why not; the
  result, its history and its findings are stored in one transaction.

  The tables are lists of rows. A row of a table with a primary key is found by it, so a left join is a lookup.
  Recomputing the fingerprints of assets (\<open>netctl/fingerprint\<close>) writes no table of this record; it is a parameter that
  gives its count or an error. \<open>k_ip_seen\<close> and \<open>k_host_seen\<close> hold the columns \<open>asset_id\<close> and \<open>is_current\<close> of the observation
  tables, \<open>k_devices\<close> the switches whose runtime asset is known. The watermark of the sources and the class of an error,
  which a run records for the operator, are left out; \<open>k_heads\<close> maps a context to its active revision.
\<close>

section \<open>The collector's tables\<close>

record nic_row =
  nc_id :: int
  nc_asset_id :: int
  nc_mac :: "string option"
  nc_lifecycle :: string

record host_row =
  ho_id :: int
  ho_key :: string
  ho_status :: string
  ho_site :: string

record fdb_row =
  fd_source :: int
  fd_vlan_key :: string
  fd_vlan_id :: "int option"
  fd_mac :: string
  fd_port_key :: string
  fd_status :: string
  fd_last_seen_at :: string
  fd_run_id :: int

record port_row =
  po_source :: int
  po_port_key :: string
  po_name :: string
  po_alias :: string
  po_oper_status :: string
  po_last_seen_at :: string

record switch_run =
  sw_id :: int
  sw_source :: int
  sw_status :: string
  sw_outcomes :: jtext

record port_role_row =
  pq_source :: int
  pq_port_key :: string
  pq_role :: string
  pq_confidence :: int
  pq_mac_count :: int
  pq_known_asset_count :: int
  pq_unique_vendor_count :: int
  pq_child :: "int option"
  pq_evidence :: jtext
  pq_observed_at :: string
  pq_run :: int

record source_entry =
  se_id :: int
  se_name :: string
  se_driver :: string
  se_site :: string
  se_options :: jtext

record link_row =
  lr_link :: switch_link
  lr_first_seen_at :: string
  lr_last_seen_at :: string
  lr_run :: int

record intent_asset_row =
  ia_revision :: int
  ia_stable_id :: string
  ia_lifecycle :: string

record intent_link_row =
  il_revision :: int
  il_stable_id :: string
  il_relation :: string
  il_lifecycle :: string
  il_a :: jtext
  il_b :: jtext

record lldp_row =
  ll_source :: int
  ll_local_port :: string
  ll_chassis_id :: string
  ll_port_id :: string
  ll_observed_at :: string
  ll_description :: string
  ll_capabilities :: jtext
  ll_enabled :: jtext
  ll_addresses :: jtext

record candidate =
  cd_asset :: int
  cd_interface :: int
  cd_switch :: int
  cd_port_key :: string
  cd_vlan_key :: string
  cd_vlan_id :: "int option"
  cd_class :: string
  cd_depth :: "int option"
  cd_score :: int
  cd_observed_at :: string
  cd_evidence :: json
  cd_port_role :: string

record resolution_row =
  rs_interface :: int
  rs_asset :: int
  rs_status :: string
  rs_source :: "int option"
  rs_port_key :: string
  rs_vlan_key :: string
  rs_vlan_id :: "int option"
  rs_confidence :: int
  rs_first_seen_at :: string
  rs_last_seen_at :: string
  rs_run :: int
  rs_evidence :: jtext

record attachment_event =
  ae_interface :: int
  ae_asset :: int
  ae_type :: string
  ae_before :: json
  ae_after :: json
  ae_observed_at :: string
  ae_run :: int

record topology_finding =
  tf_key :: string
  tf_type :: string
  tf_severity :: string
  tf_asset :: "int option"
  tf_source :: "int option"
  tf_seen_at :: string
  tf_details :: json

record link_event =
  lv_key :: string
  lv_type :: string
  lv_before :: json
  lv_after :: json
  lv_observed_at :: string
  lv_run :: int

record correlation_run =
  cr_id :: int
  cr_type :: string
  cr_started_at :: string
  cr_status :: string
  cr_finished_at :: "string option"
  cr_counts :: json
  cr_error :: string

record corr_db =
  k_hosts :: "host_row list"
  k_nics :: "nic_row list"
  k_ip_seen :: "(int \<times> bool) list"
  k_host_seen :: "(int \<times> bool) list"
  k_sources :: "source_entry list"
  k_devices :: "(int \<times> int) list"
  k_runs :: "switch_run list"
  k_ports :: "port_row list"
  k_fdb :: "fdb_row list"
  k_lldp :: "lldp_row list"
  k_heads :: "(string \<times> int) list"
  k_intent_assets :: "intent_asset_row list"
  k_intent_links :: "intent_link_row list"
  k_links :: "link_row list"
  k_link_events :: "link_event list"
  k_roles :: "port_role_row list"
  k_candidates :: "(candidate \<times> int) list"
  k_resolutions :: "resolution_row list"
  k_events :: "attachment_event list"
  k_findings :: "topology_finding list"
  k_correlations :: "correlation_run list"

section \<open>Authoritative collections\<close>

definition has_authoritative_fdb :: "pylib \<Rightarrow> string \<Rightarrow> jtext \<Rightarrow> bool" where
  "has_authoritative_fdb L status outcomes_json \<longleftrightarrow> status \<in> {''success'', ''partial''}
     \<and> (case loads_or_empty outcomes_json of Inl _ \<Rightarrow> False
        | Inr outcomes \<Rightarrow> is_dict outcomes
            \<and> str_or_empty L (get outcomes ''fdb'') \<in> {''success_with_rows'', ''success_empty''})"

section \<open>Candidates\<close>

text \<open>\<open>_active_interfaces\<close>: the pairs of asset and interface per MAC.\<close>

definition active_interfaces :: "corr_db \<Rightarrow> string \<Rightarrow> (int \<times> int) list" where
  "active_interfaces db mac = map (\<lambda>n. (nc_asset_id n, nc_id n))
     (filter (\<lambda>n. normalize_mac (nc_mac n) = Some mac)
       (sort_key (\<lambda>n. (nc_asset_id n, nc_id n)) (filter (\<lambda>n. nc_lifecycle n = ''active'' \<and> nc_mac n \<noteq> None) (k_nics db))))"

definition backbone_ports :: "corr_db \<Rightarrow> (int \<times> string) set" where
  "backbone_ports db = set (concat (map (\<lambda>r. let l = lr_link r in
     if ln_state l = ''conflicting'' then []
     else (if ln_port_a l \<noteq> [] then [(ln_a l, ln_port_a l)] else []) @ (if ln_port_b l \<noteq> [] then [(ln_b l, ln_port_b l)] else []))
     (k_links db)))"

definition class_score :: "string \<Rightarrow> int" where
  "class_score c = (if c = ''direct'' then 60 else if c = ''uplink'' then 20 else 35)"

definition score ::
    "string \<Rightarrow> int option \<Rightarrow> int option \<Rightarrow> string \<Rightarrow> bool \<Rightarrow> bool \<Rightarrow> string \<Rightarrow> int" where
  "score candidate_class depth vlan_id oper_status successful_run verified_backbone_port port_role =
     max 0 (min 100 (class_score candidate_class
       + (case depth of None \<Rightarrow> 0 | Some d \<Rightarrow> min (d * 5) 20)
       + (if vlan_id \<noteq> None then 5 else 0)
       + (if oper_status = ''up'' then 5 else 0)
       + (if successful_run then 5 else 0)
       - (if verified_backbone_port then 20 else 0)
       - (if port_role \<in> {''backbone'', ''downstream_bridge''} then 30 else if port_role = ''shared_edge'' then 15 else 0)))"

text \<open>The columns a row of the forwarding table is joined with.\<close>

definition port_of :: "corr_db \<Rightarrow> fdb_row \<Rightarrow> port_row option" where
  "port_of db f = find (\<lambda>p. po_source p = fd_source f \<and> po_port_key p = fd_port_key f) (k_ports db)"

definition run_of :: "corr_db \<Rightarrow> fdb_row \<Rightarrow> switch_run option" where
  "run_of db f = find (\<lambda>r. sw_id r = fd_run_id f \<and> sw_source r = fd_source f) (k_runs db)"

definition role_of :: "corr_db \<Rightarrow> fdb_row \<Rightarrow> port_role_row option" where
  "role_of db f = find (\<lambda>r. pq_source r = fd_source f \<and> pq_port_key r = fd_port_key f) (k_roles db)"

definition role_text :: "port_role_row option \<Rightarrow> string" where
  "role_text r = (case r of None \<Rightarrow> ''unknown'' | Some q \<Rightarrow> if pq_role q = [] then ''unknown'' else pq_role q)"

definition oper_text :: "port_row option \<Rightarrow> string" where
  "oper_text p = (case p of None \<Rightarrow> ''unknown'' | Some q \<Rightarrow> if po_oper_status q = [] then ''unknown'' else po_oper_status q)"

definition candidate_class_of :: "bool \<Rightarrow> string \<Rightarrow> port_row option \<Rightarrow> string" where
  "candidate_class_of verified role port =
     (if verified \<or> role \<in> {''backbone'', ''downstream_bridge''} then ''uplink''
      else if port \<noteq> None then ''direct'' else ''unknown'')"

definition candidate_of ::
    "corr_db \<Rightarrow> (int \<times> int) list \<Rightarrow> fdb_row \<Rightarrow> string \<Rightarrow> string \<Rightarrow> int \<times> int \<Rightarrow> candidate" where
  "candidate_of db depths f mac run_status ai =
     (let port = port_of db f; role = role_text (role_of db f);
          verified = ((fd_source f, fd_port_key f) \<in> backbone_ports db);
          cls = candidate_class_of verified role port; depth = map_of depths (fd_source f) in
      \<lparr>cd_asset = fst ai, cd_interface = snd ai, cd_switch = fd_source f, cd_port_key = fd_port_key f,
       cd_vlan_key = fd_vlan_key f, cd_vlan_id = fd_vlan_id f, cd_class = cls, cd_depth = depth,
       cd_score = score cls depth (fd_vlan_id f) (oper_text port) True verified role,
       cd_observed_at = fd_last_seen_at f,
       cd_evidence = JList [JObj [(''collector_run_id'', JInt (fd_run_id f)), (''collector_status'', JStr run_status),
         (''fdb_mac'', JStr mac), (''fdb_status'', JStr (fd_status f)), (''oper_status'', JStr (oper_text port)),
         (''verified_backbone_port'', JBool verified), (''port_role'', JStr role),
         (''port_role_confidence'', JInt (case role_of db f of None \<Rightarrow> 0 | Some q \<Rightarrow> pq_confidence q))]],
       cd_port_role = role\<rparr>)"

definition row_candidates :: "pylib \<Rightarrow> corr_db \<Rightarrow> (int \<times> int) list \<Rightarrow> fdb_row \<Rightarrow> candidate list" where
  "row_candidates L db depths f =
     (if lower (fd_status f) \<in> {''self'', ''mgmt''} then []
      else case normalize_mac (Some (fd_mac f)) of None \<Rightarrow> []
      | Some mac \<Rightarrow> (case run_of db f of None \<Rightarrow> []
         | Some run \<Rightarrow> if \<not> has_authoritative_fdb L (sw_status run) (sw_outcomes run) then []
             else map (candidate_of db depths f mac (sw_status run))
               (filter (\<lambda>(asset, interface). map_of (k_devices db) (fd_source f) \<noteq> Some asset) (active_interfaces db mac))))"

definition attachment_candidates :: "pylib \<Rightarrow> corr_db \<Rightarrow> (int \<times> int) list \<Rightarrow> candidate list" where
  "attachment_candidates L db depths =
     sort_key (\<lambda>c. (cd_interface c, cd_switch c, cd_vlan_key c, cd_port_key c))
       (concat (map (row_candidates L db depths)
         (sort_key (\<lambda>f. (fd_source f, fd_vlan_key f, fd_mac f, fd_port_key f)) (k_fdb db))))"

section \<open>Resolution\<close>

record resolution =
  re_status :: string
  re_selected :: "candidate option"
  re_confidence :: int
  re_alternatives :: "candidate list"

definition candidate_order :: "candidate \<Rightarrow> int \<times> bool \<times> int \<times> int \<times> string \<times> string" where
  "candidate_order c = (- cd_score c, cd_class c \<noteq> ''direct'', - (case cd_depth c of None \<Rightarrow> - 1 | Some d \<Rightarrow> d),
     cd_switch c, cd_port_key c, cd_vlan_key c)"

definition next_score :: "candidate \<Rightarrow> candidate list \<Rightarrow> int" where
  "next_score best cs = (let others = map cd_score (filter (\<lambda>c. c \<noteq> best) cs) in
     if others = [] then - 100 else Max (set others))"

definition resolve_attachment :: "candidate list \<Rightarrow> resolution" where
  "resolve_attachment candidates = (let ordered = sort_key candidate_order candidates in
     case ordered of [] \<Rightarrow> \<lparr>re_status = ''unresolved'', re_selected = None, re_confidence = 0, re_alternatives = []\<rparr>
     | first # _ \<Rightarrow>
         if list_all (\<lambda>c. cd_class c = ''uplink'') ordered
         then \<lparr>re_status = ''uplink_only'', re_selected = None, re_confidence = min 60 (cd_score first), re_alternatives = ordered\<rparr>
         else let ambiguous = \<lparr>re_status = ''ambiguous'', re_selected = None, re_confidence = min 60 (cd_score first),
                re_alternatives = ordered\<rparr> in
           (case find (\<lambda>c. cd_class c = ''direct'') ordered of
              Some best \<Rightarrow> if 75 \<le> cd_score best \<and> 15 \<le> cd_score best - next_score best ordered
                then \<lparr>re_status = ''confirmed'', re_selected = Some best, re_confidence = cd_score best, re_alternatives = ordered\<rparr>
                else ambiguous
            | None \<Rightarrow> ambiguous))"

section \<open>The core switches\<close>

text \<open>The role of a switch in its stored options (\<open>source_identity.py\<close>). The normalisation of options in
  \<open>config.py\<close> is a parameter: \<open>None\<close> stands for the \<open>ValueError\<close> with which it refuses them.\<close>

definition driver_options :: "(string \<Rightarrow> json \<Rightarrow> json option) \<Rightarrow> string \<Rightarrow> jtext \<Rightarrow> json" where
  "driver_options nz driver raw_options = (case loads_or_empty raw_options of Inl _ \<Rightarrow> JObj []
     | Inr decoded \<Rightarrow> if \<not> is_dict decoded then JObj []
         else case nz driver decoded of None \<Rightarrow> JObj [] | Some options \<Rightarrow> options)"

definition configured_string :: "json \<Rightarrow> string \<Rightarrow> string" where
  "configured_string options key = (case get_default options key (JStr []) of JStr v \<Rightarrow> v | _ \<Rightarrow> [])"

definition TOPOLOGY_ROLES :: "string list" where
  "TOPOLOGY_ROLES = [''core'', ''distribution'', ''access'', ''edge'', ''unknown'']"

definition topology_role :: "(string \<Rightarrow> json \<Rightarrow> json option) \<Rightarrow> source_entry \<Rightarrow> string" where
  "topology_role nz s = (let role = configured_string (driver_options nz (se_driver s) (se_options s)) ''topology_role'' in
     if role \<in> set TOPOLOGY_ROLES then role else ''unknown'')"

definition core_sources :: "(string \<Rightarrow> json \<Rightarrow> json option) \<Rightarrow> corr_db \<Rightarrow> int list" where
  "core_sources nz db = map se_id (filter (\<lambda>s. topology_role nz s = ''core'')
     (sort_key (\<lambda>s. (se_name s, se_id s)) (k_sources db)))"

section \<open>Storing the result\<close>

definition opt_json :: "int option \<Rightarrow> json" where
  "opt_json v = (case v of None \<Rightarrow> JNull | Some i \<Rightarrow> JInt i)"

definition candidate_public :: "candidate \<Rightarrow> json" where
  "candidate_public c = JObj [(''asset_id'', JInt (cd_asset c)), (''asset_interface_id'', JInt (cd_interface c)),
     (''switch_source_id'', JInt (cd_switch c)), (''port_key'', JStr (cd_port_key c)), (''vlan_key'', JStr (cd_vlan_key c)),
     (''vlan_id'', opt_json (cd_vlan_id c)), (''candidate_class'', JStr (cd_class c)), (''topology_depth'', opt_json (cd_depth c)),
     (''score'', JInt (cd_score c)), (''port_role'', JStr (cd_port_role c)), (''observed_at'', JStr (cd_observed_at c)),
     (''evidence'', cd_evidence c)]"

definition public_of :: "int \<Rightarrow> int \<Rightarrow> string \<Rightarrow> int option \<Rightarrow> string \<Rightarrow> string \<Rightarrow> int option \<Rightarrow> int \<Rightarrow> json" where
  "public_of interface asset status source port vlan_key vlan_id confidence =
     JObj [(''asset_interface_id'', JInt interface), (''asset_id'', JInt asset), (''status'', JStr status),
       (''selected_source_id'', opt_json source), (''selected_port_key'', JStr port), (''selected_vlan_key'', JStr vlan_key),
       (''selected_vlan_id'', opt_json vlan_id), (''confidence'', JInt confidence)]"

definition resolution_public :: "resolution_row option \<Rightarrow> json" where
  "resolution_public row = (case row of None \<Rightarrow> JObj []
     | Some r \<Rightarrow> public_of (rs_interface r) (rs_asset r) (rs_status r) (rs_source r) (rs_port_key r) (rs_vlan_key r)
         (rs_vlan_id r) (rs_confidence r))"

definition event_type :: "resolution_row option \<Rightarrow> resolution \<Rightarrow> string option" where
  "event_type before after = (case before of
     None \<Rightarrow> if re_status after = ''confirmed'' then Some ''attached'' else None
   | Some b \<Rightarrow>
       if rs_status b = ''ambiguous'' \<and> re_status after = ''confirmed'' then Some ''resolved_ambiguity''
       else if re_status after = ''ambiguous'' \<and> rs_status b \<noteq> ''ambiguous'' then Some ''became_ambiguous''
       else if rs_status b = ''confirmed'' \<and> re_status after \<noteq> ''confirmed'' then Some ''detached''
       else if rs_status b = ''confirmed'' \<and> re_status after = ''confirmed'' then
         (case re_selected after of None \<Rightarrow> None
          | Some c \<Rightarrow> if (rs_source b, rs_port_key b, rs_vlan_key b) \<noteq> (Some (cd_switch c), cd_port_key c, cd_vlan_key c)
              then Some ''moved'' else None)
       else None)"

definition current_links :: "corr_db \<Rightarrow> switch_link list" where
  "current_links db = map (\<lambda>r. (lr_link r)\<lparr>ln_observed_at := lr_last_seen_at r, ln_evidence := []\<rparr>)
     (sort_key (\<lambda>r. ln_key (lr_link r)) (k_links db))"

text \<open>\<open>_eligible_interfaces\<close>, as the dictionary from interface to asset.\<close>

definition observed_asset :: "corr_db \<Rightarrow> int \<Rightarrow> bool" where
  "observed_asset db asset \<longleftrightarrow> (asset, True) \<in> set (k_ip_seen db) \<or> (asset, True) \<in> set (k_host_seen db)"

definition site_collected :: "pylib \<Rightarrow> corr_db \<Rightarrow> string \<Rightarrow> bool" where
  "site_collected L db site \<longleftrightarrow> list_ex (\<lambda>r. has_authoritative_fdb L (sw_status r) (sw_outcomes r)
     \<and> list_ex (\<lambda>s. se_id s = sw_source r \<and> se_site s = site) (k_sources db)) (k_runs db)"

definition eligible_interfaces :: "pylib \<Rightarrow> corr_db \<Rightarrow> (int \<times> int) list" where
  "eligible_interfaces L db = map (\<lambda>(n, h). (nc_id n, nc_asset_id n))
     (filter (\<lambda>(n, h). normalize_mac (nc_mac n) \<noteq> None \<and> observed_asset db (nc_asset_id n) \<and> site_collected L db (ho_site h))
       (concat (map (\<lambda>n. map (\<lambda>h. (n, h)) (filter (\<lambda>h. ho_id h = nc_asset_id n \<and> ho_status h \<noteq> ''retired'') (k_hosts db)))
         (filter (\<lambda>n. nc_lifecycle n = ''active'' \<and> nc_mac n \<noteq> None) (k_nics db)))))"

text \<open>\<open>by_interface\<close>: every eligible interface, then those the candidates add, in the order of first appearance.\<close>

definition interfaces_to_resolve :: "(int \<times> int) list \<Rightarrow> candidate list \<Rightarrow> int list" where
  "interfaces_to_resolve eligible candidates = rev (remdups (rev (map fst eligible @ map cd_interface candidates)))"

text \<open>\<open>asset_by_interface\<close>: the last candidate of an interface has the last word, then the last eligible row.\<close>

definition asset_of_interface :: "(int \<times> int) list \<Rightarrow> candidate list \<Rightarrow> int \<Rightarrow> int" where
  "asset_of_interface eligible candidates i =
     (case map_of (rev (eligible @ map (\<lambda>c. (cd_interface c, cd_asset c)) candidates)) i of None \<Rightarrow> 0 | Some a \<Rightarrow> a)"

definition resolutions_of :: "(int \<times> int) list \<Rightarrow> candidate list \<Rightarrow> (int \<times> int \<times> resolution) list" where
  "resolutions_of eligible candidates = map (\<lambda>i. (i, asset_of_interface eligible candidates i,
     resolve_attachment (filter (\<lambda>c. cd_interface c = i) candidates))) (interfaces_to_resolve eligible candidates)"

definition candidate_pk :: "candidate \<Rightarrow> int \<times> int \<times> string \<times> string" where
  "candidate_pk c = (cd_interface c, cd_switch c, cd_port_key c, cd_vlan_key c)"

definition insert_candidate :: "int \<Rightarrow> unit \<Rightarrow> candidate \<Rightarrow> (corr_db, unit) prog" where
  "insert_candidate run u c = bind (gets k_candidates) (\<lambda>rows.
     if candidate_pk c \<in> candidate_pk ` fst ` set rows then raise IntegrityError
     else modify (k_candidates_update (\<lambda>xs. xs @ [(c, run)])))"

definition write_candidates :: "candidate list \<Rightarrow> int \<Rightarrow> (corr_db, unit) prog" where
  "write_candidates cs run = seq (modify (k_candidates_update (\<lambda>_. []))) (foldM (insert_candidate run) () cs)"

definition find_resolution :: "resolution_row list \<Rightarrow> int \<Rightarrow> resolution_row option" where
  "find_resolution rows i = find (\<lambda>r. rs_interface r = i) rows"

definition stored_resolution :: "resolution_row option \<Rightarrow> int \<Rightarrow> int \<Rightarrow> resolution \<Rightarrow> string \<Rightarrow> int \<Rightarrow> resolution_row" where
  "stored_resolution old i asset r observed_at run = (let c = re_selected r in
     \<lparr>rs_interface = i, rs_asset = asset, rs_status = re_status r, rs_source = map_option cd_switch c,
      rs_port_key = (case c of None \<Rightarrow> [] | Some x \<Rightarrow> cd_port_key x), rs_vlan_key = (case c of None \<Rightarrow> [] | Some x \<Rightarrow> cd_vlan_key x),
      rs_vlan_id = (case c of None \<Rightarrow> None | Some x \<Rightarrow> cd_vlan_id x), rs_confidence = re_confidence r,
      rs_first_seen_at = (case old of None \<Rightarrow> observed_at | Some o' \<Rightarrow> rs_first_seen_at o'), rs_last_seen_at = observed_at,
      rs_run = run, rs_evidence = Doc (JList (map candidate_public (re_alternatives r)))\<rparr>)"

text \<open>\<open>ON CONFLICT(asset_interface_id) DO UPDATE\<close>: the row keeps its place and its first sighting.\<close>

definition upsert_resolution :: "resolution_row \<Rightarrow> resolution_row list \<Rightarrow> resolution_row list" where
  "upsert_resolution r rows = (if rs_interface r \<in> rs_interface ` set rows
     then map (\<lambda>x. if rs_interface x = rs_interface r then r\<lparr>rs_first_seen_at := rs_first_seen_at x\<rparr> else x) rows
     else rows @ [r])"

definition finding_of_status :: "string \<Rightarrow> string option" where
  "finding_of_status = map_of [(''ambiguous'', ''attachment_ambiguous''), (''uplink_only'', ''attachment_uplink_only''),
     (''unresolved'', ''attachment_unresolved'')]"

definition ATTACHMENT_FINDINGS :: "string list" where
  "ATTACHMENT_FINDINGS = [''attachment_ambiguous'', ''attachment_uplink_only'', ''attachment_unresolved'']"

definition dashes :: "string \<Rightarrow> string" where
  "dashes s = map (\<lambda>c. if c = CHR ''_'' then CHR ''-'' else c) s"

definition insert_finding :: "topology_finding \<Rightarrow> (corr_db, unit) prog" where
  "insert_finding f = bind (gets k_findings) (\<lambda>rows.
     if tf_key f \<in> tf_key ` set rows then raise IntegrityError else modify (k_findings_update (\<lambda>xs. xs @ [f])))"

definition write_resolution ::
    "resolution_row list \<Rightarrow> string \<Rightarrow> int \<Rightarrow> unit \<Rightarrow> int \<times> int \<times> resolution \<Rightarrow> (corr_db, unit) prog" where
  "write_resolution old observed_at run u item = (case item of (i, asset, r) \<Rightarrow>
     let before = find_resolution old i; row = stored_resolution before i asset r observed_at run;
         after = resolution_public (Some row) in
     seq (modify (k_resolutions_update (upsert_resolution row)))
     (seq (case event_type before r of None \<Rightarrow> ret ()
           | Some ty \<Rightarrow> modify (k_events_update (\<lambda>es. es @ [\<lparr>ae_interface = i, ae_asset = asset, ae_type = ty,
               ae_before = resolution_public before, ae_after = after, ae_observed_at = observed_at, ae_run = run\<rparr>])))
     (case finding_of_status (re_status r) of None \<Rightarrow> ret ()
      | Some ty \<Rightarrow> insert_finding \<lparr>tf_key = dashes ty @ '':'' @ int_text i, tf_type = ty, tf_severity = ''warning'',
          tf_asset = Some asset, tf_source = None, tf_seen_at = observed_at,
          tf_details = JObj [(''resolution'', after), (''alternatives'', JList (map candidate_public (re_alternatives r)))]\<rparr>)))"

definition next_run_id :: "int list \<Rightarrow> int" where
  "next_run_id ids = (if ids = [] then 1 else Max (set ids) + 1)"

definition start_run :: "string \<Rightarrow> string \<Rightarrow> (corr_db, int) prog" where
  "start_run ty observed_at = bind (gets (\<lambda>db. next_run_id (map cr_id (k_correlations db)))) (\<lambda>run.
     seq (modify (k_correlations_update (\<lambda>xs. xs @ [\<lparr>cr_id = run, cr_type = ty, cr_started_at = observed_at, cr_status = ''running'',
       cr_finished_at = None, cr_counts = JObj [], cr_error = []\<rparr>]))) (ret run))"

definition finish_run :: "int \<Rightarrow> (correlation_run \<Rightarrow> correlation_run) \<Rightarrow> (corr_db, unit) prog" where
  "finish_run run f = modify (k_correlations_update (map (\<lambda>r. if cr_id r = run then f r else r)))"

text \<open>\<open>BEGIN IMMEDIATE\<close> with a rollback: the body starts from the committed state; an exception restores it, and the run is
  marked as failed.\<close>

definition transactional :: "int \<Rightarrow> string \<Rightarrow> (corr_db, 'a) prog \<Rightarrow> (corr_db, 'a) prog" where
  "transactional run observed_at body db = (case body db of
     (Inr x, db') \<Rightarrow> (Inr x, db')
   | (Inl e, db') \<Rightarrow> seq (finish_run run (\<lambda>r. r\<lparr>cr_status := ''failed'', cr_finished_at := Some observed_at,
         cr_error := ''correlation_failed''\<rparr>)) (raise e) db)"

definition status_counts :: "string list \<Rightarrow> string list \<Rightarrow> (string \<times> json) list" where
  "status_counts names xs = map (\<lambda>n. (n, JInt (int (length (filter (\<lambda>x. x = n) xs))))) names"

definition store_attachments ::
    "(corr_db \<Rightarrow> int res) \<Rightarrow> candidate list \<Rightarrow> (int \<times> int \<times> resolution) list \<Rightarrow> string \<Rightarrow> int \<Rightarrow> (corr_db, json) prog" where
  "store_attachments fingerprints candidates resolutions observed_at run =
     bind (gets k_resolutions) (\<lambda>old.
     seq (write_candidates candidates run)
     (seq (modify (k_findings_update (filter (\<lambda>f. tf_type f \<notin> set ATTACHMENT_FINDINGS))))
     (seq (foldM (write_resolution old observed_at run) () resolutions)
     (bind (gets fingerprints) (\<lambda>fp. bind (lift fp) (\<lambda>n.
      let counts = JObj (status_counts [''confirmed'', ''ambiguous'', ''uplink_only'', ''unresolved''] (map (\<lambda>(i, a, r). re_status r) resolutions)
        @ [(''candidates'', JInt (int (length candidates))), (''resolutions'', JInt (int (length resolutions))), (''fingerprints'', JInt n)]) in
      seq (finish_run run (\<lambda>r. r\<lparr>cr_status := ''success'', cr_finished_at := Some observed_at, cr_counts := counts\<rparr>)) (ret counts)))))))"

definition reconcile_attachments ::
    "pylib \<Rightarrow> (corr_db \<Rightarrow> int res) \<Rightarrow> (string \<Rightarrow> json \<Rightarrow> json option) \<Rightarrow> string \<Rightarrow> (corr_db, json) prog" where
  "reconcile_attachments L fingerprints nz observed_at = bind (start_run ''attachments'' observed_at) (\<lambda>run.
     transactional run observed_at
       (bind (gets (\<lambda>db. db)) (\<lambda>db.
        let candidates = attachment_candidates L db (topology_depths (current_links db) (core_sources nz db));
            resolutions = resolutions_of (eligible_interfaces L db) candidates in
        bind (store_attachments fingerprints candidates resolutions observed_at run) (\<lambda>counts.
        ret (JObj [(''run_id'', JInt run), (''counts'', counts)])))))"

end
