(* ===== verification/Link_Evidence.thy ===== *)
theory Link_Evidence
  imports Attachment
begin

text \<open>
  Evidence for links between switches (\<open>src/netctl/source_identity.py\<close>, \<open>topology_evidence.py\<close>): who a collected source
  is, and what documented intent, forwarding tables and LLDP neighbours say about pairs of sources.
\<close>

section \<open>Source identities\<close>

record source_identity =
  si_id :: int
  si_name :: string
  si_driver :: string
  si_role :: string
  si_asset :: "int option"
  si_asset_key :: string
  si_context :: string
  si_stable_id :: string
  si_macs :: "string list"

definition asset_by_id :: "corr_db \<Rightarrow> int option \<Rightarrow> host_row option" where
  "asset_by_id db asset_id = (case asset_id of None \<Rightarrow> None | Some i \<Rightarrow> find (\<lambda>h. ho_id h = i) (k_hosts db))"

definition asset_for_key :: "corr_db \<Rightarrow> string \<Rightarrow> host_row option" where
  "asset_for_key db key = (if key = [] then None else find (\<lambda>h. ho_key h = key) (k_hosts db))"

definition active_intent_binding :: "corr_db \<Rightarrow> string \<Rightarrow> string \<Rightarrow> string \<times> string" where
  "active_intent_binding db context_id stable_id =
     (if context_id = [] \<or> stable_id = [] then ([], [])
      else if list_ex (\<lambda>(c, revision). c = context_id \<and> list_ex (\<lambda>a. ia_revision a = revision \<and> ia_stable_id a = stable_id
            \<and> ia_lifecycle a = ''active'') (k_intent_assets db)) (k_heads db)
      then (context_id, stable_id) else ([], []))"

definition management_macs :: "corr_db \<Rightarrow> int option \<Rightarrow> string list" where
  "management_macs db asset_id = (case asset_id of None \<Rightarrow> []
     | Some i \<Rightarrow> sort (remdups (List.map_filter (\<lambda>n. normalize_mac (nc_mac n))
         (filter (\<lambda>n. nc_asset_id n = i \<and> nc_lifecycle n = ''active'' \<and> nc_mac n \<noteq> None) (k_nics db)))))"

definition source_identity_of :: "(string \<Rightarrow> json \<Rightarrow> json option) \<Rightarrow> corr_db \<Rightarrow> source_entry \<Rightarrow> source_identity" where
  "source_identity_of nz db row =
     (let options = driver_options nz (se_driver row) (se_options row);
          configured_key = configured_string options ''runtime_asset_key'';
          switch_asset = (if se_driver row = ''snmp_switch'' then map_of (k_devices db) (se_id row) else None);
          asset = (case asset_by_id db switch_asset of None \<Rightarrow> asset_for_key db configured_key | Some h \<Rightarrow> Some h);
          (context_id, stable_id) = active_intent_binding db (configured_string options ''intent_context_id'')
            (configured_string options ''intent_stable_id'') in
      \<lparr>si_id = se_id row, si_name = se_name row, si_driver = se_driver row, si_role = topology_role nz row,
       si_asset = map_option ho_id asset, si_asset_key = (case asset of None \<Rightarrow> configured_key | Some h \<Rightarrow> ho_key h),
       si_context = context_id, si_stable_id = stable_id, si_macs = management_macs db (map_option ho_id asset)\<rparr>)"

definition list_source_identities :: "(string \<Rightarrow> json \<Rightarrow> json option) \<Rightarrow> corr_db \<Rightarrow> source_identity list" where
  "list_source_identities nz db = map (source_identity_of nz db) (sort_key (\<lambda>s. (se_name s, se_id s)) (k_sources db))"

lemma core_sources_identities:
  "core_sources nz db = map si_id (filter (\<lambda>i. si_role i = ''core'') (list_source_identities nz db))"
proof -
  have "si_id (source_identity_of nz db s) = se_id s" "si_role (source_identity_of nz db s) = topology_role nz s" for s
    by (simp_all add: source_identity_of_def Let_def split: prod.split)
  then show ?thesis by (simp add: core_sources_def list_source_identities_def filter_map comp_def)
qed

section \<open>Evidence\<close>

definition normalized_pair :: "link_endpoint \<Rightarrow> link_endpoint \<Rightarrow> (link_endpoint \<times> link_endpoint) option" where
  "normalized_pair e e' = (if le_source e = le_source e' then None
     else if le_source e < le_source e' then Some (e, e') else Some (e', e))"

definition resolve_port :: "corr_db \<Rightarrow> int \<Rightarrow> json \<Rightarrow> string" where
  "resolve_port db source_id reference =
     (if \<not> is_str reference \<or> strip (str_value reference) = [] then []
      else let value = strip (str_value reference); ports = filter (\<lambda>p. po_source p = source_id) (k_ports db) in
        case find (\<lambda>p. po_port_key p = value) ports of Some p \<Rightarrow> po_port_key p
        | None \<Rightarrow> (case filter (\<lambda>p. lower (po_name p) = lower value) ports of [p] \<Rightarrow> po_port_key p
          | _ \<Rightarrow> (case filter (\<lambda>p. lower (po_alias p) = lower value) ports of [p] \<Rightarrow> po_port_key p | _ \<Rightarrow> [])))"

definition identity_by_intent :: "source_identity list \<Rightarrow> string \<times> string \<Rightarrow> source_identity option" where
  "identity_by_intent identities key = (case filter (\<lambda>i. si_context i \<noteq> [] \<and> si_stable_id i \<noteq> [] \<and> (si_context i, si_stable_id i) = key) identities of
     [i] \<Rightarrow> Some i | _ \<Rightarrow> None)"

definition identity_by_mac :: "source_identity list \<Rightarrow> string option \<Rightarrow> source_identity option" where
  "identity_by_mac identities mac = (case mac of None \<Rightarrow> None
     | Some m \<Rightarrow> (case concat (map (\<lambda>i. map (\<lambda>_. i) (filter (\<lambda>x. normalize_mac (Some x) = Some m) (si_macs i))) identities) of
         [i] \<Rightarrow> Some i | _ \<Rightarrow> None))"

definition identity_by_source :: "source_identity list \<Rightarrow> int \<Rightarrow> source_identity option" where
  "identity_by_source identities source_id = find (\<lambda>i. si_id i = source_id) (rev identities)"

definition intent_rows :: "corr_db \<Rightarrow> (string \<times> intent_link_row) list" where
  "intent_rows db = sort_key (\<lambda>(c, l). (c, il_stable_id l)) (concat (map (\<lambda>(c, revision).
     map (\<lambda>l. (c, l)) (filter (\<lambda>l. il_revision l = revision \<and> il_lifecycle l = ''active'' \<and> il_relation l = ''CONNECTED_TO'')
       (k_intent_links db))) (k_heads db)))"

definition intent_evidence_of :: "pylib \<Rightarrow> corr_db \<Rightarrow> source_identity list \<Rightarrow> string \<times> intent_link_row \<Rightarrow> link_evidence option" where
  "intent_evidence_of L db identities row = (case row of (context_id, l) \<Rightarrow>
     (case (loads (il_a l), loads (il_b l)) of
        (Inr j1, Inr j2) \<Rightarrow>
          if \<not> is_dict j1 \<or> \<not> is_dict j2 then None
          else (case (identity_by_intent identities (context_id, str_or_empty L (get j1 ''device'')),
                      identity_by_intent identities (context_id, str_or_empty L (get j2 ''device''))) of
            (Some i, Some j) \<Rightarrow>
              map_option (\<lambda>(a, b). \<lparr>ev_a = a, ev_b = b, ev_type = ''intent'',
                  ev_confidence = (if le_port a \<noteq> [] \<and> le_port b \<noteq> [] then 90 else 65), ev_observed_at = [],
                  ev_intent = il_stable_id l, ev_details = JObj []\<rparr>)
                (normalized_pair \<lparr>le_source = si_id i, le_port = resolve_port db (si_id i) (get j1 ''interface'')\<rparr>
                  \<lparr>le_source = si_id j, le_port = resolve_port db (si_id j) (get j2 ''interface'')\<rparr>)
          | _ \<Rightarrow> None)
      | _ \<Rightarrow> None))"

definition intent_link_evidence :: "pylib \<Rightarrow> corr_db \<Rightarrow> source_identity list \<Rightarrow> link_evidence list" where
  "intent_link_evidence L db identities = List.map_filter (intent_evidence_of L db identities) (intent_rows db)"

definition mac_json :: "string option \<Rightarrow> json" where
  "mac_json m = (case m of None \<Rightarrow> JNull | Some x \<Rightarrow> JStr x)"

definition fdb_evidence_of :: "corr_db \<Rightarrow> source_identity list \<Rightarrow> fdb_row \<Rightarrow> link_evidence option" where
  "fdb_evidence_of db identities f = (let mac = normalize_mac (Some (fd_mac f)) in
     case (identity_by_mac identities mac, identity_by_source identities (fd_source f)) of
       (Some remote, Some local) \<Rightarrow>
         map_option (\<lambda>(a, b). \<lparr>ev_a = a, ev_b = b, ev_type = ''fdb_management_mac'', ev_confidence = 70,
             ev_observed_at = fd_last_seen_at f, ev_intent = [], ev_details = JObj [(''mac'', mac_json mac)]\<rparr>)
           (normalized_pair \<lparr>le_source = si_id local, le_port = resolve_port db (si_id local) (JStr (fd_port_key f))\<rparr>
             \<lparr>le_source = si_id remote, le_port = []\<rparr>)
     | _ \<Rightarrow> None)"

definition fdb_management_mac_evidence :: "corr_db \<Rightarrow> source_identity list \<Rightarrow> link_evidence list" where
  "fdb_management_mac_evidence db identities = List.map_filter (fdb_evidence_of db identities)
     (sort_key (\<lambda>f. (fd_source f, fd_mac f)) (k_fdb db))"

definition json_string_list :: "jtext \<Rightarrow> json list" where
  "json_string_list value = (case loads value of
     Inr (JList xs) \<Rightarrow> if length xs > 16 \<or> list_ex (\<lambda>x. \<not> is_str x) xs then [] else xs
   | _ \<Rightarrow> [])"

definition lldp_details :: "lldp_row \<Rightarrow> (string \<times> json) list" where
  "lldp_details r =
     (let addresses = json_string_list (ll_addresses r); description = strip (ll_description r);
          enabled = json_string_list (ll_enabled r); supported = json_string_list (ll_capabilities r);
          capabilities = (if enabled \<noteq> [] then enabled else supported) in
      [(''chassis_id'', mac_json (normalize_mac (Some (ll_chassis_id r))))]
      @ (if addresses \<noteq> [] then [(''management_address'', hd addresses)] else [])
      @ (if description \<noteq> [] then [(''system_description'', JStr description)] else [])
      @ (if capabilities \<noteq> [] then [(''capabilities'', JList capabilities)] else []))"

definition lldp_evidence_of :: "corr_db \<Rightarrow> source_identity list \<Rightarrow> lldp_row \<Rightarrow> link_evidence option" where
  "lldp_evidence_of db identities r =
     (case (identity_by_mac identities (normalize_mac (Some (ll_chassis_id r))), identity_by_source identities (ll_source r)) of
       (Some remote, Some local) \<Rightarrow>
         map_option (\<lambda>(a, b). \<lparr>ev_a = a, ev_b = b, ev_type = ''lldp_chassis_mac'', ev_confidence = 90,
             ev_observed_at = ll_observed_at r, ev_intent = [], ev_details = JObj (lldp_details r)\<rparr>)
           (normalized_pair \<lparr>le_source = si_id local, le_port = resolve_port db (si_id local) (JStr (ll_local_port r))\<rparr>
             \<lparr>le_source = si_id remote, le_port = resolve_port db (si_id remote) (JStr (ll_port_id r))\<rparr>)
     | _ \<Rightarrow> None)"

definition lldp_link_evidence :: "corr_db \<Rightarrow> source_identity list \<Rightarrow> link_evidence list" where
  "lldp_link_evidence db identities = List.map_filter (lldp_evidence_of db identities)
     (sort_key (\<lambda>r. (ll_source r, ll_local_port r)) (k_lldp db))"

definition collect_link_evidence :: "pylib \<Rightarrow> corr_db \<Rightarrow> source_identity list \<Rightarrow> link_evidence list" where
  "collect_link_evidence L db identities =
     sort_key (\<lambda>e. (ev_type e, le_source (ev_a e), le_source (ev_b e), le_port (ev_a e), le_port (ev_b e), ev_intent e))
       (intent_link_evidence L db identities @ fdb_management_mac_evidence db identities @ lldp_link_evidence db identities)"

end
