(* ===== verification/Fdb_Correlation.thy ===== *)
theory Fdb_Correlation
  imports Link_Evidence
begin

text \<open>
  Correlation of forwarding tables (\<open>src/netctl/fdb_correlation.py\<close>). A switch is taken for the child of another when one
  port of the parent has learned at least four fifths of the addresses behind the child. The share is a
  floating-point number in the code, and it is one here: \<open>float_of\<close> rounds a positive rational number to 53 bits, half
  to even, as \<open>/\<close> and \<open>*\<close> of Python do for results that are neither subnormal nor infinite. A set of addresses is a list
  without repetitions.
\<close>

section \<open>Floating-point numbers\<close>

definition round_even :: "rat \<Rightarrow> int" where
  "round_even x = (let n = \<lfloor>x\<rfloor>; r = x - of_int n in
     if r < 1 / 2 then n else if r > 1 / 2 then n + 1 else if even n then n else n + 1)"

function scale_up :: "rat \<Rightarrow> nat" where
  "scale_up q = (if 0 < q \<and> q < 1 then Suc (scale_up (2 * q)) else 0)"
  by pat_completeness auto

termination scale_up
proof (relation "measure (\<lambda>q. nat \<lfloor>1 / q\<rfloor>)")
  fix q :: rat
  assume q: "0 < q \<and> q < 1"
  then have one: "1 < 1 / q" by simp
  have halves: "\<lfloor>x / 2\<rfloor> < \<lfloor>x\<rfloor>" if "1 < x" for x :: rat
  proof -
    have "1 \<le> \<lfloor>x\<rfloor>" using that by (simp add: le_floor_iff)
    then have "x / 2 < of_int \<lfloor>x\<rfloor>" by linarith
    then show ?thesis by (simp add: floor_less_iff)
  qed
  have "\<lfloor>1 / (2 * q)\<rfloor> < \<lfloor>1 / q\<rfloor>" using halves [OF one] by (simp add: mult.commute)
  then show "(2 * q, q) \<in> measure (\<lambda>q. nat \<lfloor>1 / q\<rfloor>)" using one by (simp add: nat_less_eq_zless)
qed simp

function scale_down :: "rat \<Rightarrow> nat" where
  "scale_down q = (if 2 \<le> q then Suc (scale_down (q / 2)) else 0)"
  by pat_completeness auto

termination scale_down
proof (relation "measure (\<lambda>q. nat \<lfloor>q\<rfloor>)")
  fix q :: rat
  assume "2 \<le> q"
  then have "\<lfloor>q / 2\<rfloor> < \<lfloor>q\<rfloor>" "0 < \<lfloor>q\<rfloor>" by linarith+
  then show "(q / 2, q) \<in> measure (\<lambda>q. nat \<lfloor>q\<rfloor>)" by simp
qed simp

declare scale_up.simps [simp del] scale_down.simps [simp del]

definition float_of :: "rat \<Rightarrow> rat" where
  "float_of q = (let u = scale_up q; d = scale_down q in
     of_int (round_even (q * 2 ^ u / 2 ^ d * 2 ^ 52)) / 2 ^ 52 * 2 ^ d / 2 ^ u)"

text \<open>\<open>m / n\<close> and \<open>round(x * 100)\<close>.\<close>

definition true_divide :: "nat \<Rightarrow> nat \<Rightarrow> rat" where
  "true_divide m n = float_of (of_nat m / of_nat n)"

definition percent :: "rat \<Rightarrow> int" where
  "percent coverage = round_even (float_of (coverage * 100))"

definition MIN_SUBTREE_LEAF_MACS :: nat where
  "MIN_SUBTREE_LEAF_MACS = 4"

definition MIN_SUBTREE_COVERAGE :: rat where
  "MIN_SUBTREE_COVERAGE = float_of (4 / 5)"

lemma round_even_of_int [simp]: "round_even (of_int n) = n"
  by (simp add: round_even_def)

lemma round_even_eqI:
  assumes "of_int n - 1 / 2 < x" and "x < of_int n + 1 / 2"
  shows "round_even x = n"
proof (cases "of_int n \<le> x")
  case True
  then have "\<lfloor>x\<rfloor> = n" using assms by (intro floor_unique) simp_all
  then show ?thesis using assms by (simp add: round_even_def)
next
  case False
  then have "\<lfloor>x\<rfloor> = n - 1" using assms by (intro floor_unique) simp_all
  then show ?thesis using assms by (simp add: round_even_def)
qed

lemma round_even_mono:
  assumes "x \<le> y"
  shows "round_even x \<le> round_even y"
proof (cases "\<lfloor>x\<rfloor> = \<lfloor>y\<rfloor>")
  case True
  then show ?thesis using assms unfolding round_even_def Let_def by (auto split: if_splits)
next
  case False
  with assms have "\<lfloor>x\<rfloor> + 1 \<le> \<lfloor>y\<rfloor>" using floor_mono [OF assms] by simp
  moreover have "round_even x \<le> \<lfloor>x\<rfloor> + 1" "\<lfloor>y\<rfloor> \<le> round_even y"
    unfolding round_even_def Let_def by auto
  ultimately show ?thesis by simp
qed

lemma scale_up_one [simp]: "1 \<le> q \<Longrightarrow> scale_up q = 0"
  by (subst scale_up.simps) simp

lemma scale_down_zero [simp]: "q < 2 \<Longrightarrow> scale_down q = 0"
  by (subst scale_down.simps) simp

lemma float_of_half:
  assumes "1 / 2 \<le> q" and "q < 1"
  shows "float_of q = of_int (round_even (q * 2 ^ 53)) / 2 ^ 53"
proof -
  have "scale_up q = Suc (scale_up (2 * q))" using assms by (subst scale_up.simps) simp
  also have "\<dots> = 1" using assms by simp
  finally show ?thesis using assms by (simp add: float_of_def Let_def mult.commute)
qed

lemma float_of_one [simp]: "float_of 1 = 1"
  by (simp add: float_of_def Let_def) (use round_even_of_int [of "2 ^ 52"] in simp)

lemma float_of_small:
  assumes "0 \<le> q" and "q < 1 / 2"
  shows "float_of q \<le> 1 / 2"
proof (cases "q = 0")
  case True
  have "scale_up 0 = 0" by (subst scale_up.simps) simp
  then show ?thesis using True round_even_of_int [of 0] by (simp add: float_of_def Let_def)
next
  case False
  have up: "q * 2 ^ scale_up q < 2 \<and> 0 < q" if "0 < q" "q < 2" for q :: rat
    using that
  proof (induction q rule: scale_up.induct)
    case (1 q)
    then show ?case by (cases "q < 1") (simp_all add: scale_up.simps [of q] mult.assoc [symmetric] mult.commute)
  qed
  let ?r = "4 * q"
  have u: "scale_up q = Suc (Suc (scale_up ?r))" using assms False by (simp add: scale_up.simps [of q] scale_up.simps [of "2 * q"])
  have "?r * 2 ^ scale_up ?r < 2" using up [of ?r] assms False by auto
  then have "?r * 2 ^ scale_up ?r * 2 ^ 52 \<le> of_int (2 ^ 53)" by simp
  from round_even_mono [OF this] have "of_int (round_even (?r * 2 ^ scale_up ?r * 2 ^ 52)) \<le> (2 ^ 53 :: rat)"
    unfolding round_even_of_int by (metis of_int_le_iff of_int_numeral of_int_power)
  also have "2 ^ 53 * 1 \<le> 2 ^ 53 * (2 ^ scale_up ?r :: rat)" by (intro mult_left_mono) simp_all
  finally have "of_int (round_even (?r * 2 ^ scale_up ?r * 2 ^ 52)) \<le> 2 ^ 53 * (2 ^ scale_up ?r :: rat)" by simp
  moreover have "q * 2 ^ scale_up q / 2 ^ scale_down q * 2 ^ 52 = ?r * 2 ^ scale_up ?r * 2 ^ 52"
    using assms u by simp
  ultimately show ?thesis using assms u by (simp add: float_of_def Let_def field_simps)
qed

lemma min_coverage: "MIN_SUBTREE_COVERAGE = 7205759403792794 / 2 ^ 53"
  unfolding MIN_SUBTREE_COVERAGE_def by (subst float_of_half) (simp_all add: round_even_eqI [of 7205759403792794])

lemma float_of_less_min:
  assumes "0 < n" and "n \<le> 2 ^ 53" and "5 * m < 4 * n"
  shows "float_of (of_nat m / of_nat n) < MIN_SUBTREE_COVERAGE"
proof (cases "of_nat m / of_nat n < (1 / 2 :: rat)")
  case True
  then show ?thesis using float_of_small [of "of_nat m / of_nat n"] by (simp add: min_coverage)
next
  case False
  let ?q = "of_nat m / of_nat n :: rat"
  have "of_nat (5 * m + 1) \<le> (of_nat (4 * n) :: rat)" using assms(3) by (simp only: of_nat_le_iff)
  then have q: "?q \<le> 4 / 5 - 1 / (5 * of_nat n)" using assms(1) by (simp add: field_simps)
  have "of_nat n \<le> (of_nat (2 ^ 53) :: rat)" using assms(2) by (simp only: of_nat_le_iff)
  then have "1 / (5 * 2 ^ 53) \<le> (1 / (5 * of_nat n) :: rat)" using assms(1) by (intro divide_left_mono mult_left_mono) simp_all
  with q have "?q \<le> 4 / 5 - 1 / (5 * 2 ^ 53)" by (rule order_trans [OF _ diff_left_mono])
  then have "?q * 2 ^ 53 \<le> (4 / 5 - 1 / (5 * 2 ^ 53)) * 2 ^ 53" by (rule mult_right_mono) simp
  also have "\<dots> = 7205759403792793 + 2 / 5" by simp
  finally have "round_even (?q * 2 ^ 53) \<le> round_even (7205759403792793 + 2 / 5)" by (rule round_even_mono)
  also have "\<dots> = 7205759403792793" by (rule round_even_eqI) simp_all
  finally have "of_int (round_even (?q * 2 ^ 53)) \<le> (of_int 7205759403792793 :: rat)" by (simp only: of_int_le_iff)
  moreover have "?q < 1" using assms by simp
  ultimately show ?thesis using False by (simp add: min_coverage float_of_half)
qed

lemma min_le_float_of:
  assumes "4 / 5 \<le> q" and "q \<le> 1"
  shows "MIN_SUBTREE_COVERAGE \<le> float_of q \<and> float_of q \<le> 1"
proof (cases "q = 1")
  case True
  then show ?thesis by (simp add: min_coverage)
next
  case False
  then have f: "float_of q = of_int (round_even (q * 2 ^ 53)) / 2 ^ 53" using assms by (intro float_of_half) simp_all
  have "round_even (4 / 5 * 2 ^ 53) \<le> round_even (q * 2 ^ 53)" "round_even (q * 2 ^ 53) \<le> round_even (of_int (2 ^ 53))"
    using assms by (intro round_even_mono; simp)+
  moreover have "round_even (4 / 5 * 2 ^ 53) = 7205759403792794" by (rule round_even_eqI) simp_all
  ultimately have "of_int 7205759403792794 \<le> (of_int (round_even (q * 2 ^ 53)) :: rat)"
      "of_int (round_even (q * 2 ^ 53)) \<le> (of_int (2 ^ 53) :: rat)"
    unfolding round_even_of_int by (simp_all only: of_int_le_iff)
  then show ?thesis unfolding f min_coverage by (simp add: field_simps)
qed

lemma float_of_le_one:
  assumes "0 \<le> q" and "q \<le> 1"
  shows "float_of q \<le> 1"
proof (cases "q < 1 / 2")
  case True
  then show ?thesis using float_of_small [OF assms(1)] by simp
next
  case False
  show ?thesis
  proof (cases "q = 1")
    case neq: False
    have "round_even (q * 2 ^ 53) \<le> round_even (of_int (2 ^ 53))" using assms by (intro round_even_mono) simp
    then have "of_int (round_even (q * 2 ^ 53)) \<le> (of_int (2 ^ 53) :: rat)" unfolding round_even_of_int by (simp only: of_int_le_iff)
    then show ?thesis using False neq assms by (simp add: float_of_half)
  qed simp
qed

text \<open>The test \<open>coverage < 0.80\<close> in floating point is the exact test on the counts, for every count up to \<open>2 ^ 53\<close>.\<close>

lemma coverage_test_exact:
  assumes "0 < n" and "n \<le> 2 ^ 53" and "m \<le> n"
  shows "true_divide m n < MIN_SUBTREE_COVERAGE \<longleftrightarrow> 5 * m < 4 * n"
proof (cases "5 * m < 4 * n")
  case True
  then show ?thesis using float_of_less_min assms by (simp add: true_divide_def)
next
  case False
  then have "of_nat (4 * n) \<le> (of_nat (5 * m) :: rat)" by (simp only: of_nat_le_iff)
  then have "4 / 5 \<le> (of_nat m / of_nat n :: rat)" "of_nat m / of_nat n \<le> (1 :: rat)"
    using assms by (simp_all add: field_simps)
  from min_le_float_of [OF this] False show ?thesis by (simp add: true_divide_def)
qed

lemma percent_bounds:
  assumes "MIN_SUBTREE_COVERAGE \<le> c" and "c \<le> 1"
  shows "percent c \<in> {80..100}"
proof -
  let ?q = "c * 100"
  have q: "80 \<le> ?q" "?q \<le> 100" using assms by (simp_all add: min_coverage)
  have "scale_down ?q = 6" using q
    by (simp add: scale_down.simps [of "x / 2" for x] scale_down.simps [of "c * 100"] scale_down.simps)
  then have f: "float_of ?q = of_int (round_even (?q / 2 ^ 6 * 2 ^ 52)) / 2 ^ 46" using q by (simp add: float_of_def)
  have "round_even (of_int (80 * 2 ^ 46)) \<le> round_even (?q / 2 ^ 6 * 2 ^ 52)"
       "round_even (?q / 2 ^ 6 * 2 ^ 52) \<le> round_even (of_int (100 * 2 ^ 46))"
    using q by (intro round_even_mono; simp)+
  then have "of_int (80 * 2 ^ 46) \<le> (of_int (round_even (?q / 2 ^ 6 * 2 ^ 52)) :: rat)"
      "of_int (round_even (?q / 2 ^ 6 * 2 ^ 52)) \<le> (of_int (100 * 2 ^ 46) :: rat)"
    unfolding round_even_of_int by (simp_all only: of_int_le_iff)
  then have "of_int 80 \<le> float_of ?q" "float_of ?q \<le> of_int 100" unfolding f by (simp_all add: field_simps)
  from this [THEN round_even_mono] show ?thesis unfolding round_even_of_int by (simp add: percent_def)
qed

section \<open>Addresses learned on ports\<close>

definition octet_digit :: "char \<Rightarrow> nat" where
  "octet_digit c = (if is_digit c then code c - 48 else if 97 \<le> code c then code c - 87 else code c - 55)"

definition octets :: "string \<Rightarrow> nat list" where
  "octets mac = map (\<lambda>p. 16 * octet_digit (p ! 0) + octet_digit (p ! 1)) (pairs_of (filter (\<lambda>c. c \<noteq> CHR '':'') mac))"

definition valid_leaf_mac :: "string option \<Rightarrow> string option" where
  "valid_leaf_mac value = (case normalize_mac value of None \<Rightarrow> None
     | Some mac \<Rightarrow> if \<not> list_ex (\<lambda>b. b \<noteq> 0) (octets mac) \<or> odd (hd (octets mac)) then None else Some mac)"

definition known_backbone_ports :: "switch_link list \<Rightarrow> (int \<times> string) set" where
  "known_backbone_ports links = set (filter (\<lambda>(source, port). port \<noteq> []) (concat (map (\<lambda>l.
     if ln_state l \<in> {''ambiguous'', ''conflicting''} then []
     else [(ln_a l, ln_port_a l), (ln_b l, ln_port_b l)]
       @ concat (map (\<lambda>e. [(le_source (ev_a e), le_port (ev_a e)), (le_source (ev_b e), le_port (ev_b e))]) (ln_evidence l))) links)))"

text \<open>The rows \<open>_learned_port_macs\<close> keeps, with the address in canonical form.\<close>

definition learned_rows :: "(string option \<Rightarrow> string option) \<Rightarrow> corr_db \<Rightarrow> (fdb_row \<times> string) list" where
  "learned_rows normal db = List.map_filter (\<lambda>f. map_option (Pair f) (normal (Some (fd_mac f))))
     (filter (\<lambda>f. lower (fd_status f) = ''learned'') (sort_key (\<lambda>f. (fd_source f, fd_port_key f, fd_mac f)) (k_fdb db)))"

definition macs_on :: "(fdb_row \<times> string) list \<Rightarrow> int \<Rightarrow> string \<Rightarrow> string list" where
  "macs_on rows source port = remdups (map snd (filter (\<lambda>(f, mac). fd_source f = source \<and> fd_port_key f = port) rows))"

definition learned_port_macs :: "corr_db \<Rightarrow> (int \<times> (string \<times> string list) list) list" where
  "learned_port_macs db = (let rows = learned_rows valid_leaf_mac db in
     map (\<lambda>source. (source, map (\<lambda>port. (port, macs_on rows source port))
         (sort (remdups (map (\<lambda>(f, _). fd_port_key f) (filter (\<lambda>(f, _). fd_source f = source) rows))))))
       (sort (remdups (map (\<lambda>(f, _). fd_source f) rows))))"

definition port_observed_at :: "corr_db \<Rightarrow> int \<Rightarrow> string \<Rightarrow> string" where
  "port_observed_at db source port = Max (insert [] (set (map (\<lambda>(f, _). fd_last_seen_at f)
     (filter (\<lambda>(f, _). fd_source f = source \<and> fd_port_key f = port) (learned_rows valid_leaf_mac db)))))"

section \<open>Subtree candidates\<close>

record subtree_candidate =
  sc_parent :: int
  sc_parent_port :: string
  sc_child :: int
  sc_child_source :: string
  sc_child_port :: string
  sc_leaf_count :: nat
  sc_matched :: nat
  sc_coverage :: rat
  sc_seen :: bool
  sc_confidence :: int
  sc_observed_at :: string

definition subtree_details :: "subtree_candidate \<Rightarrow> (string \<times> json) list" where
  "subtree_details c = [(''child_source'', JStr (sc_child_source c)), (''child_leaf_mac_count'', JInt (int (sc_leaf_count c))),
     (''matched_mac_count'', JInt (int (sc_matched c))), (''coverage'', JFloat (sc_coverage c)),
     (''child_management_mac_seen'', JBool (sc_seen c))]"

definition subtree_evidence :: "subtree_candidate \<Rightarrow> json" where
  "subtree_evidence c = JObj ((''type'', JStr ''fdb_subtree'') # subtree_details c)"

definition leaf_management_macs :: "source_identity \<Rightarrow> string list" where
  "leaf_management_macs i = List.map_filter (\<lambda>m. valid_leaf_mac (Some m)) (si_macs i)"

definition ports_of :: "(int \<times> (string \<times> string list) list) list \<Rightarrow> int \<Rightarrow> (string \<times> string list) list" where
  "ports_of port_macs source = (case map_of port_macs source of None \<Rightarrow> [] | Some ports \<Rightarrow> ports)"

definition child_leaf_macs ::
    "(int \<times> string) set \<Rightarrow> string list \<Rightarrow> int \<Rightarrow> (string \<times> string list) list \<Rightarrow> string list" where
  "child_leaf_macs backbone management child child_ports = remdups (filter (\<lambda>mac. mac \<notin> set management)
     (concat (map snd (filter (\<lambda>(port, _). (child, port) \<notin> backbone) child_ports))))"

text \<open>The port of the child that shows an address of the parent, when there is exactly one.\<close>

definition reverse_port :: "(string \<times> string list) list \<Rightarrow> string list \<Rightarrow> string" where
  "reverse_port child_ports parent_management =
     (case filter (\<lambda>(port, macs). list_ex (\<lambda>m. m \<in> set parent_management) macs) child_ports of [(port, _)] \<Rightarrow> port | _ \<Rightarrow> [])"

definition port_candidate ::
    "corr_db \<Rightarrow> source_identity \<Rightarrow> string list \<Rightarrow> (string \<times> string list) list \<Rightarrow> int \<Rightarrow> string
     \<Rightarrow> string \<times> string list \<Rightarrow> subtree_candidate option" where
  "port_candidate db child leaves child_ports parent child_port entry = (case entry of (port, macs) \<Rightarrow>
     let matched = length (filter (\<lambda>m. m \<in> set macs) leaves); coverage = true_divide matched (length leaves) in
     if coverage < MIN_SUBTREE_COVERAGE then None
     else Some \<lparr>sc_parent = parent, sc_parent_port = port, sc_child = si_id child, sc_child_source = si_name child,
       sc_child_port = child_port, sc_leaf_count = length leaves, sc_matched = matched, sc_coverage = coverage,
       sc_seen = list_ex (\<lambda>m. m \<in> set (leaf_management_macs child)) macs, sc_confidence = percent coverage,
       sc_observed_at = Max (insert (port_observed_at db parent port)
         (set (map (\<lambda>(p, _). port_observed_at db (si_id child) p) child_ports)))\<rparr>)"

definition child_candidates ::
    "corr_db \<Rightarrow> source_identity list \<Rightarrow> (int \<times> string) set \<Rightarrow> source_identity \<Rightarrow> subtree_candidate list" where
  "child_candidates db identities backbone child =
     (let port_macs = learned_port_macs db; child_ports = ports_of port_macs (si_id child);
          leaves = child_leaf_macs backbone (concat (map leaf_management_macs identities)) (si_id child) child_ports in
      if length leaves < MIN_SUBTREE_LEAF_MACS then []
      else concat (map (\<lambda>(parent, parent_ports).
        case identity_by_source identities parent of None \<Rightarrow> []
        | Some i \<Rightarrow> if parent = si_id child then []
            else List.map_filter (port_candidate db child leaves child_ports parent (reverse_port child_ports (leaf_management_macs i)))
              parent_ports) port_macs))"

definition prefer_seen :: "subtree_candidate list \<Rightarrow> subtree_candidate list" where
  "prefer_seen cs = (if list_ex sc_seen cs then filter sc_seen cs else cs)"

definition fdb_subtree_candidates ::
    "corr_db \<Rightarrow> source_identity list \<Rightarrow> switch_link list \<Rightarrow> subtree_candidate list" where
  "fdb_subtree_candidates db identities0 known_links =
     (let identities = sort_key si_id identities0;
          all = concat (map (child_candidates db identities (known_backbone_ports known_links)) identities) in
      sort_key (\<lambda>c. (sc_child c, - of_bool (sc_seen c) :: int, - sc_coverage c, sc_parent c, sc_parent_port c))
        (concat (map (\<lambda>child. prefer_seen (filter (\<lambda>c. sc_child c = child) all)) (sort (remdups (map sc_child all))))))"

section \<open>Selection of links\<close>

definition management_sides :: "switch_link \<Rightarrow> int set" where
  "management_sides l = set (concat (map (\<lambda>e. if ev_type e \<noteq> ''fdb_management_mac'' then []
     else (if le_port (ev_a e) \<noteq> [] then [le_source (ev_a e)] else []) @ (if le_port (ev_b e) \<noteq> [] then [le_source (ev_b e)] else []))
     (ln_evidence l)))"

definition two_sided :: "switch_link \<Rightarrow> bool" where
  "two_sided l \<longleftrightarrow> ln_a l \<in> management_sides l \<and> ln_b l \<in> management_sides l"

definition holds_ports :: "switch_link \<Rightarrow> bool" where
  "holds_ports l \<longleftrightarrow> ln_state l \<notin> {''ambiguous'', ''conflicting''}
     \<and> (''intent'' \<in> evidence_types (ln_evidence l) \<or> ''lldp_chassis_mac'' \<in> evidence_types (ln_evidence l) \<or> two_sided l)"

definition occupied_by :: "switch_link list \<Rightarrow> int \<times> string \<Rightarrow> int set" where
  "occupied_by links key = set (concat (map (\<lambda>l. if \<not> holds_ports l then []
     else (if ln_port_a l \<noteq> [] \<and> (ln_a l, ln_port_a l) = key then [ln_b l] else [])
       @ (if ln_port_b l \<noteq> [] \<and> (ln_b l, ln_port_b l) = key then [ln_a l] else [])) links))"

definition contradicts_stronger_link :: "switch_link list \<Rightarrow> subtree_candidate \<Rightarrow> bool" where
  "contradicts_stronger_link links c \<longleftrightarrow>
     (let at_parent = occupied_by links (sc_parent c, sc_parent_port c); at_child = occupied_by links (sc_child c, sc_child_port c) in
      (at_parent \<noteq> {} \<and> sc_child c \<notin> at_parent) \<or> (at_child \<noteq> {} \<and> sc_parent c \<notin> at_child))"

definition candidate_rank :: "subtree_candidate \<Rightarrow> int \<times> rat" where
  "candidate_rank c = (of_bool (sc_seen c), sc_coverage c)"

definition unique_best :: "subtree_candidate list \<Rightarrow> subtree_candidate list" where
  "unique_best eligible = (case filter (\<lambda>c. candidate_rank c = Max (set (map candidate_rank eligible))) eligible of [c] \<Rightarrow> [c] | _ \<Rightarrow> [])"

definition eligible_candidates :: "switch_link list \<Rightarrow> subtree_candidate list \<Rightarrow> subtree_candidate list" where
  "eligible_candidates links cs = filter (\<lambda>c. sc_child_port c \<noteq> [] \<and> \<not> contradicts_stronger_link links c) cs"

definition select_fdb_subtree_link_candidates ::
    "subtree_candidate list \<Rightarrow> switch_link list \<Rightarrow> subtree_candidate list" where
  "select_fdb_subtree_link_candidates cs stronger_links = (let eligible = eligible_candidates stronger_links cs in
     sort_key (\<lambda>c. (sc_parent c, sc_parent_port c, sc_child c, sc_child_port c))
       (concat (map (\<lambda>child. unique_best (filter (\<lambda>c. sc_child c = child) eligible)) (sort (remdups (map sc_child eligible))))))"

definition subtree_link_evidence :: "subtree_candidate \<Rightarrow> link_evidence" where
  "subtree_link_evidence c = \<lparr>ev_a = \<lparr>le_source = sc_parent c, le_port = sc_parent_port c\<rparr>,
     ev_b = \<lparr>le_source = sc_child c, le_port = sc_child_port c\<rparr>, ev_type = ''fdb_subtree'', ev_confidence = sc_confidence c,
     ev_observed_at = sc_observed_at c, ev_intent = [], ev_details = subtree_evidence c\<rparr>"

definition fdb_subtree_link_evidence :: "subtree_candidate list \<Rightarrow> switch_link list \<Rightarrow> link_evidence list" where
  "fdb_subtree_link_evidence cs stronger_links =
     sort_key (\<lambda>e. (le_source (ev_a e), le_port (ev_a e), le_source (ev_b e), le_port (ev_b e)))
       (map subtree_link_evidence (select_fdb_subtree_link_candidates cs stronger_links))"

section \<open>Load of the ports\<close>

record port_mac_summary =
  ps_source :: int
  ps_port_key :: string
  ps_mac_count :: nat
  ps_known_assets :: nat
  ps_vendors :: nat
  ps_management_seen :: bool
  ps_observed_at :: string

definition active_assets_by_mac :: "corr_db \<Rightarrow> string \<Rightarrow> int list" where
  "active_assets_by_mac db mac = map nc_asset_id (filter (\<lambda>n. nc_lifecycle n = ''active'' \<and> normalize_mac (nc_mac n) = Some mac)
     (sort_key (\<lambda>n. (nc_asset_id n, nc_id n)) (k_nics db)))"

definition port_seen_at :: "corr_db \<Rightarrow> int \<times> string \<Rightarrow> string" where
  "port_seen_at db key = (case find (\<lambda>p. (po_source p, po_port_key p) = key) (rev (k_ports db)) of None \<Rightarrow> [] | Some p \<Rightarrow> po_last_seen_at p)"

definition port_mac_summary_of :: "corr_db \<Rightarrow> string list \<Rightarrow> int \<times> string \<Rightarrow> port_mac_summary" where
  "port_mac_summary_of db management key =
     (let rows = filter (\<lambda>(f, _). (fd_source f, fd_port_key f) = key) (learned_rows normalize_mac db); macs = remdups (map snd rows) in
      \<lparr>ps_source = fst key, ps_port_key = snd key, ps_mac_count = length macs,
       ps_known_assets = length (remdups (concat (map (active_assets_by_mac db) macs))),
       ps_vendors = length (remdups (map (take 8) macs)),
       ps_management_seen = list_ex (\<lambda>m. m \<in> set management) macs,
       ps_observed_at = Max (insert (port_seen_at db key) (set (map (\<lambda>(f, _). fd_last_seen_at f) rows)))\<rparr>)"

definition port_mac_summaries :: "corr_db \<Rightarrow> source_identity list \<Rightarrow> port_mac_summary list" where
  "port_mac_summaries db identities =
     (let management = concat (map (\<lambda>i. List.map_filter (\<lambda>m. normalize_mac (Some m)) (si_macs i)) identities);
          keys = sort (remdups (map (\<lambda>p. (po_source p, po_port_key p)) (k_ports db)
            @ map (\<lambda>(f, _). (fd_source f, fd_port_key f)) (learned_rows normalize_mac db))) in
      map (port_mac_summary_of db management) keys)"

definition DEFAULT_ACCESS_PORT_MAC_THRESHOLD :: int where
  "DEFAULT_ACCESS_PORT_MAC_THRESHOLD = 10"

definition access_threshold :: "jtext \<Rightarrow> int" where
  "access_threshold options_json = (case loads_or_empty options_json of Inl _ \<Rightarrow> DEFAULT_ACCESS_PORT_MAC_THRESHOLD
     | Inr options \<Rightarrow> if \<not> is_dict options then DEFAULT_ACCESS_PORT_MAC_THRESHOLD
         else (case get options ''access_port_mac_threshold'' of JInt n \<Rightarrow> if 1 \<le> n then n else DEFAULT_ACCESS_PORT_MAC_THRESHOLD
           | _ \<Rightarrow> DEFAULT_ACCESS_PORT_MAC_THRESHOLD))"

definition access_port_mac_thresholds :: "corr_db \<Rightarrow> (int \<times> int) list" where
  "access_port_mac_thresholds db = map (\<lambda>s. (se_id s, access_threshold (se_options s))) (sort_key se_id (k_sources db))"

end
