(* ===== verification/Fdb_Correctness.thy ===== *)
theory Fdb_Correctness
  imports Fdb_Correlation "HOL-Library.Multiset"
begin

text \<open>
  Correctness of the correlation of forwarding tables: a subtree candidate is backed by learned addresses, and at most
  one candidate per child becomes a link, the one no other eligible candidate equals or exceeds.
\<close>

section \<open>Candidates\<close>

lemma in_map_filter: "y \<in> set (List.map_filter f xs) \<longleftrightarrow> (\<exists>x \<in> set xs. f x = Some y)"
  by (force simp: List.map_filter_def)

definition learned_on :: "corr_db \<Rightarrow> int \<Rightarrow> string \<Rightarrow> string \<Rightarrow> bool" where
  "learned_on db source port mac \<longleftrightarrow> (\<exists>f \<in> set (k_fdb db). lower (fd_status f) = ''learned'' \<and> fd_source f = source
     \<and> fd_port_key f = port \<and> valid_leaf_mac (Some (fd_mac f)) = Some mac)"

lemma macs_on_learned: "mac \<in> set (macs_on (learned_rows valid_leaf_mac db) source port) \<longleftrightarrow> learned_on db source port mac"
  by (force simp: macs_on_def learned_rows_def learned_on_def in_map_filter)

lemma learned_port_macsD:
  assumes "map_of (learned_port_macs db) source = Some ports \<or> (source, ports) \<in> set (learned_port_macs db)" and "(port, macs) \<in> set ports"
  shows "distinct macs \<and> (\<forall>mac. mac \<in> set macs \<longleftrightarrow> learned_on db source port mac)"
proof -
  have "(source, ports) \<in> set (learned_port_macs db)" using assms(1) by (auto dest: map_of_SomeD)
  then have "macs = macs_on (learned_rows valid_leaf_mac db) source port"
    using assms(2) by (auto simp: learned_port_macs_def Let_def)
  then show ?thesis using macs_on_learned [of _ db source port] by (simp add: macs_on_def)
qed

definition leaf_of :: "corr_db \<Rightarrow> source_identity list \<Rightarrow> switch_link list \<Rightarrow> int \<Rightarrow> string \<Rightarrow> bool" where
  "leaf_of db identities links child mac \<longleftrightarrow>
     (\<exists>port. (child, port) \<notin> known_backbone_ports links \<and> learned_on db child port mac)
   \<and> (\<forall>i \<in> set identities. \<forall>m \<in> set (si_macs i). valid_leaf_mac (Some m) \<noteq> Some mac)"

lemma child_leaf_macs_leaf:
  assumes "ports = ports_of (learned_port_macs db) child"
  shows "mac \<in> set (child_leaf_macs (known_backbone_ports links) (concat (map leaf_management_macs identities)) child ports)
    \<longleftrightarrow> leaf_of db identities links child mac"
proof -
  have keys: "map_of (map (\<lambda>s. (s, h s)) ks) k = (if k \<in> set ks then Some (h k) else None)" for h k and ks :: "int list"
    by (induction ks) auto
  let ?rows = "learned_rows valid_leaf_mac db"
  have ports: "(port, macs) \<in> set ports \<longleftrightarrow> (\<exists>f m. (f, m) \<in> set ?rows \<and> fd_source f = child \<and> fd_port_key f = port)
      \<and> macs = macs_on ?rows child port" for port macs
    unfolding assms ports_of_def learned_port_macs_def Let_def keys by (force simp: image_iff)
  have row: "learned_on db child port mac \<Longrightarrow> \<exists>f m. (f, m) \<in> set ?rows \<and> fd_source f = child \<and> fd_port_key f = port" for port
    by (force simp: learned_on_def learned_rows_def in_map_filter)
  have "(\<exists>port macs. (port, macs) \<in> set ports \<and> (child, port) \<notin> B \<and> mac \<in> set macs)
      \<longleftrightarrow> (\<exists>port. (child, port) \<notin> B \<and> learned_on db child port mac)" for B
    unfolding ports using row by (simp add: macs_on_learned) blast
  moreover have "mac \<in> set (concat (map leaf_management_macs identities))
      \<longleftrightarrow> (\<exists>i \<in> set identities. \<exists>m \<in> set (si_macs i). valid_leaf_mac (Some m) = Some mac)"
    by (auto simp: leaf_management_macs_def in_map_filter)
  ultimately show ?thesis unfolding child_leaf_macs_def leaf_of_def by (simp add: image_iff) blast
qed

lemma in_prefer_seen: "c \<in> set (prefer_seen cs) \<Longrightarrow> c \<in> set cs"
  by (simp add: prefer_seen_def split: if_splits)

lemma port_candidate_fields:
  assumes "port_candidate db child leaves ports parent child_port (port, macs) = Some c"
  defines "m \<equiv> length (filter (\<lambda>m. m \<in> set macs) leaves)"
  shows "sc_parent c = parent" "sc_child c = si_id child" "sc_parent_port c = port" "sc_leaf_count c = length leaves" "sc_matched c = m"
    "\<not> true_divide m (length leaves) < MIN_SUBTREE_COVERAGE" "sc_confidence c = percent (true_divide m (length leaves))"
  using assms by (auto simp: port_candidate_def Let_def split: if_splits)

lemma child_candidatesD:
  assumes "c \<in> set (child_candidates db identities (known_backbone_ports links) child)"
  obtains leaves ports i port macs where "port_candidate db child leaves ports (sc_parent c) (reverse_port ports (leaf_management_macs i)) (port, macs) = Some c"
    "distinct leaves" "\<And>mac. mac \<in> set leaves \<longleftrightarrow> leaf_of db identities links (si_id child) mac" "4 \<le> length leaves"
    "identity_by_source identities (sc_parent c) = Some i" "sc_parent c \<noteq> si_id child"
    "distinct macs" "\<And>mac. mac \<in> set macs \<longleftrightarrow> learned_on db (sc_parent c) port mac"
proof -
  define ports where "ports = ports_of (learned_port_macs db) (si_id child)"
  define leaves where "leaves = child_leaf_macs (known_backbone_ports links) (concat (map leaf_management_macs identities)) (si_id child) ports"
  have leaf: "mac \<in> set leaves \<longleftrightarrow> leaf_of db identities links (si_id child) mac" for mac
    unfolding leaves_def by (rule child_leaf_macs_leaf [OF ports_def])
  have long: "4 \<le> length leaves"
    using assms by (auto simp: child_candidates_def Let_def MIN_SUBTREE_LEAF_MACS_def ports_def leaves_def split: if_splits)
  obtain parent pports i where in_ports: "(parent, pports) \<in> set (learned_port_macs db)" and i: "Some i = identity_by_source identities parent"
      and neq: "parent \<noteq> si_id child"
      and c: "c \<in> set (List.map_filter (port_candidate db child leaves ports parent (reverse_port ports (leaf_management_macs i))) pports)"
    using assms by (auto simp: child_candidates_def Let_def ports_def leaves_def split: if_splits option.splits)
  then obtain port macs where entry: "(port, macs) \<in> set pports"
      and pc: "port_candidate db child leaves ports parent (reverse_port ports (leaf_management_macs i)) (port, macs) = Some c"
    by (auto simp: in_map_filter)
  note parent = port_candidate_fields(1) [OF pc]
  show ?thesis
    using that pc leaf long i [symmetric] neq learned_port_macsD [OF disjI2 [OF in_ports] entry] unfolding parent
    by (simp add: leaves_def child_leaf_macs_def)
qed

lemma matched_coverage:
  assumes "port_candidate db child leaves ports parent child_port (port, macs) = Some c" and "leaves \<noteq> []"
  shows "sc_confidence c \<in> {80..100}"
  unfolding port_candidate_fields(7) [OF assms(1)]
  by (rule percent_bounds) (use port_candidate_fields(6) [OF assms(1)] assms(2) in \<open>simp_all add: true_divide_def float_of_le_one divide_le_eq_1\<close>)

lemma subtree_candidate_origin:
  assumes "c \<in> set (fdb_subtree_candidates db identities links)"
  obtains child where "child \<in> set identities"
    "c \<in> set (child_candidates db (sort_key si_id identities) (known_backbone_ports links) child)"
  using assms by (auto simp: fdb_subtree_candidates_def Let_def dest!: in_prefer_seen)

lemma subtree_candidate_bounds:
  assumes "c \<in> set (fdb_subtree_candidates db identities links)"
  shows "sc_confidence c \<in> {80..100} \<and> sc_parent c \<noteq> sc_child c"
  using assms
proof (rule subtree_candidate_origin)
  fix child assume "c \<in> set (child_candidates db (sort_key si_id identities) (known_backbone_ports links) child)"
  then show ?thesis
  proof (rule child_candidatesD)
    fix leaves ports i port macs
    assume pc: "port_candidate db child leaves ports (sc_parent c) (reverse_port ports (leaf_management_macs i)) (port, macs) = Some c"
      and "4 \<le> length leaves" and neq: "sc_parent c \<noteq> si_id child"
    then have "leaves \<noteq> []" by auto
    with matched_coverage [OF pc] port_candidate_fields(2) [OF pc] neq show ?thesis by simp
  qed
qed

text \<open>C27: A switch is proposed as the child of another only on evidence. Both are known and different; the addresses
  counted are exactly those the child has learned away from its known uplinks and that belong to no switch, at
  least four; the ones matched are exactly those the parent's port has learned too; they are at least four
  fifths of them, however floating-point division rounds, and the confidence lies between 80 and 100.\<close>

theorem fdb_subtree_candidates_sound:
  assumes "c \<in> set (fdb_subtree_candidates db identities links)" and "sc_leaf_count c \<le> 2 ^ 53"
  shows "sc_parent c \<noteq> sc_child c \<and> {sc_parent c, sc_child c} \<subseteq> si_id ` set identities
    \<and> sc_leaf_count c = card {mac. leaf_of db identities links (sc_child c) mac} \<and> 4 \<le> sc_leaf_count c
    \<and> sc_matched c = card {mac. leaf_of db identities links (sc_child c) mac \<and> learned_on db (sc_parent c) (sc_parent_port c) mac}
    \<and> 4 * sc_leaf_count c \<le> 5 * sc_matched c \<and> sc_confidence c \<in> {80..100}"
proof -
  let ?ids = "sort_key si_id identities"
  have leaf_ids: "leaf_of db ?ids links = leaf_of db identities links" by (intro ext) (simp add: leaf_of_def)
  obtain child where child: "child \<in> set identities" and "c \<in> set (child_candidates db ?ids (known_backbone_ports links) child)"
    using assms(1) by (rule subtree_candidate_origin)
  from this(2) show ?thesis
  proof (rule child_candidatesD)
    fix leaves ports i port macs
    assume pc: "port_candidate db child leaves ports (sc_parent c) (reverse_port ports (leaf_management_macs i)) (port, macs) = Some c"
      and d: "distinct leaves" and leaf: "\<And>mac. mac \<in> set leaves \<longleftrightarrow> leaf_of db ?ids links (si_id child) mac" and long: "4 \<le> length leaves"
      and i: "identity_by_source ?ids (sc_parent c) = Some i" and neq: "sc_parent c \<noteq> si_id child"
      and macs: "\<And>mac. mac \<in> set macs \<longleftrightarrow> learned_on db (sc_parent c) port mac"
    let ?matched = "filter (\<lambda>m. m \<in> set macs) leaves"
    note f = port_candidate_fields(2-5) [OF pc] and cov = port_candidate_fields(6) [OF pc]
    have le: "length ?matched \<le> length leaves" by simp
    have "length leaves = card {mac. leaf_of db identities links (si_id child) mac}"
      using distinct_card [OF d] leaf [unfolded leaf_ids, symmetric] by simp
    moreover have "length ?matched = card {mac. leaf_of db identities links (si_id child) mac \<and> learned_on db (sc_parent c) port mac}"
      using distinct_card [OF distinct_filter [OF d], of "\<lambda>m. m \<in> set macs"] by (simp add: leaf macs leaf_ids conj_commute)
    moreover have "4 * length leaves \<le> 5 * length ?matched"
      using cov coverage_test_exact [OF _ _ le] long assms(2) f(3) by (cases "leaves = []") simp_all
    moreover have "sc_confidence c \<in> {80..100}" using subtree_candidate_bounds [OF assms(1)] ..
    moreover have "sc_parent c \<in> si_id ` set identities" 
      using i find_SomeD [of "\<lambda>i. si_id i = sc_parent c" "rev ?ids" i] by (simp add: identity_by_source_def image_iff) metis
    ultimately show ?thesis using f child neq long by (intro conjI) simp_all
  qed
qed

section \<open>Winners\<close>

lemma unique_best_filter:
  "c \<in> set (unique_best cs) \<longleftrightarrow> filter (\<lambda>x. candidate_rank x = Max (set (map candidate_rank cs))) cs = [c]"
  unfolding unique_best_def by (auto split: list.splits)

lemma unique_best_in: "c \<in> set (unique_best cs) \<Longrightarrow> c \<in> set cs"
  unfolding unique_best_filter by (metis filter_is_subset list.set_intros(1) subsetD)

lemma filter_eq_single:
  "distinct xs \<Longrightarrow> filter P xs = [c] \<longleftrightarrow> c \<in> set xs \<and> P c \<and> (\<forall>d \<in> set xs. P d \<longrightarrow> d = c)"
proof
  assume "distinct xs" and c: "c \<in> set xs \<and> P c \<and> (\<forall>d \<in> set xs. P d \<longrightarrow> d = c)"
  then have "distinct (filter P xs)" "set (filter P xs) = {c}" by auto
  then have "length (filter P xs) = 1" using distinct_card [of "filter P xs"] by simp
  with \<open>set (filter P xs) = {c}\<close> show "filter P xs = [c]" by (cases "filter P xs") simp_all
next
  assume "filter P xs = [c]"
  then have "set (filter P xs) = {c}" by simp
  then show "c \<in> set xs \<and> P c \<and> (\<forall>d \<in> set xs. P d \<longrightarrow> d = c)" by auto
qed

lemma strict_maximum:
  fixes r :: "'a \<Rightarrow> 'b :: linorder"
  assumes "finite A" and "c \<in> A"
  shows "r c = Max (r ` A) \<and> (\<forall>d \<in> A. r d = Max (r ` A) \<longrightarrow> d = c) \<longleftrightarrow> (\<forall>d \<in> A - {c}. r d < r c)" (is "?max \<longleftrightarrow> ?strict")
proof
  assume max: ?max
  show ?strict
  proof
    fix d assume d: "d \<in> A - {c}"
    then have "r d \<le> r c" using max Max_ge [of "r ` A" "r d"] assms(1) by simp
    moreover have "r d \<noteq> r c" using d max by auto
    ultimately show "r d < r c" by simp
  qed
next
  assume strict: ?strict
  then have "\<forall>d \<in> A. r d \<le> r c" by (metis DiffI less_imp_le order_refl singletonD)
  then have "Max (r ` A) = r c" using assms by (intro Max_eqI) auto
  moreover have "\<forall>d \<in> A. r d = r c \<longrightarrow> d = c" using strict by (metis DiffI less_irrefl singletonD)
  ultimately show ?max by simp
qed

lemma in_unique_best:
  assumes "distinct cs"
  shows "c \<in> set (unique_best cs) \<longleftrightarrow> c \<in> set cs \<and> (\<forall>d \<in> set cs - {c}. candidate_rank d < candidate_rank c)"
  unfolding unique_best_filter filter_eq_single [OF assms] set_map
  by (rule conj_cong [OF refl]) (rule strict_maximum [OF finite_set])

lemma in_select:
  "c \<in> set (select_fdb_subtree_link_candidates cs links)
    \<longleftrightarrow> c \<in> set (unique_best (filter (\<lambda>d. sc_child d = sc_child c) (eligible_candidates links cs)))"
  (is "_ \<longleftrightarrow> c \<in> set (unique_best (?same (sc_child c)))")
proof -
  have child: "c \<in> set (unique_best (?same k)) \<Longrightarrow> sc_child c = k \<and> c \<in> set (eligible_candidates links cs)" for k
    by (drule unique_best_in) simp
  have "c \<in> set (select_fdb_subtree_link_candidates cs links)
      \<longleftrightarrow> (\<exists>k \<in> sc_child ` set (eligible_candidates links cs). c \<in> set (unique_best (?same k)))"
    by (simp add: select_fdb_subtree_link_candidates_def Let_def)
  also have "\<dots> \<longleftrightarrow> c \<in> set (unique_best (?same (sc_child c)))" 
    by (rule iffI) (elim bexE, frule child, simp, frule child, rule bexI [of _ "sc_child c"], simp_all)
  finally show ?thesis .
qed

text \<open>C28: At most one parent is chosen for a child, and never against stronger evidence: a candidate becomes a link
  exactly if its port towards the parent is known, no link that is documented, announced or seen from both sides
  holds one of its two ports for another switch, and every other such candidate of the same child ranks strictly
  below it.\<close>

theorem select_candidates_exact:
  assumes "distinct cs"
  shows "c \<in> set (select_fdb_subtree_link_candidates cs links) \<longleftrightarrow>
    c \<in> set cs \<and> sc_child_port c \<noteq> [] \<and> \<not> contradicts_stronger_link links c
    \<and> (\<forall>d \<in> set cs - {c}. sc_child d = sc_child c \<longrightarrow> sc_child_port d = [] \<or> contradicts_stronger_link links d
        \<or> candidate_rank d < candidate_rank c)"
proof -
  have "distinct (filter (\<lambda>d. sc_child d = sc_child c) (eligible_candidates links cs))"
    using assms by (simp add: eligible_candidates_def)
  from in_unique_best [OF this, of c] show ?thesis unfolding in_select by (auto simp: eligible_candidates_def)
qed

lemma winners_per_child:
  assumes "c \<in> set (select_fdb_subtree_link_candidates cs links)" and "d \<in> set (select_fdb_subtree_link_candidates cs links)"
    and "sc_child c = sc_child d"
  shows "c = d"
  using assms unfolding in_select unique_best_filter by simp

lemma winners_eligible:
  "c \<in> set (select_fdb_subtree_link_candidates cs links) \<Longrightarrow> c \<in> set (eligible_candidates links cs)"
  unfolding in_select by (drule unique_best_in) simp

lemma distinct_concat_by:
  assumes "distinct ks" and "\<And>k. k \<in> set ks \<Longrightarrow> distinct (h k)" and "\<And>k x. x \<in> set (h k) \<Longrightarrow> g x = k"
  shows "distinct (concat (map h ks))"
  using assms
proof (induction ks)
  case (Cons k ks)
  have "set (h k) \<inter> (\<Union>j \<in> set ks. set (h j)) = {}"
  proof (rule equals0I, elim IntE UN_E)
    fix x j assume "x \<in> set (h k)" and "j \<in> set ks" and "x \<in> set (h j)"
    then show False using Cons.prems(1) Cons.prems(3) [of x k] Cons.prems(3) [of x j] by simp
  qed
  then show ?case using Cons by simp
qed simp

lemma distinct_winners: "distinct (select_fdb_subtree_link_candidates cs links)"
proof -
  have once: "distinct (unique_best xs)" for xs by (simp add: unique_best_def split: list.split)
  have child: "sc_child c = k" if "c \<in> set (unique_best (filter (\<lambda>d. sc_child d = k) xs))" for c k xs
    using unique_best_in [OF that] by simp
  have "distinct (concat (map (\<lambda>k. unique_best (filter (\<lambda>d. sc_child d = k) xs)) (sort (remdups (map sc_child xs)))))" for xs
    by (rule distinct_concat_by [OF _ once child]) simp
  then show ?thesis unfolding select_fdb_subtree_link_candidates_def Let_def distinct_sort .
qed

text \<open>The keys of the winners differ, because their children do: sorting them is determined by their set.\<close>

lemma select_from_winners:
  defines "W cs links \<equiv> select_fdb_subtree_link_candidates cs links"
  shows "W (W cs links) links = W cs links"
proof -
  let ?W = "W cs links"
  let ?key = "\<lambda>c. (sc_parent c, sc_parent_port c, sc_child c, sc_child_port c)"
  have elig: "eligible_candidates links ?W = ?W"
    using winners_eligible [of _ cs links] by (simp add: eligible_candidates_def W_def filter_id_conv)
  have "unique_best (filter (\<lambda>d. sc_child d = sc_child c) ?W) = [c]" if "c \<in> set ?W" for c
  proof -
    have "filter (\<lambda>d. sc_child d = sc_child c) ?W = [c]"
      using that winners_per_child [of _ cs links c] distinct_winners [of cs links]
      by (subst filter_eq_single) (simp_all add: W_def)
    then show ?thesis by (simp add: unique_best_def)
  qed
  then have "c \<in> set (W ?W links) \<longleftrightarrow> c \<in> set ?W" for c
    using in_select [of c ?W links] winners_eligible [of c ?W links] unfolding W_def [symmetric] elig by (cases "c \<in> set ?W") auto
  then have mem: "set (W ?W links) = set ?W" by (intro set_eqI)
  have "inj_on ?key (set ?W)"
    using winners_per_child [of _ cs links] by (intro inj_onI) (simp add: W_def)
  moreover have "mset (W ?W links) = mset ?W"
    using mem distinct_winners by (simp add: set_eq_iff_mset_eq_distinct W_def)
  moreover have "sorted (map ?key ?W)" by (simp add: W_def select_fdb_subtree_link_candidates_def Let_def)
  ultimately have "sort_key ?key (W ?W links) = ?W" using mem by (intro sort_key_inj_key_eq) simp_all
  moreover have "sort_key ?key (W ?W links) = W ?W links"
    by (rule sort_key_id_if_sorted) (simp add: W_def select_fdb_subtree_link_candidates_def Let_def)
  ultimately show ?thesis by simp
qed

section \<open>An example\<close>

definition fdemo_row :: "int \<Rightarrow> string \<Rightarrow> string \<Rightarrow> fdb_row" where
  "fdemo_row source mac port = \<lparr>fd_source = source, fd_vlan_key = ''1'', fd_vlan_id = Some 1, fd_mac = mac, fd_port_key = port,
     fd_status = ''learned'', fd_last_seen_at = ''T1'', fd_run_id = 1\<rparr>"

definition fdemo_db :: corr_db where
  "fdemo_db = \<lparr>k_hosts = [], k_nics = [], k_ip_seen = [], k_host_seen = [], k_sources = [], k_devices = [], k_runs = [], k_ports = [],
     k_fdb = [fdemo_row 1 ''02:00:00:00:00:01'' ''p1'',
       fdemo_row 1 ''02:00:00:00:00:02'' ''p1'',
       fdemo_row 1 ''02:00:00:00:00:03'' ''p1'',
       fdemo_row 1 ''02:00:00:00:00:04'' ''p1'',
       fdemo_row 1 ''02:00:00:00:00:0B'' ''p1'',
       fdemo_row 2 ''02:00:00:00:00:01'' ''c1'',
       fdemo_row 2 ''02:00:00:00:00:02'' ''c1'',
       fdemo_row 2 ''02:00:00:00:00:03'' ''c1'',
       fdemo_row 2 ''02:00:00:00:00:04'' ''c1'',
       fdemo_row 2 ''02:00:00:00:00:0A'' ''u''],
     k_lldp = [], k_heads = [], k_intent_assets = [], k_intent_links = [], k_links = [], k_link_events = [], k_roles = [],
     k_candidates = [], k_resolutions = [], k_events = [], k_findings = [], k_correlations = []\<rparr>"

definition fdemo_identity :: "int \<Rightarrow> string \<Rightarrow> string \<Rightarrow> source_identity" where
  "fdemo_identity i role mac = \<lparr>si_id = i, si_name = ''sw'', si_driver = ''snmp_switch'', si_role = role, si_asset = None, si_asset_key = [],
     si_context = [], si_stable_id = [], si_macs = [mac]\<rparr>"

definition fdemo_identities :: "source_identity list" where
  "fdemo_identities = [fdemo_identity 1 ''core'' ''02:00:00:00:00:0A'', fdemo_identity 2 ''access'' ''02:00:00:00:00:0B'']"

definition fdemo_candidate :: subtree_candidate where
  "fdemo_candidate = \<lparr>sc_parent = 1, sc_parent_port = ''p1'', sc_child = 2, sc_child_source = ''sw'', sc_child_port = ''u'',
     sc_leaf_count = 4, sc_matched = 4, sc_coverage = 1, sc_seen = True, sc_confidence = 100, sc_observed_at = ''T1''\<rparr>"



lemma fdemo_sorted: "sort_key (\<lambda>f. (fd_source f, fd_port_key f, fd_mac f)) (k_fdb fdemo_db) = k_fdb fdemo_db"
  by (rule sort_key_id_if_sorted) code_simp

lemma fdemo_valid:
  "valid_leaf_mac (Some ''02:00:00:00:00:01'') = Some ''02:00:00:00:00:01''"
  "valid_leaf_mac (Some ''02:00:00:00:00:02'') = Some ''02:00:00:00:00:02''"
  "valid_leaf_mac (Some ''02:00:00:00:00:03'') = Some ''02:00:00:00:00:03''"
  "valid_leaf_mac (Some ''02:00:00:00:00:04'') = Some ''02:00:00:00:00:04''"
  "valid_leaf_mac (Some ''02:00:00:00:00:0A'') = Some ''02:00:00:00:00:0A''"
  "valid_leaf_mac (Some ''02:00:00:00:00:0B'') = Some ''02:00:00:00:00:0B''"
  by code_simp+

lemma fdemo_rows: "learned_rows valid_leaf_mac fdemo_db = map (\<lambda>f. (f, fd_mac f)) (k_fdb fdemo_db)"
proof -
  have "lower ''learned'' = ''learned''" by code_simp
  then show ?thesis unfolding learned_rows_def fdemo_sorted by (simp add: fdemo_db_def fdemo_row_def fdemo_valid map_filter_simps)
qed

lemma fdemo_macs: "learned_port_macs fdemo_db =
    [(1, [(''p1'', [''02:00:00:00:00:01'', ''02:00:00:00:00:02'', ''02:00:00:00:00:03'', ''02:00:00:00:00:04'', ''02:00:00:00:00:0B''])]), (2, [(''c1'', [''02:00:00:00:00:01'', ''02:00:00:00:00:02'', ''02:00:00:00:00:03'', ''02:00:00:00:00:04'']), (''u'', [''02:00:00:00:00:0A''])])]"
  unfolding learned_port_macs_def fdemo_rows Let_def by (simp add: macs_on_def fdemo_db_def fdemo_row_def)

lemma fdemo_seen: "port_observed_at fdemo_db 1 ''p1'' = ''T1'' \<and> port_observed_at fdemo_db 2 ''c1'' = ''T1'' \<and> port_observed_at fdemo_db 2 ''u'' = ''T1''"
  unfolding port_observed_at_def fdemo_rows by (simp add: fdemo_db_def fdemo_row_def)

definition fdemo_reverse :: subtree_candidate where
  "fdemo_reverse = \<lparr>sc_parent = 2, sc_parent_port = ''c1'', sc_child = 1, sc_child_source = ''sw'', sc_child_port = ''p1'',
     sc_leaf_count = 4, sc_matched = 4, sc_coverage = 1, sc_seen = False, sc_confidence = 100, sc_observed_at = ''T1''\<rparr>"

lemma fdemo_full: "0 < n \<Longrightarrow> true_divide n n = 1" "percent 1 = 100" "\<not> 1 < MIN_SUBTREE_COVERAGE" "true_divide 0 n < MIN_SUBTREE_COVERAGE"
  subgoal by (simp add: true_divide_def)
  subgoal by code_simp
  subgoal by (simp add: min_coverage)
  subgoal using float_of_small [of 0] by (simp add: true_divide_def min_coverage)
  done

lemmas fdemo_simps = fdemo_identities_def fdemo_identity_def ports_of_def child_leaf_macs_def leaf_management_macs_def fdemo_valid map_filter_simps
  identity_by_source_def MIN_SUBTREE_LEAF_MACS_def port_candidate_def Let_def fdemo_full reverse_port_def fdemo_seen

lemma fdemo_child:
  "child_candidates fdemo_db fdemo_identities {} (fdemo_identity 2 ''access'' ''02:00:00:00:00:0B'') = [fdemo_candidate]"
  unfolding child_candidates_def fdemo_macs Let_def by (simp add: fdemo_simps fdemo_candidate_def)

lemma fdemo_child_reverse:
  "child_candidates fdemo_db fdemo_identities {} (fdemo_identity 1 ''core'' ''02:00:00:00:00:0A'') = [fdemo_reverse]"
  unfolding child_candidates_def fdemo_macs Let_def by (simp add: fdemo_simps fdemo_reverse_def)

lemma fdemo_candidates: "fdb_subtree_candidates fdemo_db fdemo_identities [] = [fdemo_reverse, fdemo_candidate]"
proof -
  have none: "known_backbone_ports [] = {}" by (simp add: known_backbone_ports_def)
  have ids: "sort_key si_id fdemo_identities = fdemo_identities" by (simp add: fdemo_identities_def fdemo_identity_def)
  have "concat (map (child_candidates fdemo_db fdemo_identities {}) fdemo_identities) = [fdemo_reverse, fdemo_candidate]"
    by (subst (2) fdemo_identities_def) (simp add: fdemo_child fdemo_child_reverse)
  then show ?thesis unfolding fdb_subtree_candidates_def Let_def none ids
    by (simp add: prefer_seen_def fdemo_reverse_def fdemo_candidate_def)
qed

theorem fdb_subtree_candidates_sound_witness:
  "card {mac. leaf_of fdemo_db fdemo_identities [] 2 mac} = 4"
  using fdb_subtree_candidates_sound [of fdemo_candidate fdemo_db fdemo_identities "[]"]
  by (simp add: fdemo_candidates) (simp add: fdemo_candidate_def)

theorem select_candidates_exact_witness:
  "fdemo_candidate \<in> set (select_fdb_subtree_link_candidates (fdb_subtree_candidates fdemo_db fdemo_identities []) [])"
proof -
  have d: "distinct [fdemo_reverse, fdemo_candidate]" by (simp add: fdemo_reverse_def fdemo_candidate_def)
  have "\<not> contradicts_stronger_link [] c" for c by (simp add: contradicts_stronger_link_def occupied_by_def)
  then show ?thesis unfolding fdemo_candidates select_candidates_exact [OF d]
    by (auto simp: fdemo_reverse_def fdemo_candidate_def)
qed

end
