(* ===== verification/Port_Roles.thy ===== *)
theory Port_Roles
  imports Fdb_Correctness
begin

text \<open>
  Roles of switch ports (\<open>src/netctl/port_roles.py\<close>). Links and subtree candidates claim a role for a port with a priority;
  the strongest claim wins, claims of equal priority that differ make the port a conflict, and a port without claims is
  judged by the number of addresses learned on it. The dictionary of assignments is a map, the set of conflicts a set.
\<close>

section \<open>Claims\<close>

definition ALLOWED_PORT_ROLES :: "string list" where
  "ALLOWED_PORT_ROLES = [''endpoint'', ''backbone'', ''downstream_bridge'', ''shared_edge'', ''unknown'']"

definition MAX_SUPPRESSED_SUBTREE_EVIDENCE :: nat where
  "MAX_SUPPRESSED_SUBTREE_EVIDENCE = 8"

definition TOPOLOGY_ROLE_RANK :: "string \<Rightarrow> int option" where
  "TOPOLOGY_ROLE_RANK = map_of [(''core'', 0), (''distribution'', 1), (''access'', 2), (''edge'', 3)]"

record port_role =
  pr_source :: int
  pr_port_key :: string
  pr_role :: string
  pr_confidence :: int
  pr_mac_count :: nat
  pr_known_assets :: nat
  pr_vendors :: nat
  pr_child :: "int option"
  pr_evidence :: "json list"
  pr_observed_at :: string

record assignment =
  as_priority :: int
  as_role :: string
  as_confidence :: int
  as_child :: "int option"
  as_evidence :: json

definition link_port_keys :: "switch_link \<Rightarrow> (int \<times> string) list" where
  "link_port_keys l = sort (remdups (filter (\<lambda>(source, port). port \<noteq> [])
     ([(ln_a l, ln_port_a l), (ln_b l, ln_port_b l)]
      @ concat (map (\<lambda>e. [(le_source (ev_a e), le_port (ev_a e)), (le_source (ev_b e), le_port (ev_b e))]) (ln_evidence l)))))"

definition source_rank :: "source_identity list \<Rightarrow> int \<Rightarrow> int option" where
  "source_rank identities source = TOPOLOGY_ROLE_RANK (case identity_by_source identities source of None \<Rightarrow> [] | Some i \<Rightarrow> si_role i)"

definition lower_of :: "int \<Rightarrow> int \<Rightarrow> int option \<Rightarrow> int option \<Rightarrow> int option" where
  "lower_of s t x y = (case (x, y) of (Some m, Some n) \<Rightarrow> if m = n then None else if m < n then Some s else Some t | _ \<Rightarrow> None)"

definition parent_source :: "(int \<times> int) list \<Rightarrow> source_identity list \<Rightarrow> int \<Rightarrow> int \<Rightarrow> int option" where
  "parent_source depths identities s t = (case lower_of s t (map_of depths s) (map_of depths t) of
     Some p \<Rightarrow> Some p | None \<Rightarrow> lower_of s t (source_rank identities s) (source_rank identities t))"

text \<open>The claim on one end of a link, and the claims on the ends whose port is known.\<close>

definition peer_evidence :: "string \<Rightarrow> int \<Rightarrow> json" where
  "peer_evidence ty peer = JObj [(''type'', JStr ty), (''peer_source_id'', JInt peer)]"

definition backbone_claim :: "int \<Rightarrow> int \<Rightarrow> string \<Rightarrow> int \<Rightarrow> int \<Rightarrow> assignment" where
  "backbone_claim priority confidence ty source peer = \<lparr>as_priority = priority, as_role = ''backbone'', as_confidence = confidence,
     as_child = None, as_evidence = peer_evidence ty peer\<rparr>"

definition lldp_claim :: "int option \<Rightarrow> int \<Rightarrow> int \<Rightarrow> assignment" where
  "lldp_claim parent source peer =
     (if Some source = parent
      then \<lparr>as_priority = 250, as_role = ''downstream_bridge'', as_confidence = 95, as_child = Some peer,
        as_evidence = peer_evidence ''lldp_child_switch'' peer\<rparr>
      else \<lparr>as_priority = 250, as_role = ''backbone'', as_confidence = 95, as_child = None, as_evidence = peer_evidence ''lldp_backbone'' peer\<rparr>)"

definition end_claims :: "switch_link \<Rightarrow> (int \<Rightarrow> int \<Rightarrow> assignment) \<Rightarrow> ((int \<times> string) \<times> assignment) list" where
  "end_claims l mk = (if ln_port_a l \<noteq> [] then [((ln_a l, ln_port_a l), mk (ln_a l) (ln_b l))] else [])
     @ (if ln_port_b l \<noteq> [] then [((ln_b l, ln_port_b l), mk (ln_b l) (ln_a l))] else [])"

definition link_claims ::
    "(int \<times> int) list \<Rightarrow> source_identity list \<Rightarrow> switch_link \<Rightarrow> ((int \<times> string) \<times> assignment) list" where
  "link_claims depths identities l = (let types = evidence_types (ln_evidence l) in
     if ln_state l = ''confirmed'' then end_claims l (backbone_claim 300 100 ''confirmed_topology'')
     else if ''intent'' \<in> types then end_claims l (backbone_claim 275 95 ''intent_topology'')
     else if ''lldp_chassis_mac'' \<in> types then end_claims l (lldp_claim (parent_source depths identities (ln_a l) (ln_b l)))
     else if two_sided l then end_claims l (backbone_claim 225 95 ''bidirectional_management_fdb'')
     else if ''fdb_subtree'' \<in> types then []
     else if ln_state l = ''inferred'' then
       (if ''fdb_management_mac'' \<in> types then end_claims l (backbone_claim 125 70 ''one_sided_management_fdb'')
        else end_claims l (backbone_claim 200 95 ''non_conflicting_topology''))
     else [])"

type_synonym assignments = "(int \<times> string \<rightharpoonup> assignment) \<times> (int \<times> string) set"

definition claim_value :: "assignment \<Rightarrow> string \<times> int \<times> int option" where
  "claim_value a = (as_role a, as_confidence a, as_child a)"

fun assign :: "(int \<times> string) \<times> assignment \<Rightarrow> assignments \<Rightarrow> assignments" where
  "assign (key, a) (A, C) = (case A key of
     None \<Rightarrow> (A(key \<mapsto> a), C)
   | Some cur \<Rightarrow> if as_priority a > as_priority cur then (A(key \<mapsto> a), C)
       else if as_priority a = as_priority cur \<and> claim_value a \<noteq> claim_value cur then (A, insert key C)
       else (A, C))"

fun assign_link :: "(int \<times> int) list \<Rightarrow> source_identity list \<Rightarrow> switch_link \<Rightarrow> assignments \<Rightarrow> assignments" where
  "assign_link depths identities l (A, C) =
     (if ln_state l = ''conflicting'' then (A, C \<union> set (link_port_keys l))
      else fold assign (link_claims depths identities l) (A, C))"

definition parent_claim :: "subtree_candidate \<Rightarrow> (int \<times> string) \<times> assignment" where
  "parent_claim c = ((sc_parent c, sc_parent_port c), \<lparr>as_priority = 150, as_role = ''downstream_bridge'',
     as_confidence = sc_confidence c, as_child = Some (sc_child c), as_evidence = subtree_evidence c\<rparr>)"

definition child_claim :: "subtree_candidate \<Rightarrow> (int \<times> string) \<times> assignment" where
  "child_claim c = ((sc_child c, sc_child_port c), \<lparr>as_priority = 150, as_role = ''backbone'', as_confidence = sc_confidence c,
     as_child = None, as_evidence = JObj ([(''type'', JStr ''fdb_subtree_backbone''), (''peer_source_id'', JInt (sc_parent c))] @ subtree_details c)\<rparr>)"

definition by_ports :: "subtree_candidate list \<Rightarrow> subtree_candidate list" where
  "by_ports cs = sort_key (\<lambda>c. (sc_parent c, sc_parent_port c, sc_child c, sc_child_port c)) cs"

definition ordered_links :: "switch_link list \<Rightarrow> switch_link list" where
  "ordered_links links = sort_key (\<lambda>l. (ln_a l, ln_port_a l, ln_b l, ln_port_b l, ln_key l)) links"

definition topology_assignments ::
    "switch_link list \<Rightarrow> (int \<times> int) list \<Rightarrow> source_identity list \<Rightarrow> subtree_candidate list \<Rightarrow> subtree_candidate list \<Rightarrow> assignments" where
  "topology_assignments links depths identities candidates link_candidates =
     fold assign (map child_claim (by_ports link_candidates))
       (fold assign (map parent_claim (by_ports candidates))
         (fold (assign_link depths identities) (ordered_links links) (Map.empty, {})))"

section \<open>Roles\<close>

text \<open>The rule by density: role, confidence and the name of the decision.\<close>

definition density_decision :: "port_mac_summary \<Rightarrow> int \<Rightarrow> string \<times> int \<times> string" where
  "density_decision s threshold =
     (if ps_mac_count s = 1 \<and> \<not> ps_management_seen s then (''endpoint'', 80, ''single_endpoint'')
      else if int (ps_mac_count s) \<ge> threshold then (''shared_edge'', 70, ''mac_density'')
      else if ps_mac_count s \<ge> 4 then (''shared_edge'', 65, ''moderate_mac_density'')
      else if ps_mac_count s \<ge> 2 then (''shared_edge'', 55, ''small_multi_mac'')
      else if ps_management_seen s then (''unknown'', 20, ''switch_management_mac_seen'')
      else (''unknown'', 0, ''no_learned_macs''))"

definition density_role :: "port_mac_summary \<Rightarrow> int \<Rightarrow> port_role" where
  "density_role s threshold = (case density_decision s threshold of (role, confidence, decision) \<Rightarrow>
     \<lparr>pr_source = ps_source s, pr_port_key = ps_port_key s, pr_role = role, pr_confidence = confidence, pr_mac_count = ps_mac_count s,
      pr_known_assets = ps_known_assets s, pr_vendors = ps_vendors s, pr_child = None,
      pr_evidence = [JObj [(''type'', JStr decision), (''mac_count'', JInt (int (ps_mac_count s))),
        (''known_asset_count'', JInt (int (ps_known_assets s))), (''unique_vendor_count'', JInt (int (ps_vendors s))),
        (''access_port_mac_threshold'', JInt threshold), (''switch_management_mac_seen'', JBool (ps_management_seen s))]],
      pr_observed_at = ps_observed_at s\<rparr>)"

definition winner_peer :: "assignment \<Rightarrow> json" where
  "winner_peer a = (case as_child a of Some c \<Rightarrow> if c \<noteq> 0 then JInt c else get (as_evidence a) ''peer_source_id''
     | None \<Rightarrow> get (as_evidence a) ''peer_source_id'')"

definition suppressed_subtree_evidence :: "int \<times> string \<Rightarrow> assignment \<Rightarrow> subtree_candidate list \<Rightarrow> json list" where
  "suppressed_subtree_evidence key a candidates =
     (if as_priority a \<le> 150 then [] else case (winner_peer a, get (as_evidence a) ''type'') of
        (JInt peer, JStr suppressed_by) \<Rightarrow>
          take MAX_SUPPRESSED_SUBTREE_EVIDENCE (map (\<lambda>c. JObj ([(''type'', JStr ''fdb_subtree_suppressed''),
              (''suppressed_by'', JStr suppressed_by)] @ subtree_details c))
            (sort_key (\<lambda>c. (- of_bool (sc_seen c) :: int, - sc_coverage c, sc_child c, sc_child_port c))
              (filter (\<lambda>c. (sc_parent c, sc_parent_port c) = key \<and> sc_child c \<noteq> peer) candidates)))
      | _ \<Rightarrow> [])"

text \<open>\<open>summaries\<close>: every port of the tables, then the ports only links name.\<close>

definition empty_summary :: "string \<Rightarrow> int \<times> string \<Rightarrow> port_mac_summary" where
  "empty_summary observed_at key = \<lparr>ps_source = fst key, ps_port_key = snd key, ps_mac_count = 0, ps_known_assets = 0, ps_vendors = 0,
     ps_management_seen = False, ps_observed_at = observed_at\<rparr>"

definition summary_key :: "port_mac_summary \<Rightarrow> int \<times> string" where
  "summary_key s = (ps_source s, ps_port_key s)"

definition all_summaries :: "corr_db \<Rightarrow> source_identity list \<Rightarrow> switch_link list \<Rightarrow> string \<Rightarrow> port_mac_summary list" where
  "all_summaries db identities links observed_at = (let known = port_mac_summaries db identities in
     sort_key summary_key (known @ map (empty_summary observed_at)
       (filter (\<lambda>k. k \<notin> set (map summary_key known)) (remdups (concat (map link_port_keys links))))))"

definition threshold_of :: "corr_db \<Rightarrow> int \<Rightarrow> int" where
  "threshold_of db source = (case map_of (access_port_mac_thresholds db) source of
     None \<Rightarrow> DEFAULT_ACCESS_PORT_MAC_THRESHOLD | Some n \<Rightarrow> n)"

definition role_of_port ::
    "assignments \<Rightarrow> subtree_candidate list \<Rightarrow> string \<Rightarrow> int \<Rightarrow> port_mac_summary \<Rightarrow> port_role" where
  "role_of_port AC candidates observed_at threshold s =
     (let role = density_role s threshold; key = summary_key s in
      if key \<in> snd AC
      then role\<lparr>pr_role := ''unknown'', pr_confidence := 20, pr_child := None,
        pr_evidence := JObj [(''type'', JStr ''topology_conflict''), (''density_role'', JStr (pr_role role))] # pr_evidence role,
        pr_observed_at := observed_at\<rparr>
      else case fst AC key of
        Some a \<Rightarrow> role\<lparr>pr_role := as_role a, pr_confidence := as_confidence a, pr_child := as_child a,
          pr_evidence := as_evidence a # suppressed_subtree_evidence key a candidates @ pr_evidence role, pr_observed_at := observed_at\<rparr>
      | None \<Rightarrow> role\<lparr>pr_observed_at := observed_at\<rparr>)"

definition infer_port_roles ::
    "corr_db \<Rightarrow> switch_link list \<Rightarrow> source_identity list \<Rightarrow> (int \<times> int) list \<Rightarrow> string
     \<Rightarrow> subtree_candidate list \<Rightarrow> subtree_candidate list \<Rightarrow> port_role list" where
  "infer_port_roles db links identities depths observed_at candidates link_candidates =
     (let AC = topology_assignments links depths identities candidates link_candidates in
      map (\<lambda>s. role_of_port AC candidates observed_at (threshold_of db (ps_source s)) s)
        (all_summaries db identities links observed_at))"

end
