(* ===== verification/Topology_Store.thy ===== *)
theory Topology_Store
  imports Port_Roles
begin

text \<open>
  Storing the topology (\<open>src/netctl/topology_reconcile.py\<close>, \<open>replace_current_port_roles\<close> of \<open>port_roles.py\<close>): the links, the roles
  of the ports, the history of links and the findings about incompatible evidence are computed from the tables and
  replaced in one transaction.

  The tables keep the constraints of \<open>migrations.py\<close>: an insert that breaks a primary key, a uniqueness or a check
  constraint raises. Foreign keys are not modelled; every identifier written comes from a row that exists. A JSON
  column holds the document it was given. The columns of a run that the attachments leave out are left out here too.
\<close>

section \<open>Public form and history of a link\<close>

definition endpoint_public :: "link_endpoint \<Rightarrow> json" where
  "endpoint_public e = JObj [(''source_id'', JInt (le_source e)), (''port_key'', JStr (le_port e))]"

definition evidence_public :: "link_evidence \<Rightarrow> json" where
  "evidence_public e = JObj [(''endpoint_a'', endpoint_public (ev_a e)), (''endpoint_b'', endpoint_public (ev_b e)),
     (''evidence_type'', JStr (ev_type e)), (''confidence'', JInt (ev_confidence e)), (''observed_at'', JStr (ev_observed_at e)),
     (''intent_link_stable_id'', JStr (ev_intent e)), (''details'', ev_details e)]"

definition link_fields :: "switch_link \<Rightarrow> (string \<times> json) list" where
  "link_fields l = [(''link_key'', JStr (ln_key l)), (''source_a_id'', JInt (ln_a l)), (''port_a_key'', JStr (ln_port_a l)),
     (''source_b_id'', JInt (ln_b l)), (''port_b_key'', JStr (ln_port_b l)), (''state'', JStr (ln_state l)),
     (''confidence'', JInt (ln_confidence l)), (''intent_link_stable_id'', JStr (ln_intent l))]"

definition link_public :: "switch_link \<Rightarrow> json" where
  "link_public l = JObj (link_fields l @ [(''observed_at'', JStr (ln_observed_at l)),
     (''evidence'', JList (map evidence_public (ln_evidence l)))])"

definition row_public :: "link_row \<Rightarrow> json" where
  "row_public r = JObj (link_fields (lr_link r) @ [(''evidence'', JList (map evidence_public (ln_evidence (lr_link r))))])"

definition semantic_equal :: "link_row \<Rightarrow> switch_link \<Rightarrow> bool" where
  "semantic_equal before after = py_eq (row_public before)
     (JObj (link_fields after @ [(''evidence'', JList (map evidence_public (ln_evidence after)))]))"

definition link_pair :: "switch_link \<Rightarrow> int \<times> int" where
  "link_pair l = (ln_a l, ln_b l)"

text \<open>\<open>{link.link_key: link for link in links}\<close>: the place of the first, the value of the last.\<close>

definition links_by_key :: "switch_link list \<Rightarrow> switch_link list" where
  "links_by_key links = map (\<lambda>k. last (filter (\<lambda>l. ln_key l = k) links)) (rev (remdups (rev (map ln_key links))))"

text \<open>An event: its type, the link before it and the link after it.\<close>

type_synonym link_change = "string \<times> link_row option \<times> switch_link option"

definition pair_events :: "link_row list \<Rightarrow> switch_link list \<Rightarrow> link_change list" where
  "pair_events previous current = (case (previous, current) of
     ([before], [after]) \<Rightarrow> if ln_key (lr_link before) \<noteq> ln_key after \<or> \<not> semantic_equal before after
       then [(''changed'', Some before, Some after)] else []
   | _ \<Rightarrow> map (\<lambda>b. (''disappeared'', Some b, None)) previous @ map (\<lambda>a. (''appeared'', None, Some a)) current)"

definition link_events :: "link_row list \<Rightarrow> switch_link list \<Rightarrow> link_change list" where
  "link_events old_rows links = (let current = links_by_key links in
     concat (map (\<lambda>pair. pair_events (filter (\<lambda>r. link_pair (lr_link r) = pair) old_rows) (filter (\<lambda>l. link_pair l = pair) current))
       (sort (remdups (map (\<lambda>r. link_pair (lr_link r)) old_rows @ map link_pair current)))))"

section \<open>Replacing the tables\<close>

definition LINK_STATES :: "string list" where
  "LINK_STATES = [''confirmed'', ''inferred'', ''ambiguous'', ''conflicting'']"

definition link_unique :: "switch_link \<Rightarrow> int \<times> string \<times> int \<times> string" where
  "link_unique l = (ln_a l, ln_port_a l, ln_b l, ln_port_b l)"

definition link_row_ok :: "link_row list \<Rightarrow> switch_link \<Rightarrow> bool" where
  "link_row_ok rows l \<longleftrightarrow> ln_key l \<notin> set (map (\<lambda>r. ln_key (lr_link r)) rows) \<and> link_unique l \<notin> set (map (\<lambda>r. link_unique (lr_link r)) rows)
     \<and> ln_state l \<in> set LINK_STATES \<and> 0 \<le> ln_confidence l \<and> ln_confidence l \<le> 100 \<and> ln_a l < ln_b l"

definition insert_link :: "link_row list \<Rightarrow> string \<Rightarrow> int \<Rightarrow> unit \<Rightarrow> switch_link \<Rightarrow> (corr_db, unit) prog" where
  "insert_link old_rows observed_at run u l = bind (gets k_links) (\<lambda>rows.
     if \<not> link_row_ok rows l then raise IntegrityError
     else modify (k_links_update (\<lambda>xs. xs @ [\<lparr>lr_link = l,
       lr_first_seen_at = (case find (\<lambda>r. ln_key (lr_link r) = ln_key l) old_rows of None \<Rightarrow> observed_at | Some r \<Rightarrow> lr_first_seen_at r),
       lr_last_seen_at = observed_at, lr_run = run\<rparr>])))"

definition change_key :: "link_change \<Rightarrow> string" where
  "change_key c = (case c of (_, _, Some after) \<Rightarrow> ln_key after | (_, Some before, None) \<Rightarrow> ln_key (lr_link before) | _ \<Rightarrow> [])"

definition event_row :: "string \<Rightarrow> int \<Rightarrow> link_change \<Rightarrow> link_event" where
  "event_row observed_at run c = (case c of (ty, before, after) \<Rightarrow>
     \<lparr>lv_key = change_key c, lv_type = ty, lv_before = (case before of None \<Rightarrow> JObj [] | Some b \<Rightarrow> row_public b),
      lv_after = (case after of None \<Rightarrow> JObj [] | Some a \<Rightarrow> link_public a), lv_observed_at = observed_at, lv_run = run\<rparr>)"

definition replace_current_links :: "switch_link list \<Rightarrow> int \<Rightarrow> string \<Rightarrow> (corr_db, int) prog" where
  "replace_current_links links run observed_at = bind (gets k_links) (\<lambda>rows.
     let old_rows = sort_key (\<lambda>r. ln_key (lr_link r)) rows; events = link_events old_rows links in
     seq (modify (k_links_update (\<lambda>_. [])))
     (seq (foldM (insert_link old_rows observed_at run) () links)
     (seq (modify (k_link_events_update (\<lambda>es. es @ map (event_row observed_at run) events)))
     (ret (int (length events))))))"

definition port_role_ok :: "port_role_row list \<Rightarrow> port_role \<Rightarrow> bool" where
  "port_role_ok rows r \<longleftrightarrow> (pr_source r, pr_port_key r) \<notin> set (map (\<lambda>q. (pq_source q, pq_port_key q)) rows)
     \<and> pr_role r \<in> set ALLOWED_PORT_ROLES \<and> 0 \<le> pr_confidence r \<and> pr_confidence r \<le> 100 \<and> pr_child r \<noteq> Some (pr_source r)"

definition stored_role :: "int \<Rightarrow> port_role \<Rightarrow> port_role_row" where
  "stored_role run r = \<lparr>pq_source = pr_source r, pq_port_key = pr_port_key r, pq_role = pr_role r, pq_confidence = pr_confidence r,
     pq_mac_count = int (pr_mac_count r), pq_known_asset_count = int (pr_known_assets r), pq_unique_vendor_count = int (pr_vendors r),
     pq_child = pr_child r, pq_evidence = Doc (JList (pr_evidence r)), pq_observed_at = pr_observed_at r, pq_run = run\<rparr>"

definition insert_role :: "int \<Rightarrow> unit \<Rightarrow> port_role \<Rightarrow> (corr_db, unit) prog" where
  "insert_role run u r = bind (gets k_roles) (\<lambda>rows. if \<not> port_role_ok rows r then raise IntegrityError
     else modify (k_roles_update (\<lambda>xs. xs @ [stored_role run r])))"

definition replace_current_port_roles :: "port_role list \<Rightarrow> int \<Rightarrow> (corr_db, int) prog" where
  "replace_current_port_roles roles run = seq (modify (k_roles_update (\<lambda>_. [])))
     (seq (foldM (insert_role run) () roles) (ret (int (length roles))))"

definition link_finding :: "string \<Rightarrow> switch_link \<Rightarrow> topology_finding" where
  "link_finding observed_at l = \<lparr>tf_key = ''incompatible-link:'' @ int_text (ln_a l) @ '':'' @ int_text (ln_b l),
     tf_type = ''incompatible_link_evidence'', tf_severity = ''error'', tf_asset = None, tf_source = Some (ln_a l),
     tf_seen_at = observed_at, tf_details = link_public l\<rparr>"

definition replace_findings :: "switch_link list \<Rightarrow> string \<Rightarrow> (corr_db, int) prog" where
  "replace_findings links observed_at = (let conflicts = filter (\<lambda>l. ln_state l = ''conflicting'') links in
     seq (modify (k_findings_update (filter (\<lambda>f. tf_type f \<noteq> ''incompatible_link_evidence''))))
     (seq (foldM (\<lambda>_ l. insert_finding (link_finding observed_at l)) () conflicts)
     (ret (int (length conflicts)))))"

section \<open>Reconciliation\<close>

text \<open>What \<open>reconcile_topology\<close> computes before it opens the transaction: the links, the depths and the roles.\<close>

definition stronger_links :: "pylib \<Rightarrow> (string \<Rightarrow> json \<Rightarrow> json option) \<Rightarrow> corr_db \<Rightarrow> string \<Rightarrow> switch_link list" where
  "stronger_links L nz db observed_at =
     aggregate_link_evidence L observed_at (collect_link_evidence L db (list_source_identities nz db))"

definition inferred_candidates :: "pylib \<Rightarrow> (string \<Rightarrow> json \<Rightarrow> json option) \<Rightarrow> corr_db \<Rightarrow> string \<Rightarrow> subtree_candidate list" where
  "inferred_candidates L nz db observed_at =
     fdb_subtree_candidates db (list_source_identities nz db) (stronger_links L nz db observed_at)"

definition inferred_link_candidates :: "pylib \<Rightarrow> (string \<Rightarrow> json \<Rightarrow> json option) \<Rightarrow> corr_db \<Rightarrow> string \<Rightarrow> subtree_candidate list" where
  "inferred_link_candidates L nz db observed_at =
     select_fdb_subtree_link_candidates (inferred_candidates L nz db observed_at) (stronger_links L nz db observed_at)"

definition inferred_links :: "pylib \<Rightarrow> (string \<Rightarrow> json \<Rightarrow> json option) \<Rightarrow> corr_db \<Rightarrow> string \<Rightarrow> switch_link list" where
  "inferred_links L nz db observed_at = aggregate_link_evidence L observed_at
     (collect_link_evidence L db (list_source_identities nz db)
      @ fdb_subtree_link_evidence (inferred_link_candidates L nz db observed_at) (stronger_links L nz db observed_at))"

definition inferred_depths :: "pylib \<Rightarrow> (string \<Rightarrow> json \<Rightarrow> json option) \<Rightarrow> corr_db \<Rightarrow> string \<Rightarrow> (int \<times> int) list" where
  "inferred_depths L nz db observed_at = topology_depths (inferred_links L nz db observed_at)
     (map si_id (filter (\<lambda>i. si_role i = ''core'') (list_source_identities nz db)))"

definition inferred_roles :: "pylib \<Rightarrow> (string \<Rightarrow> json \<Rightarrow> json option) \<Rightarrow> corr_db \<Rightarrow> string \<Rightarrow> port_role list" where
  "inferred_roles L nz db observed_at = infer_port_roles db (inferred_links L nz db observed_at) (list_source_identities nz db)
     (inferred_depths L nz db observed_at) observed_at (inferred_candidates L nz db observed_at) (inferred_link_candidates L nz db observed_at)"

definition store_topology ::
    "(corr_db \<Rightarrow> int res) \<Rightarrow> switch_link list \<Rightarrow> port_role list \<Rightarrow> string \<Rightarrow> int \<Rightarrow> (corr_db, json) prog" where
  "store_topology fingerprints links roles observed_at run =
     bind (replace_current_links links run observed_at) (\<lambda>event_count.
     bind (replace_current_port_roles roles run) (\<lambda>port_role_count.
     bind (replace_findings links observed_at) (\<lambda>finding_count.
     bind (gets fingerprints) (\<lambda>fp. bind (lift fp) (\<lambda>n.
      let counts = JObj (status_counts LINK_STATES (map ln_state links)
        @ [(''links'', JInt (int (length links))), (''port_roles'', JInt port_role_count), (''events'', JInt event_count),
           (''findings'', JInt finding_count), (''fingerprints'', JInt n)]) in
      seq (finish_run run (\<lambda>r. r\<lparr>cr_status := ''success'', cr_finished_at := Some observed_at, cr_counts := counts\<rparr>)) (ret counts))))))"

definition reconcile_topology ::
    "pylib \<Rightarrow> (corr_db \<Rightarrow> int res) \<Rightarrow> (string \<Rightarrow> json \<Rightarrow> json option) \<Rightarrow> string \<Rightarrow> (corr_db, int \<times> json \<times> (int \<times> int) list) prog" where
  "reconcile_topology L fingerprints nz observed_at = bind (start_run ''topology'' observed_at) (\<lambda>run.
     transactional run observed_at
       (bind (gets (\<lambda>db. db)) (\<lambda>db.
        bind (store_topology fingerprints (inferred_links L nz db observed_at) (inferred_roles L nz db observed_at) observed_at run) (\<lambda>counts.
        ret (run, counts, inferred_depths L nz db observed_at)))))"

end
