(* ===== verification/Role_Correctness.thy ===== *)
theory Role_Correctness
  imports Topology_Store
begin

text \<open>
  Correctness of port roles: every port has exactly one role, and the role is the strongest claim on the port, or a
  conflict, or what the number of learned addresses suggests.
\<close>

section \<open>Assigning claims\<close>

text \<open>The claims in the order in which they are made, and the ports of conflicting links.\<close>

definition topology_claims ::
    "switch_link list \<Rightarrow> (int \<times> int) list \<Rightarrow> source_identity list \<Rightarrow> subtree_candidate list \<Rightarrow> subtree_candidate list
     \<Rightarrow> ((int \<times> string) \<times> assignment) list" where
  "topology_claims links depths identities candidates link_candidates =
     concat (map (link_claims depths identities) (filter (\<lambda>l. ln_state l \<noteq> ''conflicting'') (ordered_links links)))
     @ map parent_claim (by_ports candidates) @ map child_claim (by_ports link_candidates)"

definition conflict_ports :: "switch_link list \<Rightarrow> (int \<times> string) set" where
  "conflict_ports links = (\<Union>l \<in> {l \<in> set links. ln_state l = ''conflicting''}. set (link_port_keys l))"

definition disputed :: "((int \<times> string) \<times> assignment) list \<Rightarrow> int \<times> string \<Rightarrow> bool" where
  "disputed claims key \<longleftrightarrow> (\<exists>a b. (key, a) \<in> set claims \<and> (key, b) \<in> set claims \<and> as_priority a = as_priority b \<and> claim_value a \<noteq> claim_value b)"

definition strongest :: "((int \<times> string) \<times> assignment) list \<Rightarrow> int \<times> string \<Rightarrow> assignment \<Rightarrow> bool" where
  "strongest claims key a \<longleftrightarrow> (key, a) \<in> set claims \<and> (\<forall>b. (key, b) \<in> set claims \<longrightarrow> as_priority b \<le> as_priority a)"

text \<open>What the assignments say about a port once a list of claims has been made.\<close>

definition settled :: "((int \<times> string) \<times> assignment) list \<Rightarrow> (int \<times> string) set \<Rightarrow> assignments \<Rightarrow> int \<times> string \<Rightarrow> bool" where
  "settled claims D AC key \<longleftrightarrow> (key \<in> D \<longrightarrow> key \<in> snd AC) \<and> (key \<in> snd AC \<longrightarrow> key \<in> D \<or> disputed claims key)
   \<and> (case fst AC key of None \<Rightarrow> \<forall>b. (key, b) \<notin> set claims
      | Some a \<Rightarrow> strongest claims key a
          \<and> (key \<notin> snd AC \<longrightarrow> (\<forall>b. (key, b) \<in> set claims \<and> as_priority b = as_priority a \<longrightarrow> claim_value b = claim_value a)))"

lemma disputed_mono: "disputed claims key \<Longrightarrow> disputed (claims @ cs) key"
  by (auto simp: disputed_def)

lemma settled_other:
  assumes "settled claims D (A, C) key" and "key \<noteq> k"
  shows "settled (claims @ [(k, a)]) D (assign (k, a) (A, C)) key"
proof -
  have "fst (assign (k, a) (A, C)) key = A key" "key \<in> snd (assign (k, a) (A, C)) \<longleftrightarrow> key \<in> C"
    using assms(2) by (auto split: option.split)
  with assms show ?thesis unfolding settled_def disputed_def strongest_def by (auto split: option.splits)
qed

lemma settled_same:
  assumes "settled claims D (A, C) k"
  shows "settled (claims @ [(k, a)]) D (assign (k, a) (A, C)) k"
proof (cases "A k")
  case None
  then show ?thesis using assms unfolding settled_def disputed_def strongest_def by auto
next
  case (Some cur)
  consider "as_priority a > as_priority cur" | "as_priority a = as_priority cur" "claim_value a \<noteq> claim_value cur"
    | "as_priority a < as_priority cur \<or> as_priority a = as_priority cur \<and> claim_value a = claim_value cur" by linarith
  then show ?thesis
  proof cases
    case 1
    then show ?thesis using assms Some unfolding settled_def disputed_def strongest_def by fastforce
  next
    case 2
    have "disputed (claims @ [(k, a)]) k" using 2 assms Some unfolding settled_def disputed_def strongest_def by auto
    then show ?thesis using 2 assms Some unfolding settled_def strongest_def by auto
  next
    case 3
    have same: "assign (k, a) (A, C) = (A, C)" using 3 Some by auto
    have old: "strongest claims k cur" "k \<in> C \<longrightarrow> k \<in> D \<or> disputed (claims @ [(k, a)]) k" "k \<in> D \<longrightarrow> k \<in> C"
      and agree: "k \<notin> C \<longrightarrow> (\<forall>b. (k, b) \<in> set claims \<and> as_priority b = as_priority cur \<longrightarrow> claim_value b = claim_value cur)"
      using assms Some disputed_mono [of claims k] by (auto simp: settled_def)
    have "strongest (claims @ [(k, a)]) k cur" using old(1) 3 by (auto simp: strongest_def)
    moreover have "k \<notin> C \<longrightarrow> (\<forall>b. (k, b) \<in> set (claims @ [(k, a)]) \<and> as_priority b = as_priority cur \<longrightarrow> claim_value b = claim_value cur)"
      using agree 3 by auto
    ultimately show ?thesis using old(2,3) unfolding settled_def same fst_conv snd_conv Some option.case by (intro conjI)
  qed
qed

lemma settled_assign: "settled claims D AC key \<Longrightarrow> settled (claims @ [c]) D (assign c AC) key"
  by (cases AC, cases c) (metis settled_same settled_other)

lemma settled_fold: "settled claims D AC key \<Longrightarrow> settled (claims @ cs) D (fold assign cs AC) key"
proof (induction cs arbitrary: claims AC)
  case (Cons c cs)
  from Cons.IH [OF settled_assign [OF Cons.prems]] show ?case by simp
qed simp

lemma settled_add: "settled claims D (A, C) key \<Longrightarrow> settled claims (D \<union> K) (A, C \<union> K) key"
  unfolding settled_def by (auto split: option.splits)

lemma settled_links:
  "settled claims D AC key \<Longrightarrow>
     settled (claims @ concat (map (link_claims depths ids) (filter (\<lambda>l. ln_state l \<noteq> ''conflicting'') ls))) (D \<union> conflict_ports ls)
       (fold (assign_link depths ids) ls AC) key"
proof (induction ls arbitrary: claims D AC)
  case (Cons l ls)
  obtain A C where AC: "AC = (A, C)" by (cases AC)
  show ?case
  proof (cases "ln_state l = ''conflicting''")
    case True
    have "D \<union> conflict_ports (l # ls) = (D \<union> set (link_port_keys l)) \<union> conflict_ports ls"
      using True by (auto simp: conflict_ports_def)
    with Cons.IH [OF settled_add [OF Cons.prems [unfolded AC], of "set (link_port_keys l)"]] True show ?thesis by (simp add: AC)
  next
    case False
    then have "conflict_ports (l # ls) = conflict_ports ls" by (auto simp: conflict_ports_def)
    with Cons.IH [OF settled_fold [OF Cons.prems [unfolded AC], of "link_claims depths ids l"]] False show ?thesis by (simp add: AC)
  qed
qed (simp add: conflict_ports_def)

lemma settled_topology:
  "settled (topology_claims links depths ids cs lcs) (conflict_ports links) (topology_assignments links depths ids cs lcs) key"
proof -
  have start: "settled [] {} (Map.empty, {}) key" by (simp add: settled_def)
  have "conflict_ports (ordered_links links) = conflict_ports links" by (simp add: conflict_ports_def ordered_links_def)
  with settled_fold [OF settled_fold [OF settled_links [OF start]]] show ?thesis
    unfolding topology_claims_def topology_assignments_def by (metis append_Nil append_assoc sup_bot_left)
qed

section \<open>Roles\<close>

definition port_key_of :: "port_role \<Rightarrow> int \<times> string" where
  "port_key_of r = (pr_source r, pr_port_key r)"

definition observed_ports :: "corr_db \<Rightarrow> switch_link list \<Rightarrow> (int \<times> string) set" where
  "observed_ports db links = {(po_source p, po_port_key p) |p. p \<in> set (k_ports db)}
     \<union> {(fd_source f, fd_port_key f) |f. f \<in> set (k_fdb db) \<and> lower (fd_status f) = ''learned'' \<and> normalize_mac (Some (fd_mac f)) \<noteq> None}
     \<union> (\<Union>l \<in> set links. set (link_port_keys l))"

lemma density_role_key [simp]: "port_key_of (density_role s t) = summary_key s" "pr_source (density_role s t) = ps_source s"
    "pr_port_key (density_role s t) = ps_port_key s"
  by (simp_all add: density_role_def port_key_of_def summary_key_def split: prod.split)

lemma role_of_port_key [simp]: "port_key_of (role_of_port AC cs obs t s) = summary_key s"
  unfolding role_of_port_def Let_def by (auto simp: port_key_of_def summary_key_def split: option.split)

lemma summary_of_key [simp]: "summary_key (port_mac_summary_of db m k) = k" "summary_key (empty_summary obs k) = k"
  by (simp_all add: port_mac_summary_of_def empty_summary_def summary_key_def Let_def)

lemma summaries_keys:
  "map summary_key (port_mac_summaries db ids) = sort (remdups (map (\<lambda>p. (po_source p, po_port_key p)) (k_ports db)
     @ map (\<lambda>(f, _). (fd_source f, fd_port_key f)) (learned_rows normalize_mac db)))"
  by (simp add: port_mac_summaries_def Let_def comp_def)

lemma all_summaries_keys:
  "distinct (map summary_key (all_summaries db ids links obs)) \<and> sorted (map summary_key (all_summaries db ids links obs))
   \<and> set (map summary_key (all_summaries db ids links obs)) = observed_ports db links"
proof -
  let ?known = "port_mac_summaries db ids"
  let ?more = "filter (\<lambda>k. k \<notin> set (map summary_key ?known)) (remdups (concat (map link_port_keys links)))"
  have keys: "map summary_key (?known @ map (empty_summary obs) ?more) = map summary_key ?known @ ?more" by (simp add: comp_def)
  have "distinct (map summary_key ?known @ ?more)" unfolding distinct_append by (auto simp: summaries_keys)
  then have d: "distinct (map summary_key (all_summaries db ids links obs))"
    unfolding all_summaries_def Let_def keys [symmetric] distinct_map by (simp add: distinct_map)
  have "set (map summary_key ?known) = {(po_source p, po_port_key p) |p. p \<in> set (k_ports db)}
     \<union> {(fd_source f, fd_port_key f) |f. f \<in> set (k_fdb db) \<and> lower (fd_status f) = ''learned'' \<and> normalize_mac (Some (fd_mac f)) \<noteq> None}"
    unfolding summaries_keys by (force simp: learned_rows_def in_map_filter)
  moreover have "set (map summary_key (all_summaries db ids links obs)) = set (map summary_key ?known @ ?more)"
    unfolding all_summaries_def Let_def keys [symmetric] set_map [of summary_key] set_sort by (simp add: image_Un image_image)
  ultimately have "set (map summary_key (all_summaries db ids links obs)) = observed_ports db links"
    unfolding observed_ports_def by auto
  with d show ?thesis by (simp add: all_summaries_def Let_def)
qed

lemma infer_port_roles_keys:
  "map port_key_of (infer_port_roles db links ids depths obs cs lcs) = map summary_key (all_summaries db ids links obs)"
  by (simp add: infer_port_roles_def Let_def comp_def)

text \<open>The reasons a role can have, given the claims made and the ports \<open>D\<close> of conflicting links.\<close>

definition role_explained ::
    "((int \<times> string) \<times> assignment) list \<Rightarrow> (int \<times> string) set \<Rightarrow> int \<Rightarrow> port_mac_summary \<Rightarrow> string \<times> int \<times> int option \<Rightarrow> bool" where
  "role_explained claims D threshold s v \<longleftrightarrow> (let key = summary_key s in
     v = (''unknown'', 20, None) \<and> (key \<in> D \<or> disputed claims key)
   \<or> (\<exists>a. strongest claims key a \<and> (\<forall>b. strongest claims key b \<longrightarrow> claim_value b = claim_value a) \<and> v = claim_value a)
   \<or> (\<forall>a. (key, a) \<notin> set claims) \<and> (case density_decision s threshold of (role, confidence, _) \<Rightarrow> v = (role, confidence, None)))"

definition role_value :: "port_role \<Rightarrow> string \<times> int \<times> int option" where
  "role_value r = (pr_role r, pr_confidence r, pr_child r)"

lemma role_of_port_value:
  "role_value (role_of_port AC cs obs t s) = (if summary_key s \<in> snd AC then (''unknown'', 20, None)
     else case fst AC (summary_key s) of Some a \<Rightarrow> claim_value a
       | None \<Rightarrow> (case density_decision s t of (role, confidence, _) \<Rightarrow> (role, confidence, None)))"
  by (simp add: role_of_port_def Let_def role_value_def claim_value_def density_role_def split: option.split prod.split)

lemma role_of_port_explained:
  assumes "settled claims D AC (summary_key s)"
  shows "role_explained claims D t s (role_value (role_of_port AC cs obs t s))"
proof (cases "summary_key s \<in> snd AC")
  case True
  then have "role_value (role_of_port AC cs obs t s) = (''unknown'', 20, None)" by (simp only: role_of_port_value if_True)
  moreover have "summary_key s \<in> D \<or> disputed claims (summary_key s)" using assms True by (simp only: settled_def simp_thms)
  ultimately show ?thesis unfolding role_explained_def Let_def by (rule disjI1 [OF conjI])
next
  case False
  show ?thesis
  proof (cases "fst AC (summary_key s)")
    case None
    with assms have "\<forall>a. (summary_key s, a) \<notin> set claims" by (simp add: settled_def)
    with False None show ?thesis unfolding role_explained_def role_of_port_value Let_def
      by (intro disjI2 conjI) (simp_all split: prod.split)
  next
    case (Some a)
    with assms False have strong: "strongest claims (summary_key s) a"
      and agree: "\<forall>b. (summary_key s, b) \<in> set claims \<and> as_priority b = as_priority a \<longrightarrow> claim_value b = claim_value a"
      by (simp_all add: settled_def)
    have "\<forall>b. strongest claims (summary_key s) b \<longrightarrow> claim_value b = claim_value a"
      using strong agree unfolding strongest_def by (blast intro: antisym)
    note strong and this
    moreover have "role_value (role_of_port AC cs obs t s) = claim_value a"
      using False Some by (simp only: role_of_port_value if_False option.case)
    ultimately show ?thesis unfolding role_explained_def Let_def by (intro disjI2 [OF disjI1] exI [of _ a] conjI)
  qed
qed


section \<open>The order of claims\<close>

text \<open>A dispute noted before a stronger claim arrives is not withdrawn, and a dispute below a claim already made is not noted. Port \<open>p\<close>
  of switch 1 has a confirmed link and two switches announced behind it: with the confirmed peer numbered last the port is a
  conflict, with the confirmed peer numbered first it is a backbone port.\<close>

definition odemo_link :: "int \<Rightarrow> string \<Rightarrow> string \<Rightarrow> switch_link" where
  "odemo_link peer state ty = \<lparr>ln_key = link_key 1 ''p'' peer [], ln_a = 1, ln_port_a = ''p'', ln_b = peer, ln_port_b = [], ln_state = state,
     ln_confidence = 85, ln_intent = [], ln_observed_at = ''T1'',
     ln_evidence = [\<lparr>ev_a = \<lparr>le_source = 1, le_port = ''p''\<rparr>, ev_b = \<lparr>le_source = peer, le_port = []\<rparr>, ev_type = ty, ev_confidence = 90,
       ev_observed_at = ''T1'', ev_intent = [], ev_details = JObj []\<rparr>]\<rparr>"

definition odemo :: "int \<Rightarrow> int \<Rightarrow> int \<Rightarrow> assignments" where
  "odemo confirmed announced announced' = topology_assignments
     [odemo_link confirmed ''confirmed'' ''intent'', odemo_link announced ''inferred'' ''lldp_chassis_mac'', odemo_link announced' ''inferred'' ''lldp_chassis_mac'']
     [(1, 0), (2, 1), (3, 1), (4, 1)] [] [] []"

lemma conflict_depends_on_numbering:
  "(1, ''p'') \<in> snd (odemo 4 2 3) \<and> (1, ''p'') \<notin> snd (odemo 2 3 4) \<and> map_option as_priority (fst (odemo 4 2 3) (1, ''p'')) = Some 300"
  by code_simp

end
