(* ===== verification/Attachment_Correctness.thy ===== *)
theory Attachment_Correctness
  imports Attachment
begin

text \<open>
  Correctness of attachments: every candidate is backed by rows of the tables and has a score within bounds, the
  resolution of an interface depends on the set of its candidates only, and a reconciliation either stores
  exactly the resolutions it computed or nothing at all.
\<close>

section \<open>Candidates\<close>

lemma score_bounds: "score c d v o' s b r \<in> {0..100}"
  by (simp add: score_def)

definition backed_by :: "pylib \<Rightarrow> corr_db \<Rightarrow> candidate \<Rightarrow> fdb_row \<Rightarrow> nic_row \<Rightarrow> switch_run \<Rightarrow> bool" where
  "backed_by L db c f n run \<longleftrightarrow> f \<in> set (k_fdb db) \<and> n \<in> set (k_nics db) \<and> run \<in> set (k_runs db)
     \<and> normalize_mac (Some (fd_mac f)) \<noteq> None \<and> normalize_mac (nc_mac n) = normalize_mac (Some (fd_mac f))
     \<and> nc_lifecycle n = ''active'' \<and> (cd_interface c, cd_asset c) = (nc_id n, nc_asset_id n)
     \<and> (cd_switch c, cd_port_key c, cd_vlan_key c) = (fd_source f, fd_port_key f, fd_vlan_key f)
     \<and> (sw_id run, sw_source run) = (fd_run_id f, fd_source f) \<and> has_authoritative_fdb L (sw_status run) (sw_outcomes run)"

lemma active_interfacesD:
  "(a, i) \<in> set (active_interfaces db mac) \<Longrightarrow>
     \<exists>n \<in> set (k_nics db). nc_lifecycle n = ''active'' \<and> normalize_mac (nc_mac n) = Some mac \<and> nc_asset_id n = a \<and> nc_id n = i"
  by (auto simp: active_interfaces_def)

lemma run_ofD: "run_of db f = Some run \<Longrightarrow> run \<in> set (k_runs db) \<and> sw_id run = fd_run_id f \<and> sw_source run = fd_source f"
  by (auto simp: run_of_def dest: find_SomeD)

lemma row_candidatesD:
  assumes "c \<in> set (row_candidates L db depths f)"
  obtains mac run a i where "c = candidate_of db depths f mac (sw_status run) (a, i)" "normalize_mac (Some (fd_mac f)) = Some mac"
    "run_of db f = Some run" "has_authoritative_fdb L (sw_status run) (sw_outcomes run)"
    "(a, i) \<in> set (active_interfaces db mac)" "map_of (k_devices db) (fd_source f) \<noteq> Some a"
  using assms unfolding row_candidates_def by (auto split: if_splits option.splits)

lemma candidate_of_fields:
  fixes db depths f mac st ai
  defines "c \<equiv> candidate_of db depths f mac st ai"
  shows "cd_asset c = fst ai" "cd_interface c = snd ai" "cd_switch c = fd_source f" "cd_port_key c = fd_port_key f"
    "cd_vlan_key c = fd_vlan_key f" "cd_score c \<in> {0..100}"
    "cd_class c = candidate_class_of ((fd_source f, fd_port_key f) \<in> backbone_ports db) (role_text (role_of db f)) (port_of db f)"
    "cd_depth c = map_of depths (fd_source f)"
  unfolding c_def candidate_of_def Let_def using score_bounds by simp_all

text \<open>C33: A candidate is never invented. It stands for an entry of the forwarding table of a collection that replaced that
  table, whose MAC is that of the active interface it names; the interface is not the switch's own; its score
  lies between 0 and 100 and its depth is that of the switch; and it counts as direct only on a port that is no
  end of a known link and has no uplink role.\<close>

theorem attachment_candidates_sound:
  assumes "c \<in> set (attachment_candidates L db depths)"
  shows "(\<exists>f n run. backed_by L db c f n run) \<and> map_of (k_devices db) (cd_switch c) \<noteq> Some (cd_asset c)
    \<and> cd_score c \<in> {0..100} \<and> cd_depth c = map_of depths (cd_switch c)
    \<and> (cd_class c = ''direct'' \<longrightarrow> (cd_switch c, cd_port_key c) \<notin> backbone_ports db)"
proof -
  from assms obtain f where f: "f \<in> set (k_fdb db)" and c: "c \<in> set (row_candidates L db depths f)"
    by (auto simp: attachment_candidates_def)
  from c show ?thesis
  proof (rule row_candidatesD)
    fix mac run a i
    assume c: "c = candidate_of db depths f mac (sw_status run) (a, i)" and mac: "normalize_mac (Some (fd_mac f)) = Some mac"
      and run: "run_of db f = Some run" and auth: "has_authoritative_fdb L (sw_status run) (sw_outcomes run)"
      and ai: "(a, i) \<in> set (active_interfaces db mac)" and dev: "map_of (k_devices db) (fd_source f) \<noteq> Some a"
    note fields = candidate_of_fields [of db depths f mac "sw_status run" "(a, i)", folded c]
    obtain n where n: "n \<in> set (k_nics db)" "nc_lifecycle n = ''active''" "normalize_mac (nc_mac n) = Some mac"
        "nc_asset_id n = a" "nc_id n = i"
      using active_interfacesD [OF ai] by (elim bexE conjE)
    have "backed_by L db c f n run"
      unfolding backed_by_def using f n mac auth run_ofD [OF run] fields by simp
    moreover have "cd_class c = ''direct'' \<longrightarrow> (cd_switch c, cd_port_key c) \<notin> backbone_ports db"
      by (simp add: fields candidate_class_of_def)
    ultimately show ?thesis using dev fields(1-6,8) by (intro conjI exI [of _ f] exI [of _ n] exI [of _ run]) simp_all
  qed
qed

section \<open>Resolution\<close>

lemma find_sorted_least:
  "sorted (map k ys) \<Longrightarrow> find P ys = Some b \<Longrightarrow> y \<in> set ys \<Longrightarrow> P y \<Longrightarrow> k b \<le> k y"
  by (induction ys) (auto split: if_splits)

definition clear_winner :: "candidate set \<Rightarrow> candidate \<Rightarrow> bool" where
  "clear_winner C c \<longleftrightarrow> c \<in> C \<and> cd_class c = ''direct'' \<and> 75 \<le> cd_score c \<and> (\<forall>d \<in> C - {c}. cd_score d + 15 \<le> cd_score c)"

lemma next_score_margin:
  "75 \<le> cd_score b \<Longrightarrow> 15 \<le> cd_score b - next_score b cs \<longleftrightarrow> (\<forall>d \<in> set cs - {b}. cd_score d + 15 \<le> cd_score b)"
proof (cases "filter (\<lambda>c. c \<noteq> b) cs = []")
  case True
  assume "75 \<le> cd_score b"
  with True show ?thesis by (auto simp: next_score_def filter_empty_conv)
next
  case False
  let ?S = "set (map cd_score (filter (\<lambda>c. c \<noteq> b) cs))"
  have "15 \<le> cd_score b - next_score b cs \<longleftrightarrow> Max ?S \<le> cd_score b - 15"
    using False by (auto simp: next_score_def Let_def)
  also have "\<dots> \<longleftrightarrow> (\<forall>x \<in> ?S. x \<le> cd_score b - 15)" using False by (subst Max_le_iff) (auto simp: filter_empty_conv)
  also have "\<dots> \<longleftrightarrow> (\<forall>d \<in> set cs - {b}. cd_score d + 15 \<le> cd_score b)" by (force simp: algebra_simps)
  finally show ?thesis .
qed

lemma order_score: "candidate_order b \<le> candidate_order d \<Longrightarrow> cd_score d \<le> cd_score b"
  by (auto simp: candidate_order_def less_eq_prod_def)

lemma first_direct_best:
  assumes "find (\<lambda>c. cd_class c = ''direct'') (sort_key candidate_order cs) = Some b" and "d \<in> set cs" and "cd_class d = ''direct''"
  shows "cd_score d \<le> cd_score b"
proof -
  have "candidate_order b \<le> candidate_order d"
    by (rule find_sorted_least [OF sorted_sort_key assms(1)]) (use assms(2,3) in simp_all)
  then show ?thesis by (rule order_score)
qed

lemma first_score_greatest:
  assumes "sort_key candidate_order cs = f # fs"
  shows "cd_score f = Max (cd_score ` set cs)"
proof -
  have "sorted (map candidate_order (f # fs))" using assms by (metis sorted_sort_key)
  then have "\<forall>d \<in> set (f # fs). candidate_order f \<le> candidate_order d" by auto
  moreover have S: "set (f # fs) = set cs" using assms by (metis set_sort)
  ultimately have "\<forall>d \<in> set cs. cd_score d \<le> cd_score f" using order_score by blast
  with S show ?thesis by (intro Max_eqI [symmetric]) auto
qed

definition resolve_spec :: "candidate set \<Rightarrow> string \<times> candidate option \<times> int \<Rightarrow> bool" where
  "resolve_spec C v \<longleftrightarrow>
     (if C = {} then v = (''unresolved'', None, 0)
      else if \<forall>c \<in> C. cd_class c = ''uplink'' then v = (''uplink_only'', None, min 60 (Max (cd_score ` C)))
      else if \<exists>c. clear_winner C c then (\<exists>c. clear_winner C c \<and> v = (''confirmed'', Some c, cd_score c))
      else v = (''ambiguous'', None, min 60 (Max (cd_score ` C))))"

lemma clear_winner_unique:
  assumes "clear_winner C c" and "clear_winner C d"
  shows "c = d"
proof (rule ccontr)
  assume "c \<noteq> d"
  with assms have "cd_score d + 15 \<le> cd_score c" "cd_score c + 15 \<le> cd_score d" by (simp_all add: clear_winner_def)
  then show False by simp
qed

lemma winner_is_first_direct:
  assumes "clear_winner (set cs) c"
  shows "find (\<lambda>c. cd_class c = ''direct'') (sort_key candidate_order cs) = Some c"
proof -
  have c: "c \<in> set cs" "cd_class c = ''direct''" using assms by (simp_all add: clear_winner_def)
  then obtain b where b: "find (\<lambda>c. cd_class c = ''direct'') (sort_key candidate_order cs) = Some b"
    by (cases "find (\<lambda>c. cd_class c = ''direct'') (sort_key candidate_order cs)") (auto simp: find_None_iff)
  have "b \<in> set cs" using find_SomeD [OF b] by simp
  with first_direct_best [OF b c] assms have "b = c" by (force simp: clear_winner_def)
  with b show ?thesis by simp
qed

text \<open>C34: The resolution of an interface depends only on the set of its candidates. Without any it is unresolved, with
  uplinks only it is just that, it is confirmed exactly if a direct candidate of score 75 or more leads every other
  by 15, and that candidate is selected with its score; otherwise it is ambiguous with a confidence of at most 60.
  All candidates are kept as alternatives.\<close>

theorem resolve_attachment_exact:
  "resolve_spec (set cs) (re_status (resolve_attachment cs), re_selected (resolve_attachment cs), re_confidence (resolve_attachment cs))
   \<and> set (re_alternatives (resolve_attachment cs)) = set cs"
proof (cases "sort_key candidate_order cs")
  case Nil
  then have "set cs = {}" by (metis set_empty set_sort)
  with Nil show ?thesis by (simp add: resolve_attachment_def resolve_spec_def)
next
  case (Cons f fs)
  let ?o = "sort_key candidate_order cs"
  have S: "set (f # fs) = set cs" using Cons by (metis set_sort)
  then have ne: "set cs \<noteq> {}" by (metis list.set_intros(1) empty_iff)
  note top = first_score_greatest [OF Cons]
  have all: "list_all (\<lambda>c. cd_class c = ''uplink'') (f # fs) \<longleftrightarrow> (\<forall>c \<in> set cs. cd_class c = ''uplink'')"
    using S by (simp only: list_all_iff)
  define best where "best = find (\<lambda>c. cd_class c = ''direct'') (f # fs)"
  have win: "(case best of Some b \<Rightarrow> 75 \<le> cd_score b \<and> 15 \<le> cd_score b - next_score b (f # fs) | None \<Rightarrow> False)
      \<longleftrightarrow> (\<exists>c. clear_winner (set cs) c)"
  proof
    assume "case best of Some b \<Rightarrow> 75 \<le> cd_score b \<and> 15 \<le> cd_score b - next_score b (f # fs) | None \<Rightarrow> False"
    then obtain b where b: "best = Some b" "75 \<le> cd_score b" "15 \<le> cd_score b - next_score b (f # fs)"
      by (cases best) auto
    from find_SomeD [OF b(1) [unfolded best_def]] S have "b \<in> set cs" "cd_class b = ''direct''" by blast+
    with b next_score_margin [OF b(2), of "f # fs"] S show "\<exists>c. clear_winner (set cs) c"
      unfolding clear_winner_def by blast
  next
    assume "\<exists>c. clear_winner (set cs) c"
    then obtain c where c: "clear_winner (set cs) c" by blast
    with winner_is_first_direct [OF c] Cons have "best = Some c" by (simp add: best_def)
    with c next_score_margin [of c "f # fs"] S
    show "case best of Some b \<Rightarrow> 75 \<le> cd_score b \<and> 15 \<le> cd_score b - next_score b (f # fs) | None \<Rightarrow> False"
      by (simp add: clear_winner_def)
  qed
  show ?thesis
  proof (cases "\<exists>c. clear_winner (set cs) c")
    case True
    then obtain c where c: "clear_winner (set cs) c" by blast
    with winner_is_first_direct [OF c] Cons have b: "best = Some c" by (simp add: best_def)
    have "c \<in> set cs" "cd_class c \<noteq> ''uplink''" using c by (simp_all add: clear_winner_def)
    then have "\<not> (\<forall>c \<in> set cs. cd_class c = ''uplink'')" by blast
    with b win c ne S show ?thesis
      unfolding resolve_attachment_def Cons Let_def list.case best_def [symmetric] all resolve_spec_def
      by (auto simp: list.set)
  next
    case False
    with win have "\<And>b. best = Some b \<Longrightarrow> \<not> (75 \<le> cd_score b \<and> 15 \<le> cd_score b - next_score b (f # fs))" by auto
    with False ne S top show ?thesis
      unfolding resolve_attachment_def Cons Let_def list.case best_def [symmetric] all resolve_spec_def
      by (auto split: option.split)
  qed
qed

section \<open>Storing\<close>

text \<open>What one resolution adds to the history and to the findings.\<close>

definition events_of :: "resolution_row list \<Rightarrow> string \<Rightarrow> int \<Rightarrow> int \<times> int \<times> resolution \<Rightarrow> attachment_event list" where
  "events_of old observed_at run item = (case item of (i, asset, r) \<Rightarrow> (case event_type (find_resolution old i) r of None \<Rightarrow> []
     | Some ty \<Rightarrow> [\<lparr>ae_interface = i, ae_asset = asset, ae_type = ty, ae_before = resolution_public (find_resolution old i),
         ae_after = resolution_public (Some (stored_resolution (find_resolution old i) i asset r observed_at run)),
         ae_observed_at = observed_at, ae_run = run\<rparr>]))"

definition row_of :: "resolution_row list \<Rightarrow> string \<Rightarrow> int \<Rightarrow> int \<times> int \<times> resolution \<Rightarrow> resolution_row" where
  "row_of old observed_at run item = (case item of (i, asset, r) \<Rightarrow> stored_resolution (find_resolution old i) i asset r observed_at run)"

text \<open>Everything but resolutions, events, findings, candidates and the runs.\<close>

definition facts_part :: "corr_db \<Rightarrow> corr_db" where
  "facts_part db = db\<lparr>k_resolutions := [], k_events := [], k_findings := [], k_candidates := [], k_correlations := []\<rparr>"

lemma write_resolution_Inr:
  assumes "write_resolution old at' run u item s = (Inr v, t)"
  shows "k_resolutions t = upsert_resolution (row_of old at' run item) (k_resolutions s)
    \<and> k_events t = k_events s @ events_of old at' run item \<and> facts_part t = facts_part s
    \<and> k_candidates t = k_candidates s \<and> k_correlations t = k_correlations s"
  using assms
  by (auto simp: write_resolution_def row_of_def events_of_def facts_part_def Let_def insert_finding_def
      seq_def bind_def modify_def ret_def gets_def raise_def split: prod.splits option.splits if_splits)

lemma write_resolutions_Inr:
  "foldM (write_resolution old at' run) u todo s = (Inr v, t) \<Longrightarrow>
     k_resolutions t = fold (\<lambda>x. upsert_resolution (row_of old at' run x)) todo (k_resolutions s)
   \<and> k_events t = k_events s @ concat (map (events_of old at' run) todo) \<and> facts_part t = facts_part s
   \<and> k_candidates t = k_candidates s \<and> k_correlations t = k_correlations s"
proof (induction todo arbitrary: u s)
  case (Cons x xs)
  from Cons.prems obtain u' s' where x: "write_resolution old at' run u x s = (Inr u', s')"
    and xs: "foldM (write_resolution old at' run) u' xs s' = (Inr v, t)" by (auto simp: bind_Inr)
  from write_resolution_Inr [OF x] Cons.IH [OF xs] show ?case by simp
qed (simp add: ret_def)

lemma find_upsert:
  "find_resolution (upsert_resolution r rows) i = (if i = rs_interface r
     then Some (case find_resolution rows i of None \<Rightarrow> r | Some x \<Rightarrow> r\<lparr>rs_first_seen_at := rs_first_seen_at x\<rparr>)
     else find_resolution rows i)"
proof (cases "rs_interface r \<in> rs_interface ` set rows")
  case True
  have "find_resolution (map (\<lambda>x. if rs_interface x = rs_interface r then r\<lparr>rs_first_seen_at := rs_first_seen_at x\<rparr> else x) xs) i
     = (if i = rs_interface r then map_option (\<lambda>x. r\<lparr>rs_first_seen_at := rs_first_seen_at x\<rparr>) (find_resolution xs i)
        else find_resolution xs i)" for xs
    by (induction xs) (auto simp: find_resolution_def)
  moreover have "i = rs_interface r \<Longrightarrow> \<exists>x. find_resolution rows i = Some x"
    using True by (cases "find_resolution rows i") (auto simp: find_resolution_def find_None_iff)
  ultimately show ?thesis using True by (auto simp: upsert_resolution_def)
next
  case False
  have app: "find_resolution (xs @ [r]) i = (case find_resolution xs i of None \<Rightarrow> if i = rs_interface r then Some r else None | Some x \<Rightarrow> Some x)" for xs
    by (induction xs) (auto simp: find_resolution_def)
  from False have "find_resolution rows (rs_interface r) = None"
    unfolding find_resolution_def find_None_iff by (metis imageI)
  with False show ?thesis by (auto simp: upsert_resolution_def app split: option.splits)
qed

lemma row_of_fields [simp]:
  "rs_interface (row_of old at' run x) = fst x" "rs_status (row_of old at' run x) = re_status (snd (snd x))"
  by (simp_all add: row_of_def stored_resolution_def Let_def split: prod.split)

lemma row_of_first_seen: "find_resolution old (fst x) = Some y \<Longrightarrow> rs_first_seen_at (row_of old at' run x) = rs_first_seen_at y"
  by (cases x) (simp add: row_of_def stored_resolution_def Let_def)

lemma fold_upsert:
  assumes "distinct (map fst todo)" and "\<forall>x \<in> set todo. find_resolution rows (fst x) = find_resolution old (fst x)"
  shows "find_resolution (fold (\<lambda>x. upsert_resolution (row_of old at' run x)) todo rows) i
    = (case find (\<lambda>x. fst x = i) todo of None \<Rightarrow> find_resolution rows i | Some x \<Rightarrow> Some (row_of old at' run x))"
  using assms
proof (induction todo arbitrary: rows)
  case (Cons x xs)
  let ?rows = "upsert_resolution (row_of old at' run x) rows"
  have "\<forall>y \<in> set xs. find_resolution ?rows (fst y) = find_resolution old (fst y)"
  proof
    fix y
    assume y: "y \<in> set xs"
    have "fst x \<notin> fst ` set xs" using Cons.prems(1) by simp
    with y have "fst y \<noteq> fst x" by (metis imageI)
    with y Cons.prems(2) show "find_resolution ?rows (fst y) = find_resolution old (fst y)" by (simp add: find_upsert)
  qed
  with Cons have IH: "find_resolution (fold (\<lambda>x. upsert_resolution (row_of old at' run x)) xs ?rows) i
      = (case find (\<lambda>x. fst x = i) xs of None \<Rightarrow> find_resolution ?rows i | Some x \<Rightarrow> Some (row_of old at' run x))" by simp
  show ?case
  proof (cases "fst x = i")
    case True
    moreover have "fst x \<notin> fst ` set xs" using Cons.prems(1) by simp
    ultimately have "find (\<lambda>y. fst y = i) xs = None" unfolding find_None_iff by (metis imageI)
    moreover have "find_resolution ?rows i = Some (row_of old at' run x)"
    proof (cases "find_resolution rows i")
      case (Some y)
      then have "find_resolution old (fst x) = Some y" using Cons.prems(2) True by simp
      from row_of_first_seen [OF this, of at' run] Some True show ?thesis by (simp add: find_upsert)
    qed (use True in \<open>simp add: find_upsert\<close>)
    ultimately show ?thesis using IH True by simp
  qed (use IH in \<open>simp add: find_upsert split: option.split\<close>)
qed simp

lemma distinct_interfaces: "distinct (map fst (resolutions_of eligible cs))"
  by (simp add: resolutions_of_def comp_def interfaces_to_resolve_def)

lemma insert_candidates_Inr:
  "foldM (insert_candidate run) u cs s = (Inr v, t) \<Longrightarrow> k_candidates t = k_candidates s @ map (\<lambda>c. (c, run)) cs
     \<and> k_resolutions t = k_resolutions s \<and> k_events t = k_events s \<and> facts_part t = facts_part s"
proof (induction cs arbitrary: u s)
  case (Cons c cs)
  from Cons.prems obtain u' s' where c: "insert_candidate run u c s = (Inr u', s')"
    and cs: "foldM (insert_candidate run) u' cs s' = (Inr v, t)" by (auto simp: bind_Inr)
  from c have "k_candidates s' = k_candidates s @ [(c, run)] \<and> k_resolutions s' = k_resolutions s \<and> k_events s' = k_events s
      \<and> facts_part s' = facts_part s"
    by (auto simp: insert_candidate_def bind_def gets_def raise_def modify_def facts_part_def split: if_splits)
  with Cons.IH [OF cs] show ?case by simp
qed (simp add: ret_def)

lemma store_attachments_Inr:
  assumes "store_attachments fingerprints cs todo at' run s = (Inr v, t)"
  shows "k_resolutions t = fold (\<lambda>x. upsert_resolution (row_of (k_resolutions s) at' run x)) todo (k_resolutions s)
    \<and> k_events t = k_events s @ concat (map (events_of (k_resolutions s) at' run) todo)
    \<and> k_candidates t = map (\<lambda>c. (c, run)) cs \<and> facts_part t = facts_part s"
proof -
  from assms obtain s1 u s2 n h where w: "write_candidates cs run s = (Inr u, s1)"
    and f: "foldM (write_resolution (k_resolutions s) at' run) ()
        todo (k_findings_update (filter (\<lambda>f. tf_type f \<notin> set ATTACHMENT_FINDINGS)) s1) = (Inr n, s2)"
    and t: "t = k_correlations_update h s2"
    by (auto simp: store_attachments_def bind_Inr seq_Inr gets_def modify_def lift_Inr finish_run_def ret_def Let_def)
  have "k_candidates s1 = map (\<lambda>c. (c, run)) cs \<and> k_resolutions s1 = k_resolutions s \<and> k_events s1 = k_events s
      \<and> facts_part s1 = facts_part s"
    using w by (auto simp: write_candidates_def seq_Inr modify_def facts_part_def dest!: insert_candidates_Inr)
  with write_resolutions_Inr [OF f] t show ?thesis by (auto simp: facts_part_def)
qed

text \<open>The runs of the correlation are not read by what it computes.\<close>

lemma reads_past_runs [simp]:
  "run_of (k_correlations_update x db) f = run_of db f" "port_of (k_correlations_update x db) f = port_of db f"
  "role_of (k_correlations_update x db) f = role_of db f" "active_interfaces (k_correlations_update x db) mac = active_interfaces db mac"
  "backbone_ports (k_correlations_update x db) = backbone_ports db" "current_links (k_correlations_update x db) = current_links db"
  "observed_asset (k_correlations_update x db) a = observed_asset db a" "site_collected L (k_correlations_update x db) st = site_collected L db st"
  by (simp_all add: run_of_def port_of_def role_of_def active_interfaces_def backbone_ports_def current_links_def observed_asset_def
      site_collected_def)

lemma candidate_of_past_runs [simp]: "candidate_of (k_correlations_update x db) = candidate_of db"
  by (intro ext) (simp add: candidate_of_def)

lemma row_candidates_past_runs [simp]: "row_candidates L (k_correlations_update x db) = row_candidates L db"
  by (intro ext) (simp add: row_candidates_def split: option.split)

lemma computed_past_runs [simp]:
  "attachment_candidates L (k_correlations_update x db) d = attachment_candidates L db d"
  "eligible_interfaces L (k_correlations_update x db) = eligible_interfaces L db"
  by (simp_all add: attachment_candidates_def eligible_interfaces_def)

lemma reconcile_cases:
  assumes "reconcile_attachments L fp nz at' db = (r, t)"
  obtains (stored) run s cs counts where "s = db\<lparr>k_correlations := k_correlations s\<rparr>" "r = Inr (JObj [(''run_id'', JInt run), (''counts'', counts)])"
      "cs = attachment_candidates L db (topology_depths (current_links db) (core_sources nz db))"
      "store_attachments fp cs (resolutions_of (eligible_interfaces L db) cs) at' run s = (Inr counts, t)"
    | (failed) e run where "r = Inl e" "run = next_run_id (map cr_id (k_correlations db))"
      "t = db\<lparr>k_correlations := map (\<lambda>x. if cr_id x = run then x\<lparr>cr_status := ''failed'', cr_finished_at := Some at', cr_error := ''correlation_failed''\<rparr> else x)
        (k_correlations db @ [\<lparr>cr_id = run, cr_type = ''attachments'', cr_started_at = at', cr_status = ''running'', cr_finished_at = None,
          cr_counts = JObj [], cr_error = []\<rparr>])\<rparr>"
proof -
  define run where "run = next_run_id (map cr_id (k_correlations db))"
  define s where "s = db\<lparr>k_correlations := k_correlations db @ [\<lparr>cr_id = run, cr_type = ''attachments'', cr_started_at = at',
      cr_status = ''running'', cr_finished_at = None, cr_counts = JObj [], cr_error = []\<rparr>]\<rparr>"
  define cs where "cs = attachment_candidates L s (topology_depths (current_links s) (core_sources nz s))"
  have same: "attachment_candidates L s d = attachment_candidates L db d" "current_links s = current_links db"
      "eligible_interfaces L s = eligible_interfaces L db"
      "core_sources nz s = core_sources nz db" for d
    by (simp_all add: s_def core_sources_def)
  have start: "start_run ''attachments'' at' db = (Inr run, s)"
    by (simp add: start_run_def bind_def gets_def seq_def modify_def ret_def run_def s_def)
  define body where "body = store_attachments fp cs (resolutions_of (eligible_interfaces L s) cs) at' run"
  have run: "transactional run at' (bind (gets (\<lambda>db. db)) (\<lambda>db. let candidates = attachment_candidates L db (topology_depths (current_links db) (core_sources nz db));
            resolutions = resolutions_of (eligible_interfaces L db) candidates in
        bind (store_attachments fp candidates resolutions at' run) (\<lambda>counts.
        ret (JObj [(''run_id'', JInt run), (''counts'', counts)])))) s = (r, t)"
    using assms start by (simp add: reconcile_attachments_def bind_def)
  show thesis
  proof (cases "body s")
    case (Pair o' s2)
    show thesis
    proof (cases o')
      case (Inl e)
      with run Pair show thesis
        by (intro failed [OF _ run_def])
          (auto simp: transactional_def bind_def gets_def Let_def cs_def body_def finish_run_def seq_def modify_def raise_def s_def)
    next
      case (Inr counts)
      with run Pair have "r = Inr (JObj [(''run_id'', JInt run), (''counts'', counts)])" "t = s2"
        by (auto simp: transactional_def bind_def gets_def Let_def cs_def body_def ret_def)
      with Pair Inr show thesis
        by (intro stored [of s run counts cs]) (simp_all add: body_def cs_def same, simp_all add: s_def)
    qed
  qed
qed

lemma run_id_fresh: "r \<in> set rs \<Longrightarrow> f r < next_run_id (map f rs)"
  using Max_ge [of "f ` set rs" "f r"] by (auto simp: next_run_id_def)

text \<open>A run that raises leaves every table as it was and appends its own record.\<close>

lemma run_atomic:
  assumes "bind (start_run ty t) (\<lambda>run. transactional run t (body run)) db = (Inl e, db')"
  shows "\<exists>r. db' = db\<lparr>k_correlations := k_correlations db @ [r]\<rparr> \<and> cr_type r = ty \<and> cr_status r = ''failed'' \<and> cr_finished_at r = Some t"
proof -
  let ?run = "next_run_id (map cr_id (k_correlations db))"
  have old: "map (\<lambda>x. if cr_id x = ?run then f x else x) (k_correlations db) = k_correlations db" for f
  proof (rule map_idI)
    fix x assume "x \<in> set (k_correlations db)"
    then show "(if cr_id x = ?run then f x else x) = x" using run_id_fresh [of x "k_correlations db" cr_id] by simp
  qed
  define r where "r = \<lparr>cr_id = ?run, cr_type = ty, cr_started_at = t, cr_status = ''running'', cr_finished_at = None,
    cr_counts = JObj [], cr_error = []\<rparr>"
  have "start_run ty t db = (Inr ?run, db\<lparr>k_correlations := k_correlations db @ [r]\<rparr>)"
    by (simp add: start_run_def bind_def gets_def seq_def modify_def ret_def r_def)
  with assms have "transactional ?run t (body ?run) (db\<lparr>k_correlations := k_correlations db @ [r]\<rparr>) = (Inl e, db')" by (simp add: bind_def)
  then have "db' = db\<lparr>k_correlations := map (\<lambda>x. if cr_id x = ?run then x\<lparr>cr_status := ''failed'', cr_finished_at := Some t,
      cr_error := ''correlation_failed''\<rparr> else x) (k_correlations db @ [r])\<rparr>"
    by (auto simp: transactional_def finish_run_def bind_def seq_def modify_def raise_def split: prod.splits sum.splits)
  then have "db' = db\<lparr>k_correlations := k_correlations db @ [r\<lparr>cr_status := ''failed'', cr_finished_at := Some t, cr_error := ''correlation_failed''\<rparr>]\<rparr>"
    unfolding map_append old by (simp add: r_def)
  then show ?thesis
    by (intro exI [of _ "r\<lparr>cr_status := ''failed'', cr_finished_at := Some t, cr_error := ''correlation_failed''\<rparr>"] conjI) (simp_all add: r_def)
qed

text \<open>The interfaces a reconciliation looks at, each with its asset and its resolution.\<close>

definition computed_resolutions ::
    "pylib \<Rightarrow> (string \<Rightarrow> json \<Rightarrow> json option) \<Rightarrow> corr_db \<Rightarrow> (int \<times> int \<times> resolution) list" where
  "computed_resolutions L nz db = resolutions_of (eligible_interfaces L db)
     (attachment_candidates L db (topology_depths (current_links db) (core_sources nz db)))"

text \<open>C35: A successful reconciliation stores exactly what it computed. The row of every interface it looked at
  carries the resolution of that interface's candidates and keeps the time of its first sighting, the rows
  of all others stay; history is only appended to, one event for each interface whose attachment
  changed in kind or in place, and the collected facts are not touched.\<close>

theorem reconcile_attachments_stores:
  assumes "reconcile_attachments L fp nz at' db = (Inr j, t)"
  shows "\<exists>run. (\<forall>i. find_resolution (k_resolutions t) i =
        (case find (\<lambda>x. fst x = i) (computed_resolutions L nz db) of None \<Rightarrow> find_resolution (k_resolutions db) i
         | Some x \<Rightarrow> Some (row_of (k_resolutions db) at' run x)))
    \<and> k_events t = k_events db @ concat (map (events_of (k_resolutions db) at' run) (computed_resolutions L nz db))
    \<and> facts_part t = facts_part db"
  using assms
proof (cases rule: reconcile_cases)
  case (stored run s cs counts)
  have s: "k_resolutions s = k_resolutions db" "k_events s = k_events db" "facts_part s = facts_part db"
    by (subst stored(1), simp add: facts_part_def)+
  have todo: "resolutions_of (eligible_interfaces L db) cs = computed_resolutions L nz db"
    by (simp add: computed_resolutions_def stored(3))
  from store_attachments_Inr [OF stored(4)]
  have t: "k_resolutions t = fold (\<lambda>x. upsert_resolution (row_of (k_resolutions db) at' run x)) (computed_resolutions L nz db) (k_resolutions db)"
      "k_events t = k_events db @ concat (map (events_of (k_resolutions db) at' run) (computed_resolutions L nz db))" "facts_part t = facts_part db"
    unfolding s todo by simp_all
  have "distinct (map fst (computed_resolutions L nz db))" by (simp add: computed_resolutions_def distinct_interfaces)
  from fold_upsert [OF this, of "k_resolutions db" "k_resolutions db"] t show ?thesis by auto
qed simp

text \<open>A reconciliation is all or nothing. If it raises, for whatever reason and at whatever point, every table is what
  it was before, but for the record of the failed run at the end of the table of runs.\<close>

theorem reconcile_attachments_atomic:
  assumes "reconcile_attachments L fp nz at' db = (Inl e, t)"
  shows "\<exists>r. t = db\<lparr>k_correlations := k_correlations db @ [r]\<rparr> \<and> cr_status r = ''failed'' \<and> cr_finished_at r = Some at'"
  using run_atomic [OF assms [unfolded reconcile_attachments_def]] by blast

section \<open>One workstation on one switch\<close>

lemma not_isl_run: "\<not> isl (fst p) \<Longrightarrow> (\<And>x t. p = (Inr x, t) \<Longrightarrow> thesis) \<Longrightarrow> thesis"
  by (cases p; cases "fst p") auto

definition ademo_db :: corr_db where
  "ademo_db = \<lparr>k_hosts = [\<lparr>ho_id = 9, ho_key = ''pc'', ho_status = ''active'', ho_site = ''hq''\<rparr>],
     k_nics = [\<lparr>nc_id = 5, nc_asset_id = 9, nc_mac = Some ''aa-bb-cc-dd-ee-01'', nc_lifecycle = ''active''\<rparr>],
     k_ip_seen = [(9, True)], k_host_seen = [],
     k_sources = [\<lparr>se_id = 1, se_name = ''sw'', se_driver = ''snmp_switch'', se_site = ''hq'',
       se_options = Doc (JObj [(''topology_role'', JStr ''core'')])\<rparr>],
     k_devices = [], k_runs = [\<lparr>sw_id = 3, sw_source = 1, sw_status = ''success'', sw_outcomes = Doc (JObj [(''fdb'', JStr ''success_with_rows'')])\<rparr>],
     k_ports = [\<lparr>po_source = 1, po_port_key = ''p1'', po_name = ''p1'', po_alias = [], po_oper_status = ''up'', po_last_seen_at = ''T1''\<rparr>],
     k_fdb = [\<lparr>fd_source = 1, fd_vlan_key = ''v1'', fd_vlan_id = Some 1, fd_mac = ''AA:BB:CC:DD:EE:01'', fd_port_key = ''p1'',
       fd_status = ''learned'', fd_last_seen_at = ''T1'', fd_run_id = 3\<rparr>],
     k_lldp = [], k_heads = [], k_intent_assets = [], k_intent_links = [],
     k_links = [], k_link_events = [], k_roles = [], k_candidates = [], k_resolutions = [], k_events = [], k_findings = [], k_correlations = []\<rparr>"

abbreviation "ademo_L \<equiv> demo_lib (\<lambda>_. 0)"

abbreviation "ademo_nz \<equiv> (\<lambda>driver d. Some d)"

definition ademo_candidate :: candidate where
  "ademo_candidate = hd (attachment_candidates ademo_L ademo_db [(1, 0)])"

theorem attachment_candidates_sound_witness:
  "\<exists>f n run. backed_by ademo_L ademo_db ademo_candidate f n run \<and> cd_score ademo_candidate = 75"
proof -
  have c: "ademo_candidate \<in> set (attachment_candidates ademo_L ademo_db [(1, 0)])" by code_simp
  have "cd_score ademo_candidate = 75" by code_simp
  with attachment_candidates_sound [OF c] show ?thesis by blast
qed

text \<open>A single candidate that is confirmed is stored without any error, and an error of the last step undoes everything.\<close>

lemma store_single:
  assumes "re_status r = ''confirmed''"
  shows "\<not> isl (fst (store_attachments (\<lambda>_. Inr n) [c] [(i, a, r)] at' run s))"
proof -
  have "finding_of_status (re_status r) = None" unfolding assms by code_simp
  then show ?thesis
    by (simp add: store_attachments_def write_candidates_def insert_candidate_def write_resolution_def finish_run_def Let_def
        seq_def bind_def gets_def modify_def lift_def ret_def split: option.split)
qed

lemma store_unfinished: "isl (fst (store_attachments (\<lambda>_. Inl e) cs todo at' run s))"
proof (rule ccontr)
  assume "\<not> isl (fst (store_attachments (\<lambda>_. Inl e) cs todo at' run s))"
  then show False
    by (rule not_isl_run) (auto simp: store_attachments_def bind_Inr seq_Inr gets_def lift_Inr)
qed

lemma isl_reconcile:
  "\<exists>run s. isl (fst (reconcile_attachments L fp nz at' db)) \<longleftrightarrow> isl (fst (store_attachments fp
     (attachment_candidates L db (topology_depths (current_links db) (core_sources nz db))) (computed_resolutions L nz db) at' run s))"
proof -
  have core: "core_sources nz (k_correlations_update x db) = core_sources nz db" for x by (simp add: core_sources_def)
  let ?run = "next_run_id (map cr_id (k_correlations db))"
  show ?thesis
    by (rule exI [of _ ?run], rule exI [of _ "snd (start_run ''attachments'' at' db)"])
      (simp add: reconcile_attachments_def start_run_def transactional_def computed_resolutions_def Let_def core finish_run_def
        seq_def bind_def gets_def modify_def ret_def raise_def split: prod.split sum.split)
qed

theorem reconcile_attachments_stores_witness:
  "\<exists>j t. reconcile_attachments ademo_L (\<lambda>_. Inr 0) ademo_nz ''T2'' ademo_db = (Inr j, t)
     \<and> map_option rs_status (find_resolution (k_resolutions t) 5) = Some ''confirmed''"
proof -
  let ?run = "reconcile_attachments ademo_L (\<lambda>_. Inr 0) ademo_nz ''T2'' ademo_db"
  let ?todo = "computed_resolutions ademo_L ademo_nz ademo_db"
  have "map (\<lambda>x. (fst x, re_status (snd (snd x)))) ?todo = [(5, ''confirmed'')]" by code_simp
  then obtain a r where todo: "?todo = [(5, a, r)]" and r: "re_status r = ''confirmed''" by (cases ?todo) auto
  have "length (attachment_candidates ademo_L ademo_db (topology_depths (current_links ademo_db) (core_sources ademo_nz ademo_db))) = 1"
    by code_simp
  then obtain c where "attachment_candidates ademo_L ademo_db (topology_depths (current_links ademo_db) (core_sources ademo_nz ademo_db)) = [c]"
    by (metis One_nat_def length_0_conv length_Suc_conv)
  with isl_reconcile [of ademo_L "\<lambda>_. Inr 0" ademo_nz "''T2''" ademo_db] store_single [OF r] have "\<not> isl (fst ?run)"
    unfolding todo by metis
  then obtain j t where run: "?run = (Inr j, t)" by (rule not_isl_run)
  from reconcile_attachments_stores [OF run] obtain k where
    "find_resolution (k_resolutions t) 5 = (case find (\<lambda>x. fst x = 5) ?todo of
       None \<Rightarrow> find_resolution (k_resolutions ademo_db) 5 | Some x \<Rightarrow> Some (row_of (k_resolutions ademo_db) ''T2'' k x))"
    by blast
  then have "map_option rs_status (find_resolution (k_resolutions t) 5) = Some ''confirmed''" unfolding todo using r by simp
  with run show ?thesis by (intro exI conjI)
qed

theorem reconcile_attachments_atomic_witness:
  "\<exists>e t r. reconcile_attachments ademo_L (\<lambda>_. Inl DatabaseError) ademo_nz ''T2'' ademo_db = (Inl e, t)
     \<and> t = ademo_db\<lparr>k_correlations := [r]\<rparr> \<and> cr_status r = ''failed''"
proof -
  let ?run = "reconcile_attachments ademo_L (\<lambda>_. Inl DatabaseError) ademo_nz ''T2'' ademo_db"
  have "isl (fst ?run)"
    using isl_reconcile [of ademo_L "\<lambda>_. Inl DatabaseError" ademo_nz "''T2''" ademo_db] store_unfinished by blast
  then obtain e t where run: "?run = (Inl e, t)" by (metis isl_def prod.collapse)
  have none: "k_correlations ademo_db = []" by (simp add: ademo_db_def)
  from reconcile_attachments_atomic [OF run] obtain r where r: "t = ademo_db\<lparr>k_correlations := k_correlations ademo_db @ [r]\<rparr>"
    "cr_status r = ''failed''" by (elim exE conjE)
  from r(1) have "t = ademo_db\<lparr>k_correlations := [r]\<rparr>" unfolding none append_Nil .
  with r(2) run show ?thesis by (intro exI conjI)
qed

end
