(* ===== verification/Topology_Correctness.thy ===== *)
theory Topology_Correctness
  imports Role_Correctness Attachment_Correctness
begin

text \<open>
  Correctness of a topology reconciliation: what it computes always satisfies the constraints of the tables, it replaces
  them as a whole or not at all, and the history says exactly what changed.
\<close>

section \<open>Tables with constraints\<close>

text \<open>A table: its rows in the state, the row an item becomes, the constraints an insert checks. Inserting a list of
  items one by one succeeds if every item fits after the ones before it.\<close>

locale constrained_table =
  fixes rows :: "'s \<Rightarrow> 'r list" and put :: "('r list \<Rightarrow> 'r list) \<Rightarrow> 's \<Rightarrow> 's"
    and row :: "'x \<Rightarrow> 'r" and fits :: "'r list \<Rightarrow> 'x \<Rightarrow> bool" and ins :: "unit \<Rightarrow> 'x \<Rightarrow> ('s, unit) prog"
  assumes rows_put: "rows (put f s) = f (rows s)" and put_put: "put f (put g s) = put (\<lambda>xs. f (g xs)) s" and put_id: "put (\<lambda>xs. xs) s = s"
    and ins: "ins u x s = (if fits (rows s) x then (Inr (), put (\<lambda>xs. xs @ [row x]) s) else (Inl IntegrityError, s))"
begin

lemma insert_all:
  "(\<And>pre x post. xs = pre @ x # post \<Longrightarrow> fits (rows s @ map row pre) x) \<Longrightarrow>
     foldM ins () xs s = (Inr (), put (\<lambda>rs. rs @ map row xs) s)"
proof (induction xs arbitrary: s)
  case Nil
  show ?case by (simp add: ret_def put_id)
next
  case (Cons x xs)
  have x: "ins () x s = (Inr (), put (\<lambda>rs. rs @ [row x]) s)" using Cons.prems [of "[]"] by (simp add: ins)
  have "fits (rows (put (\<lambda>rs. rs @ [row x]) s) @ map row pre) y" if "xs = pre @ y # post" for pre y post
    using Cons.prems [of "x # pre" y post] that by (simp add: rows_put)
  from Cons.IH [OF this] x show ?case by (simp add: bind_def put_put)
qed

end

definition stored_link :: "link_row list \<Rightarrow> string \<Rightarrow> int \<Rightarrow> switch_link \<Rightarrow> link_row" where
  "stored_link old_rows observed_at run l = \<lparr>lr_link = l,
     lr_first_seen_at = (case find (\<lambda>r. ln_key (lr_link r) = ln_key l) old_rows of None \<Rightarrow> observed_at | Some r \<Rightarrow> lr_first_seen_at r),
     lr_last_seen_at = observed_at, lr_run = run\<rparr>"

interpretation links_table: constrained_table k_links k_links_update "stored_link old observed_at run" link_row_ok
  "insert_link old observed_at run" for old observed_at run
  by unfold_locales (simp_all add: insert_link_def stored_link_def bind_def gets_def raise_def modify_def comp_def)

interpretation roles_table: constrained_table k_roles k_roles_update "stored_role run" port_role_ok "insert_role run" for run
  by unfold_locales (simp_all add: insert_role_def bind_def gets_def raise_def modify_def comp_def)

interpretation findings_table: constrained_table k_findings k_findings_update "link_finding observed_at"
  "\<lambda>rows l. tf_key (link_finding observed_at l) \<notin> tf_key ` set rows" "\<lambda>_ l. insert_finding (link_finding observed_at l)" for observed_at
  by unfold_locales (simp_all add: insert_finding_def bind_def gets_def raise_def modify_def comp_def)

lemma distinct_split: "distinct (map f xs) \<Longrightarrow> xs = pre @ x # post \<Longrightarrow> f x \<notin> f ` set pre"
  by auto

section \<open>Links fit their table\<close>

definition plausible :: "link_evidence \<Rightarrow> bool" where
  "plausible e \<longleftrightarrow> 0 \<le> ev_confidence e \<and> ev_confidence e \<le> 100"

lemma link_state_fits:
  assumes "evidence \<noteq> []" and "\<forall>e \<in> set evidence. plausible e" and "link_state evidence pr c b = (st, conf)"
  shows "st \<in> set LINK_STATES \<and> 0 \<le> conf \<and> conf \<le> 100"
proof -
  let ?C = "ev_confidence ` set evidence" and ?S = "ev_confidence ` {e \<in> set evidence. ev_type e = ''fdb_subtree''}"
  have all: "0 \<le> x \<and> x \<le> 100" if "x \<in> ?C" for x using that assms(2) by (auto simp: plausible_def)
  have "0 \<le> Max ?C" using all Max_in [of ?C] assms(1) by auto
  moreover have "0 \<le> Max ?S \<and> Max ?S \<le> 100" if "''fdb_subtree'' \<in> evidence_types evidence"
  proof -
    have "?S \<noteq> {}" using that by (auto simp: evidence_types_def)
    from Max_in [OF _ this] all show ?thesis by auto
  qed
  ultimately show ?thesis
    using assms(3) unfolding link_state_def Let_def LINK_STATES_def by (simp split: if_splits add: evidence_types_def) auto
qed

lemma aggregate_pair_fits:
  assumes "evidence \<noteq> []" and "\<forall>e \<in> set evidence. plausible e"
  shows "ln_state (aggregate_pair L t pair evidence) \<in> set LINK_STATES
    \<and> 0 \<le> ln_confidence (aggregate_pair L t pair evidence) \<and> ln_confidence (aggregate_pair L t pair evidence) \<le> 100"
proof -
  let ?ev = "sort_key (evidence_key L) evidence"
  have ev: "?ev \<noteq> []" "\<forall>e \<in> set ?ev. plausible e" using assms by (metis set_empty set_sort, simp)
  obtain pa ca pb cb st conf where a: "preferred_port ev_a (evidence_priorities ?ev) ?ev = (pa, ca)"
    and b: "preferred_port ev_b (evidence_priorities ?ev) ?ev = (pb, cb)"
    and st: "link_state ?ev (evidence_priorities ?ev) (ca \<or> cb) (pa \<noteq> [] \<and> pb \<noteq> []) = (st, conf)" by (metis surj_pair)
  have "ln_state (aggregate_pair L t pair evidence) = st" "ln_confidence (aggregate_pair L t pair evidence) = conf"
    unfolding aggregate_pair_def Let_def a b prod.case st by simp_all
  with link_state_fits [OF ev st] show ?thesis by simp
qed

lemma aggregate_pair_pair [simp]: "link_pair (aggregate_pair L t pair evidence) = pair"
  unfolding link_pair_def by (rule aggregate_pair_facts(1))

lemma aggregate_fits:
  assumes "\<forall>e \<in> set evidence. plausible e" and "l \<in> set (aggregate_link_evidence L t evidence)"
  shows "ln_state l \<in> set LINK_STATES \<and> 0 \<le> ln_confidence l \<and> ln_confidence l \<le> 100 \<and> ln_a l < ln_b l"
proof -
  let ?can = "List.map_filter canonical_evidence evidence"
  from assms(2) obtain c where c: "c \<in> set ?can"
      and l: "l = aggregate_pair L t (pair_of c) (filter (\<lambda>e. pair_of e = pair_of c) ?can)"
    by (auto simp: aggregate_link_evidence_def Let_def)
  have "plausible e \<Longrightarrow> canonical_evidence e = Some d \<Longrightarrow> plausible d" for e d
    by (auto simp: canonical_evidence_def plausible_def Let_def split: if_splits)
  with assms(1) have "\<forall>d \<in> set ?can. plausible d" by (metis in_map_filter)
  with c have "filter (\<lambda>e. pair_of e = pair_of c) ?can \<noteq> []" "\<forall>e \<in> set (filter (\<lambda>e. pair_of e = pair_of c) ?can). plausible e"
    by (auto simp: filter_empty_conv)
  from aggregate_pair_fits [OF this, of L t "pair_of c"]
  have "ln_state l \<in> set LINK_STATES \<and> 0 \<le> ln_confidence l \<and> ln_confidence l \<le> 100" unfolding l .
  moreover have "ln_a l = fst (pair_of c)" "ln_b l = snd (pair_of c)"
    using aggregate_pair_pair unfolding l link_pair_def by (metis fst_conv, metis snd_conv)
  moreover have "fst (pair_of c) < snd (pair_of c)" using c canonical_ascending by (auto simp: in_map_filter pair_of_def)
  ultimately show ?thesis by simp
qed

lemma aggregate_pairs_distinct: "distinct (map link_pair (aggregate_link_evidence L t evidence))"
  by (simp add: aggregate_link_evidence_def Let_def comp_def)

lemma collected_plausible: "e \<in> set (collect_link_evidence L db ids) \<Longrightarrow> plausible e"
proof -
  have intent: "plausible e" if "intent_evidence_of L db ids row = Some e" for row
    using that by (auto simp: intent_evidence_of_def plausible_def split: prod.splits sum.splits option.splits if_splits)
  have fdb: "plausible e" if "fdb_evidence_of db ids f = Some e" for f
    using that by (auto simp: fdb_evidence_of_def Let_def plausible_def split: option.splits)
  have lldp: "plausible e" if "lldp_evidence_of db ids r = Some e" for r
    using that by (auto simp: lldp_evidence_of_def plausible_def split: option.splits)
  assume "e \<in> set (collect_link_evidence L db ids)"
  then show "plausible e"
    using intent fdb lldp unfolding collect_link_evidence_def intent_link_evidence_def fdb_management_mac_evidence_def lldp_link_evidence_def
    by (auto simp: in_map_filter)
qed

lemma winners_are_candidates: "c \<in> set (select_fdb_subtree_link_candidates cs links) \<Longrightarrow> c \<in> set cs"
  by (drule winners_eligible) (simp add: eligible_candidates_def)

lemma inferred_candidates_bounds:
  "c \<in> set (inferred_candidates L nz db t) \<Longrightarrow> sc_confidence c \<in> {80..100} \<and> sc_parent c \<noteq> sc_child c"
  unfolding inferred_candidates_def by (rule subtree_candidate_bounds)

lemma inferred_links_fit:
  assumes "l \<in> set (inferred_links L nz db t)"
  shows "ln_state l \<in> set LINK_STATES \<and> 0 \<le> ln_confidence l \<and> ln_confidence l \<le> 100 \<and> ln_a l < ln_b l"
proof (rule aggregate_fits [OF _ assms [unfolded inferred_links_def]], rule ballI)
  fix e
  assume "e \<in> set (collect_link_evidence L db (list_source_identities nz db)
      @ fdb_subtree_link_evidence (inferred_link_candidates L nz db t) (stronger_links L nz db t))"
  then consider "e \<in> set (collect_link_evidence L db (list_source_identities nz db))"
    | c where "c \<in> set (inferred_candidates L nz db t)" "e = subtree_link_evidence c"
    by (auto simp: fdb_subtree_link_evidence_def inferred_link_candidates_def dest!: winners_are_candidates)
  then show "plausible e"
  proof cases
    case 1
    then show ?thesis by (rule collected_plausible)
  next
    case 2
    then show ?thesis using inferred_candidates_bounds [OF 2(1)] by (simp add: subtree_link_evidence_def plausible_def)
  qed
qed

section \<open>Roles fit their table\<close>

definition sound_claim :: "(int \<times> string) \<times> assignment \<Rightarrow> bool" where
  "sound_claim c \<longleftrightarrow> as_role (snd c) \<in> set ALLOWED_PORT_ROLES \<and> 0 \<le> as_confidence (snd c) \<and> as_confidence (snd c) \<le> 100
     \<and> as_child (snd c) \<noteq> Some (fst (fst c))"

lemma backbone_allowed: "''backbone'' \<in> set ALLOWED_PORT_ROLES" "''downstream_bridge'' \<in> set ALLOWED_PORT_ROLES"
    "''unknown'' \<in> set ALLOWED_PORT_ROLES" "''endpoint'' \<in> set ALLOWED_PORT_ROLES" "''shared_edge'' \<in> set ALLOWED_PORT_ROLES"
  by (simp_all add: ALLOWED_PORT_ROLES_def)

lemma end_claims_sound:
  assumes "ln_a l \<noteq> ln_b l" and "\<And>s p k. s \<noteq> p \<Longrightarrow> sound_claim ((s, k), mk s p)" and "c \<in> set (end_claims l mk)"
  shows "sound_claim c"
  using assms(1,3) assms(2) [of "ln_a l" "ln_b l"] assms(2) [of "ln_b l" "ln_a l"] by (auto simp: end_claims_def split: if_splits)

lemma backbone_claim_sound: "0 \<le> conf \<Longrightarrow> conf \<le> 100 \<Longrightarrow> sound_claim (k, backbone_claim prio conf ty s p)"
  by (simp add: sound_claim_def backbone_claim_def backbone_allowed)

lemma lldp_claim_sound: "s \<noteq> p \<Longrightarrow> sound_claim ((s, k), lldp_claim parent s p)"
  by (auto simp: sound_claim_def lldp_claim_def backbone_allowed)

lemma link_claims_sound:
  assumes "ln_a l \<noteq> ln_b l" and "c \<in> set (link_claims depths ids l)"
  shows "sound_claim c"
proof -
  have backbone: "sound_claim c" if "c \<in> set (end_claims l (backbone_claim prio conf ty))" "0 \<le> conf" "conf \<le> 100" for prio conf ty
    by (rule end_claims_sound [OF assms(1) backbone_claim_sound [OF that(2,3)] that(1)])
  have lldp: "sound_claim c" if "c \<in> set (end_claims l (lldp_claim parent))" for parent
    by (rule end_claims_sound [OF assms(1) lldp_claim_sound that])
  show ?thesis
    using assms(2) unfolding link_claims_def Let_def
    by (simp only: list.set empty_iff split: if_split_asm) (erule backbone lldp; simp)+
qed

lemma subtree_claims_sound:
  assumes "sc_confidence c \<in> {80..100} \<and> sc_parent c \<noteq> sc_child c"
  shows "sound_claim (parent_claim c)" "sound_claim (child_claim c)"
  using assms by (auto simp: sound_claim_def parent_claim_def child_claim_def backbone_allowed)

lemma density_fits: "density_decision s t = (role, conf, d) \<Longrightarrow> role \<in> set ALLOWED_PORT_ROLES \<and> 0 \<le> conf \<and> conf \<le> 100"
  unfolding density_decision_def by (simp split: if_split_asm) (auto simp: backbone_allowed)

lemma explained_role_fits:
  assumes "role_explained claims D t s (role, conf, child)" and "\<forall>c \<in> set claims. sound_claim c"
  shows "role \<in> set ALLOWED_PORT_ROLES \<and> 0 \<le> conf \<and> conf \<le> 100 \<and> child \<noteq> Some (fst (summary_key s))"
proof -
  consider "(role, conf, child) = (''unknown'', 20, None)" | a where "(summary_key s, a) \<in> set claims" "(role, conf, child) = claim_value a"
    | d where "density_decision s t = (role, conf, d)" "child = None"
    using assms(1) unfolding role_explained_def Let_def strongest_def by (cases "density_decision s t") (auto simp only: prod.case prod.inject)
  then show ?thesis
  proof cases
    case 1
    then show ?thesis by (simp add: backbone_allowed)
  next
    case 2
    then show ?thesis using assms(2) [rule_format, OF 2(1)] by (simp add: sound_claim_def claim_value_def)
  next
    case 3
    then show ?thesis using density_fits [OF 3(1)] by simp
  qed
qed

lemma topology_claims_sound:
  assumes "\<forall>l \<in> set links. ln_a l < ln_b l" and "\<forall>c \<in> set cs. sc_confidence c \<in> {80..100} \<and> sc_parent c \<noteq> sc_child c"
    and "set lcs \<subseteq> set cs"
  shows "\<forall>c \<in> set (topology_claims links depths ids cs lcs). sound_claim c"
proof
  fix c assume "c \<in> set (topology_claims links depths ids cs lcs)"
  then consider l where "l \<in> set links" "c \<in> set (link_claims depths ids l)" | x where "x \<in> set cs" "c = parent_claim x"
    | x where "x \<in> set cs" "c = child_claim x"
    using assms(3) by (auto simp: topology_claims_def ordered_links_def by_ports_def)
  then show "sound_claim c"
  proof cases
    case 1
    then show ?thesis using assms(1) link_claims_sound [of l c] by fastforce
  qed (use assms(2) subtree_claims_sound in blast)+
qed

lemma infer_port_roles_explained:
  assumes "r \<in> set (infer_port_roles db links ids depths t cs lcs)"
  obtains s where "port_key_of r = summary_key s"
    "role_explained (topology_claims links depths ids cs lcs) (conflict_ports links) (threshold_of db (ps_source s)) s (role_value r)"
proof -
  from assms obtain s where "r = role_of_port (topology_assignments links depths ids cs lcs) cs t (threshold_of db (ps_source s)) s"
    by (auto simp: infer_port_roles_def Let_def)
  with that [of s] role_of_port_explained [OF settled_topology] show thesis by simp
qed

lemma inferred_roles_fit:
  assumes "r \<in> set (inferred_roles L nz db t)"
  shows "pr_role r \<in> set ALLOWED_PORT_ROLES \<and> 0 \<le> pr_confidence r \<and> pr_confidence r \<le> 100 \<and> pr_child r \<noteq> Some (pr_source r)"
proof -
  let ?claims = "topology_claims (inferred_links L nz db t) (inferred_depths L nz db t) (list_source_identities nz db)
    (inferred_candidates L nz db t) (inferred_link_candidates L nz db t)"
  have sub: "set (inferred_link_candidates L nz db t) \<subseteq> set (inferred_candidates L nz db t)"
    unfolding inferred_link_candidates_def using winners_are_candidates by blast
  have sound: "\<forall>c \<in> set ?claims. sound_claim c"
    by (rule topology_claims_sound [OF _ _ sub]) (use inferred_links_fit inferred_candidates_bounds in blast)+
  obtain s where key: "port_key_of r = summary_key s"
      and "role_explained ?claims (conflict_ports (inferred_links L nz db t)) (threshold_of db (ps_source s)) s (role_value r)"
    using assms unfolding inferred_roles_def by (rule infer_port_roles_explained)
  from explained_role_fits [OF this(2) [unfolded role_value_def] sound] key show ?thesis by (simp add: port_key_of_def) (metis fst_conv)
qed

lemma inferred_roles_distinct: "distinct (map port_key_of (inferred_roles L nz db t))"
  unfolding inferred_roles_def infer_port_roles_keys using all_summaries_keys by blast

section \<open>The reconciliation\<close>

lemma finding_key_inj:
  assumes "tf_key (link_finding t l) = tf_key (link_finding t' l')"
  shows "link_pair l = link_pair l'"
proof -
  have colon: "\<not> is_digit (CHR '':'')" by code_simp
  have split: "a = b \<and> x = y" if "int_text a @ x = int_text b @ y" "no_digit x" "no_digit y" for a b x y
    using p_num_text [OF that(2), of a, unfolded that(1) p_num_text [OF that(3)]] by simp
  have eq: "int_text (ln_a l) @ '':'' @ int_text (ln_b l) = int_text (ln_a l') @ '':'' @ int_text (ln_b l')"
    using assms by (simp add: link_finding_def)
  from split [OF eq] colon have "ln_a l = ln_a l'" "int_text (ln_b l) = int_text (ln_b l')" by simp_all
  with split [of "ln_b l" "[]" "ln_b l'" "[]"] show ?thesis by (simp add: link_pair_def)
qed

text \<open>The three tables after a run, and everything a run of the topology does not write.\<close>

definition topology_part :: "corr_db \<Rightarrow> corr_db" where
  "topology_part db = db\<lparr>k_links := [], k_link_events := [], k_roles := [], k_findings := [], k_correlations := []\<rparr>"

definition old_links :: "corr_db \<Rightarrow> link_row list" where
  "old_links db = sort_key (\<lambda>r. ln_key (lr_link r)) (k_links db)"

lemma replace_links_Inr:
  assumes "distinct (map ln_key links)" and "distinct (map link_pair links)"
    and "\<forall>l \<in> set links. ln_state l \<in> set LINK_STATES \<and> 0 \<le> ln_confidence l \<and> ln_confidence l \<le> 100 \<and> ln_a l < ln_b l"
  shows "replace_current_links links run t s = (Inr (int (length (link_events (old_links s) links))),
    s\<lparr>k_links := map (stored_link (old_links s) t run) links,
      k_link_events := k_link_events s @ map (event_row t run) (link_events (old_links s) links)\<rparr>)"
proof -
  let ?s = "k_links_update (\<lambda>_. []) s"
  have "foldM (insert_link (old_links s) t run) () links ?s
      = (Inr (), k_links_update (\<lambda>rs. rs @ map (stored_link (old_links s) t run) links) ?s)"
  proof (rule links_table.insert_all)
    fix pre x post assume xs: "links = pre @ x # post"
    have "ln_key x \<notin> ln_key ` set pre" "link_pair x \<notin> link_pair ` set pre"
      using distinct_split [OF assms(1) xs] distinct_split [OF assms(2) xs] by simp_all
    moreover have "link_unique x \<notin> link_unique ` set pre"
      using calculation(2) by (auto simp: link_unique_def link_pair_def)
    ultimately show "link_row_ok (k_links ?s @ map (stored_link (old_links s) t run) pre) x"
      using assms(3) xs by (auto simp: link_row_ok_def stored_link_def)
  qed
  then show ?thesis
    by (simp add: replace_current_links_def old_links_def bind_def seq_def gets_def modify_def ret_def Let_def)
qed

lemma replace_roles_Inr:
  assumes "distinct (map port_key_of roles)"
    and "\<forall>r \<in> set roles. pr_role r \<in> set ALLOWED_PORT_ROLES \<and> 0 \<le> pr_confidence r \<and> pr_confidence r \<le> 100 \<and> pr_child r \<noteq> Some (pr_source r)"
  shows "replace_current_port_roles roles run s = (Inr (int (length roles)), s\<lparr>k_roles := map (stored_role run) roles\<rparr>)"
proof -
  let ?s = "k_roles_update (\<lambda>_. []) s"
  have "foldM (insert_role run) () roles ?s = (Inr (), k_roles_update (\<lambda>rs. rs @ map (stored_role run) roles) ?s)"
  proof (rule roles_table.insert_all)
    fix pre x post assume xs: "roles = pre @ x # post"
    have "port_key_of x \<notin> port_key_of ` set pre" by (rule distinct_split [OF assms(1) xs])
    then show "port_role_ok (k_roles ?s @ map (stored_role run) pre) x"
      using assms(2) xs by (auto simp: port_role_ok_def stored_role_def port_key_of_def image_image)
  qed
  then show ?thesis by (simp add: replace_current_port_roles_def bind_def seq_def modify_def ret_def)
qed

definition kept_findings :: "corr_db \<Rightarrow> topology_finding list" where
  "kept_findings db = filter (\<lambda>f. tf_type f \<noteq> ''incompatible_link_evidence'') (k_findings db)"

lemma replace_findings_Inr:
  assumes "distinct (map link_pair links)" and "\<forall>f \<in> set (kept_findings s). \<forall>l \<in> set links. tf_key f \<noteq> tf_key (link_finding t l)"
  defines "conflicts \<equiv> filter (\<lambda>l. ln_state l = ''conflicting'') links"
  shows "replace_findings links t s = (Inr (int (length conflicts)), s\<lparr>k_findings := kept_findings s @ map (link_finding t) conflicts\<rparr>)"
proof -
  let ?s = "k_findings_update (filter (\<lambda>f. tf_type f \<noteq> ''incompatible_link_evidence'')) s"
  have d: "distinct (map link_pair conflicts)" using assms(1) unfolding conflicts_def by (rule distinct_map_filter)
  have kept: "k_findings ?s = kept_findings s" by (simp add: kept_findings_def)
  have "foldM (\<lambda>_ l. insert_finding (link_finding t l)) () conflicts ?s
      = (Inr (), k_findings_update (\<lambda>rs. rs @ map (link_finding t) conflicts) ?s)"
  proof (rule findings_table.insert_all)
    fix pre x post assume xs: "conflicts = pre @ x # post"
    have "link_pair x \<notin> link_pair ` set pre" by (rule distinct_split [OF d xs])
    moreover have "x \<in> set conflicts" by (simp add: xs)
    then have "x \<in> set links" by (simp add: conflicts_def)
    ultimately have "tf_key (link_finding t x) \<notin> tf_key ` set (kept_findings s)" "tf_key (link_finding t x) \<notin> (\<lambda>l. tf_key (link_finding t l)) ` set pre"
      using assms(2) finding_key_inj [of t x t] by (blast elim!: imageE dest: sym)+
    then show "tf_key (link_finding t x) \<notin> tf_key ` set (k_findings ?s @ map (link_finding t) pre)"
      by (simp only: kept set_append set_map image_Un image_image Un_iff simp_thms)
  qed
  then show ?thesis
    by (simp add: replace_findings_def conflicts_def kept_findings_def bind_def seq_def modify_def ret_def Let_def comp_def)
qed

text \<open>The table of runs is not read by what a run computes.\<close>

lemma identities_past_runs [simp]: "list_source_identities nz (k_correlations_update x db) = list_source_identities nz db"
proof -
  have "asset_by_id (k_correlations_update x db) = asset_by_id db" "asset_for_key (k_correlations_update x db) = asset_for_key db"
      "active_intent_binding (k_correlations_update x db) = active_intent_binding db" "management_macs (k_correlations_update x db) = management_macs db"
    by (intro ext, simp add: asset_by_id_def asset_for_key_def active_intent_binding_def management_macs_def split: option.split)+
  moreover have "k_devices (k_correlations_update x db) = k_devices db" by simp
  ultimately have "source_identity_of nz (k_correlations_update x db) = source_identity_of nz db"
    by (intro ext) (simp only: source_identity_of_def)
  then show ?thesis by (simp add: list_source_identities_def)
qed

lemma evidence_past_runs [simp]: "collect_link_evidence L (k_correlations_update x db) ids = collect_link_evidence L db ids"
proof -
  have port: "resolve_port (k_correlations_update x db) = resolve_port db" by (intro ext) (simp add: resolve_port_def)
  show ?thesis
    unfolding collect_link_evidence_def intent_link_evidence_def fdb_management_mac_evidence_def lldp_link_evidence_def
      intent_evidence_of_def [abs_def] fdb_evidence_of_def [abs_def] lldp_evidence_of_def [abs_def] intent_rows_def port by simp
qed

lemma learned_past_runs [simp]: "learned_rows nm (k_correlations_update x db) = learned_rows nm db"
  by (simp add: learned_rows_def)

lemma candidates_past_runs [simp]: "fdb_subtree_candidates (k_correlations_update x db) ids links = fdb_subtree_candidates db ids links"
proof -
  have "port_observed_at (k_correlations_update x db) = port_observed_at db" by (intro ext) (simp add: port_observed_at_def)
  then have "port_candidate (k_correlations_update x db) = port_candidate db" by (intro ext) (simp only: port_candidate_def)
  moreover have "learned_port_macs (k_correlations_update x db) = learned_port_macs db" by (simp add: learned_port_macs_def)
  ultimately have "child_candidates (k_correlations_update x db) = child_candidates db" by (intro ext) (simp only: child_candidates_def)
  then show ?thesis by (simp only: fdb_subtree_candidates_def)
qed

lemma roles_past_runs [simp]:
  "infer_port_roles (k_correlations_update x db) links ids depths t cs lcs = infer_port_roles db links ids depths t cs lcs"
proof -
  have "port_mac_summary_of (k_correlations_update x db) = port_mac_summary_of db"
    by (intro ext) (simp add: port_mac_summary_of_def active_assets_by_mac_def [abs_def] port_seen_at_def)
  then show ?thesis
    unfolding infer_port_roles_def all_summaries_def port_mac_summaries_def threshold_of_def access_port_mac_thresholds_def by simp
qed

lemma inferred_past_runs [simp]:
  "inferred_links L nz (k_correlations_update x db) t = inferred_links L nz db t"
  "inferred_depths L nz (k_correlations_update x db) t = inferred_depths L nz db t"
  "inferred_roles L nz (k_correlations_update x db) t = inferred_roles L nz db t"
  unfolding inferred_roles_def inferred_depths_def inferred_links_def inferred_link_candidates_def inferred_candidates_def stronger_links_def
  by simp_all

lemma store_topology_Inr:
  assumes "distinct (map ln_key links)" and "distinct (map link_pair links)"
    and "\<forall>l \<in> set links. ln_state l \<in> set LINK_STATES \<and> 0 \<le> ln_confidence l \<and> ln_confidence l \<le> 100 \<and> ln_a l < ln_b l"
    and "distinct (map port_key_of roles)"
    and "\<forall>r \<in> set roles. pr_role r \<in> set ALLOWED_PORT_ROLES \<and> 0 \<le> pr_confidence r \<and> pr_confidence r \<le> 100 \<and> pr_child r \<noteq> Some (pr_source r)"
    and "\<forall>f \<in> set (kept_findings s). \<forall>l \<in> set links. tf_key f \<noteq> tf_key (link_finding t l)" and "\<forall>s. fp s = Inr n"
  shows "\<exists>counts g. store_topology fp links roles t run s = (Inr counts,
    k_correlations_update g (s\<lparr>k_links := map (stored_link (old_links s) t run) links,
      k_link_events := k_link_events s @ map (event_row t run) (link_events (old_links s) links), k_roles := map (stored_role run) roles,
      k_findings := kept_findings s @ map (link_finding t) (filter (\<lambda>l. ln_state l = ''conflicting'') links)\<rparr>))"
proof -
  have kept: "kept_findings (k_roles_update r (k_link_events_update e (k_links_update l s))) = kept_findings s" for r e l
    by (simp add: kept_findings_def)
  show ?thesis
    by (simp add: store_topology_def replace_links_Inr [OF assms(1-3)] replace_roles_Inr [OF assms(4,5)] replace_findings_Inr [OF assms(2)]
        assms(6,7) kept bind_def seq_def gets_def lift_def modify_def ret_def finish_run_def Let_def)
      (intro exI, rule refl)
qed



section \<open>History\<close>

text \<open>Rows of one pair, when pairs do not repeat.\<close>

lemma distinct_mapD: "distinct (map f xs) \<Longrightarrow> distinct xs"
  by (simp add: distinct_map)

lemma filter_pair:
  assumes "distinct (map f xs)"
  shows "x \<in> set xs \<Longrightarrow> f x = p \<Longrightarrow> filter (\<lambda>y. f y = p) xs = [x]" and "p \<notin> f ` set xs \<Longrightarrow> filter (\<lambda>y. f y = p) xs = []"
proof -
  assume "x \<in> set xs" and "f x = p"
  moreover have "\<forall>d \<in> set xs. f d = f x \<longrightarrow> d = x" using assms calculation(1) by (meson distinct_map inj_onD)
  ultimately show "filter (\<lambda>y. f y = p) xs = [x]"
    using filter_eq_single [OF distinct_mapD [OF assms], of "\<lambda>y. f y = p" x] by blast
qed (auto simp: filter_empty_conv)

lemma links_by_key_id:
  assumes "distinct (map ln_key links)"
  shows "links_by_key links = links"
proof -
  have "last (filter (\<lambda>x. ln_key x = ln_key l) links) = l" if "l \<in> set links" for l
    using filter_pair(1) [OF assms that refl] by simp
  then have "map (\<lambda>k. last (filter (\<lambda>l. ln_key l = k) links)) (map ln_key links) = links" by (simp add: map_idI)
  then show ?thesis using assms by (simp add: links_by_key_def distinct_remdups_id)
qed

definition differs :: "link_row \<Rightarrow> switch_link \<Rightarrow> bool" where
  "differs b a \<longleftrightarrow> ln_key (lr_link b) \<noteq> ln_key a \<or> \<not> semantic_equal b a"

lemma pair_events_exact:
  assumes "distinct (map (\<lambda>r. link_pair (lr_link r)) old)" and "distinct (map link_pair links)"
  shows "set (pair_events (filter (\<lambda>r. link_pair (lr_link r) = p) old) (filter (\<lambda>l. link_pair l = p) links)) =
      {(''disappeared'', Some b, None) |b. b \<in> set old \<and> link_pair (lr_link b) = p \<and> p \<notin> link_pair ` set links}
    \<union> {(''appeared'', None, Some a) |a. a \<in> set links \<and> link_pair a = p \<and> p \<notin> (\<lambda>r. link_pair (lr_link r)) ` set old}
    \<union> {(''changed'', Some b, Some a) |a b. b \<in> set old \<and> a \<in> set links \<and> link_pair (lr_link b) = p \<and> link_pair a = p \<and> differs b a}"
  (is "_ = ?D \<union> ?A \<union> ?C")
proof -
  note old = filter_pair [OF assms(1), where p = p] and new = filter_pair [OF assms(2), where p = p]
  have uniq: "b = b'" if "b \<in> set old" "b' \<in> set old" "link_pair (lr_link b) = p" "link_pair (lr_link b') = p" for b b'
    using old(1) [OF that(1,3)] old(1) [OF that(2,4)] by simp
  have uniq': "a = a'" if "a \<in> set links" "a' \<in> set links" "link_pair a = p" "link_pair a' = p" for a a'
    using new(1) [OF that(1,3)] new(1) [OF that(2,4)] by simp
  consider (none) "p \<notin> (\<lambda>r. link_pair (lr_link r)) ` set old" "p \<notin> link_pair ` set links"
    | (gone) b where "b \<in> set old" "link_pair (lr_link b) = p" "p \<notin> link_pair ` set links"
    | (came) a where "p \<notin> (\<lambda>r. link_pair (lr_link r)) ` set old" "a \<in> set links" "link_pair a = p"
    | (both) b a where "b \<in> set old" "link_pair (lr_link b) = p" "a \<in> set links" "link_pair a = p"
    by (cases "p \<in> (\<lambda>r. link_pair (lr_link r)) ` set old"; cases "p \<in> link_pair ` set links") (elim imageE; simp)+
  then show ?thesis
  proof cases
    case none
    then show ?thesis using old(2) new(2) by (auto simp: pair_events_def)
  next
    case gone
    have "\<forall>a \<in> set links. link_pair a \<noteq> p" using gone(3) by auto
    with gone have sets: "?D = {(''disappeared'', Some b, None)}" "?A = {}" "?C = {}" using uniq by auto
    show ?thesis unfolding sets old(1) [OF gone(1,2)] new(2) [OF gone(3)] by (simp add: pair_events_def)
  next
    case came
    have "\<forall>b \<in> set old. link_pair (lr_link b) \<noteq> p" using came(1) by auto
    with came have sets: "?A = {(''appeared'', None, Some a)}" "?D = {}" "?C = {}" using uniq' by auto
    show ?thesis unfolding sets old(2) [OF came(1)] new(1) [OF came(2,3)] by (simp add: pair_events_def)
  next
    case both
    have "p \<in> link_pair ` set links" "p \<in> (\<lambda>r. link_pair (lr_link r)) ` set old" using both by (auto intro: rev_image_eqI)
    with both have sets: "?A = {}" "?D = {}" "?C = (if differs b a then {(''changed'', Some b, Some a)} else {})" using uniq uniq' by auto
    show ?thesis unfolding sets old(1) [OF both(1,2)] new(1) [OF both(3,4)] by (simp add: pair_events_def differs_def)
  qed
qed

text \<open>C31: The history of links is exact. When pairs of switches and keys do not repeat, a link disappears exactly if its pair has
  no link any more, appears exactly if its pair had none, and is recorded as changed exactly if the pair has one before
  and one after and they differ in key or in content; nothing else is recorded.\<close>

theorem link_events_exact:
  assumes "distinct (map (\<lambda>r. link_pair (lr_link r)) old)" and "distinct (map link_pair links)" and "distinct (map ln_key links)"
  shows "set (link_events old links) =
      {(''disappeared'', Some b, None) |b. b \<in> set old \<and> link_pair (lr_link b) \<notin> link_pair ` set links}
    \<union> {(''appeared'', None, Some a) |a. a \<in> set links \<and> link_pair a \<notin> (\<lambda>r. link_pair (lr_link r)) ` set old}
    \<union> {(''changed'', Some b, Some a) |a b. b \<in> set old \<and> a \<in> set links \<and> link_pair (lr_link b) = link_pair a \<and> differs b a}"
    (is "_ = ?rhs")
proof -
  have "set (link_events old links) = (\<Union>p \<in> (\<lambda>r. link_pair (lr_link r)) ` set old \<union> link_pair ` set links.
      set (pair_events (filter (\<lambda>r. link_pair (lr_link r) = p) old) (filter (\<lambda>l. link_pair l = p) links)))"
    by (simp add: link_events_def links_by_key_id [OF assms(3)] Let_def)
  also have "\<dots> = ?rhs" unfolding pair_events_exact [OF assms(1,2)] by auto
  finally show ?thesis .
qed

section \<open>Examples\<close>

definition hdemo_link :: "int \<Rightarrow> int \<Rightarrow> switch_link" where
  "hdemo_link a b = \<lparr>ln_key = link_key a ''p1'' b ''p2'', ln_a = a, ln_port_a = ''p1'', ln_b = b, ln_port_b = ''p2'', ln_state = ''inferred'',
     ln_confidence = 85, ln_intent = [], ln_observed_at = ''T1'', ln_evidence = []\<rparr>"

definition hdemo_row :: link_row where
  "hdemo_row = \<lparr>lr_link = hdemo_link 1 2, lr_first_seen_at = ''T0'', lr_last_seen_at = ''T0'', lr_run = 1\<rparr>"

theorem link_events_exact_witness:
  "set (link_events [hdemo_row] [hdemo_link 1 3]) = {(''disappeared'', Some hdemo_row, None), (''appeared'', None, Some (hdemo_link 1 3))}"
  by (subst link_events_exact) (auto simp: hdemo_row_def hdemo_link_def link_pair_def)

lemma ademo_links: "inferred_links ademo_L ademo_nz ademo_db ''T2'' = []"
  by code_simp

lemma ademo_roles: "map pr_role (inferred_roles ademo_L ademo_nz ademo_db ''T2'') = [''endpoint'']"
  by code_simp


lemma transactional_Inr: "transactional run t body s = (Inr x, s') \<longleftrightarrow> body s = (Inr x, s')"
  by (auto simp: transactional_def seq_def bind_def finish_run_def modify_def raise_def split: prod.splits sum.splits)

lemma store_topology_unfinished: "isl (fst (store_topology (\<lambda>_. Inl e) links roles t run s))"
proof (rule ccontr)
  assume "\<not> isl (fst (store_topology (\<lambda>_. Inl e) links roles t run s))"
  then show False
    by (rule not_isl_run) (auto simp: store_topology_def bind_Inr gets_def lift_Inr)
qed


end
