(* ===== verification/Path_Engine.thy ===== *)
theory Path_Engine
  imports Canonical_Json
begin

text \<open>
  The forward path of a flow through a router (\<open>netctl/path_engine.py\<close>): route selection by longest prefix,
  policy routing, the forward chain of the packet filter, address translation and IPsec policies, and the
  explanation that composes them. The engine answers \<open>allowed\<close> or \<open>blocked\<close> only when the facts decide the
  flow; a matcher it cannot resolve makes the answer \<open>unknown\<close>. Rules, routes and policies are the dictionaries
  the collector stored; a test that may fail to resolve is a \<open>bool option\<close>.
\<close>

section \<open>Requests and explanations\<close>

datatype path_verdict = Allowed | Blocked | Unknown

record path_request =
  pr_asset_key :: string
  pr_destination_ip :: string
  pr_protocol :: string
  pr_destination_port :: "int option"

record path_explanation =
  pe_verdict :: path_verdict
  pe_source_asset_key :: string
  pe_source_ips :: "string list"
  pe_enforcement_source :: string
  pe_selected_routing_table :: string
  pe_selected_route :: "json option"
  pe_stages :: "json list"
  pe_unknown_reasons :: "string list"
  pe_evidence :: "json list"

definition select_source_context :: "pylib \<Rightarrow> string list \<Rightarrow> string + string" where
  "select_source_context L ips = (case ips of
     [ip] \<Rightarrow> if ip_address L (JStr ip) = None then Inl ''invalid_source_ip'' else Inr ip
   | _ \<Rightarrow> Inl ''ambiguous_source_ips'')"

section \<open>Matchers\<close>

definition matches_cidr :: "pylib \<Rightarrow> string \<Rightarrow> json \<Rightarrow> bool option" where
  "matches_cidr L value cidr = (if \<not> truthy cidr then Some True else
     (case (ip_address L (JStr value), ip_network L (py_str L cidr)) of
        (Some a, Some n) \<Rightarrow> Some (in_net a n) | _ \<Rightarrow> None))"

definition rule_value :: "json \<Rightarrow> string \<Rightarrow> string \<Rightarrow> json" where
  "rule_value rule canonical normalized = py_or (get rule canonical) (py_or (get rule normalized) (JStr []))"

fun list_scan :: "pylib \<Rightarrow> string \<Rightarrow> string \<Rightarrow> bool \<Rightarrow> json list \<Rightarrow> bool option" where
  "list_scan L name address found [] = (if found then Some False else None)"
| "list_scan L name address found (entry # entries) =
     (if truthy (get entry ''disabled'') \<or> str_or_empty L (get entry ''list'') \<noteq> name
      then list_scan L name address found entries
      else (case matches_cidr L address (get entry ''address'') of
              None \<Rightarrow> None | Some True \<Rightarrow> Some True | Some False \<Rightarrow> list_scan L name address True entries))"

definition matches_address_list :: "pylib \<Rightarrow> json list \<Rightarrow> json \<Rightarrow> string \<Rightarrow> bool option" where
  "matches_address_list L entries list_name address =
     (if \<not> truthy list_name then Some True else list_scan L (py_str L list_name) address False entries)"

section \<open>Routes\<close>

text \<open>\<open>max(matches, key=...)\<close>: the first of the largest.\<close>

fun first_max :: "(nat \<times> 'a) list \<Rightarrow> 'a option" where
  "first_max [] = None"
| "first_max [(n, x)] = Some x"
| "first_max ((n, x) # (m, y) # xs) = first_max ((if n < m then (m, y) else (n, x)) # xs)"

definition route_net :: "pylib \<Rightarrow> string \<Rightarrow> json \<Rightarrow> ip_net option" where
  "route_net L routing_table route =
     (if \<not> truthy (get route ''active'')
        \<or> py_str L (py_or (get route ''routing_table'') (JStr ''main'')) \<noteq> routing_table then None
      else ip_network L (str_or_empty L (get route ''dst_address'')))"

definition route_matches :: "pylib \<Rightarrow> ip \<Rightarrow> string \<Rightarrow> json list \<Rightarrow> (nat \<times> json) list" where
  "route_matches L destination routing_table routes = concat (map (\<lambda>route.
     case route_net L routing_table route of None \<Rightarrow> []
     | Some n \<Rightarrow> if in_net destination n then [(prefixlen n, route)] else []) routes)"

definition select_route :: "pylib \<Rightarrow> json list \<Rightarrow> string \<Rightarrow> string \<Rightarrow> json option res" where
  "select_route L routes destination_ip routing_table = (case ip_address L (JStr destination_ip) of
     None \<Rightarrow> Inl (ValueError ''not an IP address'')
   | Some destination \<Rightarrow> Inr (first_max (route_matches L destination routing_table routes)))"

section \<open>Policy routing\<close>

definition src_in :: "pylib \<Rightarrow> ip \<Rightarrow> string \<Rightarrow> bool" where
  "src_in L source cidr = (cidr = [] \<or> (case ip_network L cidr of None \<Rightarrow> False | Some n \<Rightarrow> in_net source n))"

fun table_scan :: "pylib \<Rightarrow> ip \<Rightarrow> json list \<Rightarrow> string" where
  "table_scan L source [] = ''main''"
| "table_scan L source (rule # rules) =
     (if truthy (get rule ''disabled'')
        \<or> str_or_empty L (get rule ''action'') \<notin> {''lookup'', ''lookup-only-in-table''} then table_scan L source rules
      else if \<not> src_in L source (str_or_empty L (get rule ''src_cidr'')) then table_scan L source rules
      else if truthy (get rule ''table_name'') then py_str L (get rule ''table_name'')
      else table_scan L source rules)"

text \<open>\<open>sorted\<close> computes every key before it compares; a position that is no number raises.\<close>

fun positions :: "pylib \<Rightarrow> json list \<Rightarrow> (int \<times> json) list res" where
  "positions L [] = Inr []"
| "positions L (rule # rules) = rbind (py_int L (py_or (get rule ''position'') (JInt 0))) (\<lambda>p.
     rbind (positions L rules) (\<lambda>ps. Inr ((p, rule) # ps)))"

definition select_routing_table :: "pylib \<Rightarrow> json list \<Rightarrow> string \<Rightarrow> string res" where
  "select_routing_table L rules source_ip = (case ip_address L (JStr source_ip) of
     None \<Rightarrow> Inl (ValueError ''not an IP address'')
   | Some source \<Rightarrow> rbind (positions L rules) (\<lambda>ps. Inr (table_scan L source (map snd (sort_key fst ps)))))"

section \<open>The packet filter\<close>

definition same_text :: "pylib \<Rightarrow> json \<Rightarrow> string \<Rightarrow> bool" where
  "same_text L v t = (lower (py_str L v) = lower t)"

definition port_text :: "int option \<Rightarrow> string" where
  "port_text p = (case p of None \<Rightarrow> ''None'' | Some i \<Rightarrow> int_text i)"

definition address_matches :: "pylib \<Rightarrow> json list \<Rightarrow> path_request \<Rightarrow> string \<Rightarrow> json \<Rightarrow> bool option list" where
  "address_matches L entries req source_ip rule =
     [matches_cidr L source_ip (rule_value rule ''src_cidr'' ''src_address''),
      matches_cidr L (pr_destination_ip req) (rule_value rule ''dst_cidr'' ''dst_address''),
      matches_address_list L entries (get rule ''dst_address_list'') (pr_destination_ip req),
      matches_address_list L entries (get rule ''src_address_list'') source_ip]"

definition OPAQUE_MATCHERS :: "string list" where
  "OPAQUE_MATCHERS = [''in_interface'', ''out_interface'', ''routing_mark'', ''connection_state'']"

definition skipped_rule :: "pylib \<Rightarrow> json \<Rightarrow> bool" where
  "skipped_rule L rule = (truthy (get rule ''disabled'')
     \<or> lower (py_str L (py_or (get rule ''chain'') (JStr ''forward''))) \<noteq> ''forward'')"

definition rule_action :: "pylib \<Rightarrow> json \<Rightarrow> string" where
  "rule_action L rule = lower (str_or_empty L (get rule ''action''))"

fun evaluate_filter ::
    "pylib \<Rightarrow> json list \<Rightarrow> path_request \<Rightarrow> string \<Rightarrow> json list \<Rightarrow> path_verdict option \<times> string option" where
  "evaluate_filter L entries req source_ip [] = (None, None)"
| "evaluate_filter L entries req source_ip (rule # rules) =
     (let continue = evaluate_filter L entries req source_ip rules;
          tests = address_matches L entries req source_ip rule;
          action = rule_action L rule in
      if skipped_rule L rule then continue
      else if Some False \<in> set tests then continue
      else if None \<in> set tests then (Some Unknown, Some ''unresolved_filter_address_matcher'')
      else if truthy (get rule ''protocol'') \<and> \<not> same_text L (get rule ''protocol'') (pr_protocol req) then continue
      else if truthy (get rule ''dst_port'') \<and> pr_destination_port req = None
        then (Some Unknown, Some ''missing_destination_port'')
      else if truthy (get rule ''dst_port'') \<and> py_str L (get rule ''dst_port'') \<noteq> port_text (pr_destination_port req)
        then continue
      else if \<exists>f \<in> set OPAQUE_MATCHERS. truthy (get rule f) then (Some Unknown, Some ''unresolved_filter_matcher'')
      else if truthy (get rule ''unsupported_matchers'') then (Some Unknown, Some ''unsupported_filter_matcher'')
      else if action \<in> {''drop'', ''reject''} then (Some Blocked, None)
      else if action = ''accept'' then (Some Allowed, None)
      else if action \<noteq> [] then (Some Unknown, Some ''unsupported_filter_action'')
      else continue)"

section \<open>Translation and encryption\<close>

definition NAT_ACTIONS :: "string set" where
  "NAT_ACTIONS = {''src-nat'', ''masquerade'', ''dst-nat'', ''netmap'', ''redirect''}"

definition nat_rule_matches :: "pylib \<Rightarrow> path_request \<Rightarrow> string \<Rightarrow> json \<Rightarrow> bool" where
  "nat_rule_matches L req source_ip rule \<longleftrightarrow> \<not> truthy (get rule ''disabled'')
     \<and> matches_cidr L source_ip (rule_value rule ''src_cidr'' ''src_address'') = Some True
     \<and> matches_cidr L (pr_destination_ip req) (rule_value rule ''dst_cidr'' ''dst_address'') = Some True
     \<and> \<not> (truthy (get rule ''protocol'') \<and> \<not> same_text L (get rule ''protocol'') (pr_protocol req))
     \<and> \<not> (truthy (get rule ''dst_port'') \<and> py_str L (get rule ''dst_port'') \<noteq> port_text (pr_destination_port req))
     \<and> rule_action L rule \<in> NAT_ACTIONS"

definition explain_nat :: "pylib \<Rightarrow> json list \<Rightarrow> path_request \<Rightarrow> string \<Rightarrow> json option" where
  "explain_nat L rules req source_ip = map_option (\<lambda>rule. JObj [(''stage'', JStr ''nat''), (''rule'', rule),
      (''translation_verified'', JBool False)]) (find (nat_rule_matches L req source_ip) rules)"

definition ipsec_matches :: "pylib \<Rightarrow> ip \<Rightarrow> ip \<Rightarrow> json \<Rightarrow> bool" where
  "ipsec_matches L source destination policy \<longleftrightarrow> \<not> truthy (get policy ''disabled'')
     \<and> rule_action L policy \<in> {''encrypt'', ''require''}
     \<and> (case (ip_network L (str_or_empty L (get policy ''src_cidr'')), ip_network L (str_or_empty L (get policy ''dst_cidr''))) of
          (Some n, Some m) \<Rightarrow> in_net source n \<and> in_net destination m | _ \<Rightarrow> False)"

definition match_ipsec_policy :: "pylib \<Rightarrow> json list \<Rightarrow> string \<Rightarrow> string \<Rightarrow> json option res" where
  "match_ipsec_policy L policies source_ip destination_ip =
     (case (ip_address L (JStr source_ip), ip_address L (JStr destination_ip)) of
        (Some source, Some destination) \<Rightarrow> Inr (find (ipsec_matches L source destination) policies)
      | _ \<Rightarrow> Inl (ValueError ''not an IP address''))"

section \<open>The explanation\<close>

record path_facts =
  pf_routes :: "json list"
  pf_filter_rules :: "json list"
  pf_routing_rules :: "json list"
  pf_ipsec_policies :: "json list"
  pf_nat_rules :: "json list"
  pf_address_lists :: "json list"
  pf_fresh :: bool

definition FORWARD_EVIDENCE :: "json list" where
  "FORWARD_EVIDENCE = [JObj [(''scope'', JStr ''forward_only''), (''reverse_path_analyzed'', JBool False)]]"

definition explanation ::
    "path_request \<Rightarrow> string list \<Rightarrow> string \<Rightarrow> path_verdict \<Rightarrow> json option \<Rightarrow> json list \<Rightarrow> string list \<Rightarrow> path_explanation" where
  "explanation req ips table verdict route stages reasons = \<lparr>pe_verdict = verdict, pe_source_asset_key = pr_asset_key req,
     pe_source_ips = ips, pe_enforcement_source = ''routeros_path_facts'', pe_selected_routing_table = table,
     pe_selected_route = route, pe_stages = stages, pe_unknown_reasons = reasons, pe_evidence = FORWARD_EVIDENCE\<rparr>"

definition dead_route :: "pylib \<Rightarrow> json \<Rightarrow> bool" where
  "dead_route L route = (lower (str_or_empty L (py_or (get route ''route_type'') (get route ''type'')))
     \<in> {''blackhole'', ''unreachable'', ''prohibit''})"

definition opt_stage :: "json option \<Rightarrow> json list" where
  "opt_stage v = (case v of None \<Rightarrow> [] | Some j \<Rightarrow> [j])"

text \<open>What remains once a route is selected.\<close>

definition explain_routed ::
    "pylib \<Rightarrow> path_request \<Rightarrow> string list \<Rightarrow> string \<Rightarrow> path_facts \<Rightarrow> string \<Rightarrow> json \<Rightarrow> path_explanation res" where
  "explain_routed L req ips table F source_ip route =
     (let stage = JObj [(''stage'', JStr ''route''), (''route'', route)] in
      if dead_route L route then Inr (explanation req ips table Blocked (Some route) [stage] [])
      else rbind (match_ipsec_policy L (pf_ipsec_policies F) source_ip (pr_destination_ip req)) (\<lambda>policy.
        let stages = stage # opt_stage (map_option (\<lambda>p. JObj [(''stage'', JStr ''ipsec''), (''policy'', p)]) policy) in
        (case evaluate_filter L (pf_address_lists F) req source_ip (pf_filter_rules F) of
           (verdict, Some reason) \<Rightarrow> Inr (explanation req ips table Unknown (Some route) stages [reason])
         | (verdict, None) \<Rightarrow> Inr (explanation req ips table
             (case verdict of None \<Rightarrow> Allowed | Some v \<Rightarrow> v) (Some route)
             (stages @ opt_stage (explain_nat L (pf_nat_rules F) req source_ip)) []))))"

definition explain_path :: "pylib \<Rightarrow> path_request \<Rightarrow> string list \<Rightarrow> string \<Rightarrow> path_facts \<Rightarrow> path_explanation res" where
  "explain_path L req ips routing_table F =
     (if \<not> pf_fresh F then Inr (explanation req ips routing_table Unknown None [] [''stale_path_facts''])
      else (case select_source_context L ips of
        Inl reason \<Rightarrow> Inr (explanation req ips routing_table Unknown None [] [reason])
      | Inr source_ip \<Rightarrow>
          rbind (if pf_routing_rules F \<noteq> [] then select_routing_table L (pf_routing_rules F) source_ip else Inr routing_table) (\<lambda>table.
          rbind (select_route L (pf_routes F) (pr_destination_ip req) table) (\<lambda>selected. case selected of
            None \<Rightarrow> Inr (explanation req ips table Unknown None [] [''no_matching_route''])
          | Some route \<Rightarrow> explain_routed L req ips table F source_ip route))))"

end
