(* ===== verification/Path_Correctness.thy ===== *)
theory Path_Correctness
  imports Path_Engine
begin

text \<open>
  What an explanation of a path is worth. The reference is a first-match packet filter that knows of every rule
  whether it matches the packet; the engine knows only what the collected facts resolve. A verdict of the engine is
  the verdict of the reference filter under every reading of the unresolved matchers.
\<close>

section \<open>Longest prefix\<close>

lemma first_max_None [simp]: "first_max ps = None \<longleftrightarrow> ps = []"
  by (induction ps rule: first_max.induct) auto

lemma first_max_Some:
  assumes "first_max ps = Some x"
  shows "\<exists>qs n rs. ps = qs @ (n, x) # rs \<and> (\<forall>(m, y) \<in> set qs. m < n) \<and> (\<forall>(m, y) \<in> set rs. m \<le> n)"
  using assms
proof (induction ps rule: first_max.induct)
  case (2 n y)
  then show ?case by (intro exI [of _ "[]"] exI [of _ n]) simp
next
  case (3 n y m z xs)
  let ?h = "if n < m then (m, z) else (n, y)"
  from 3 obtain qs k rs where d: "?h # xs = qs @ (k, x) # rs"
    and lt: "\<forall>(a, b) \<in> set qs. a < k" and le: "\<forall>(a, b) \<in> set rs. a \<le> k" by auto
  show ?case
  proof (cases qs)
    case Nil
    show ?thesis
    proof (cases "n < m")
      case True
      with d Nil lt le show ?thesis by (intro exI [of _ "[(n, y)]"] exI [of _ k] exI [of _ rs]) auto
    next
      case False
      with d Nil le show ?thesis by (intro exI [of _ "[]"] exI [of _ k] exI [of _ "(m, z) # rs"]) auto
    qed
  next
    case (Cons q qs')
    with d lt have "fst ?h < k" "xs = qs' @ (k, x) # rs" by auto
    with Cons lt le show ?thesis
      by (intro exI [of _ "(n, y) # (m, z) # qs'"] exI [of _ k] exI [of _ rs]) (auto split: if_splits)
  qed
qed simp

text \<open>A route counts for a destination when it is active, in the table, parses, and contains it.\<close>

definition route_len :: "pylib \<Rightarrow> ip \<Rightarrow> string \<Rightarrow> json \<Rightarrow> nat option" where
  "route_len L a table route = (case route_net L table route of None \<Rightarrow> None
     | Some n \<Rightarrow> if in_net a n then Some (prefixlen n) else None)"

lemma route_matches_Nil [simp]: "route_matches L a table [] = []"
  by (simp add: route_matches_def)

lemma route_matches_Cons [simp]:
  "route_matches L a table (r # rs) =
     (case route_len L a table r of None \<Rightarrow> route_matches L a table rs | Some n \<Rightarrow> (n, r) # route_matches L a table rs)"
  by (simp add: route_matches_def route_len_def split: option.splits)

lemma route_matches_iff: "(n, r) \<in> set (route_matches L a table rs) \<longleftrightarrow> r \<in> set rs \<and> route_len L a table r = Some n"
  by (induction rs) (auto split: option.splits)

lemma route_matches_split:
  "route_matches L a table rs = qs @ (n, r) # ps \<Longrightarrow> \<exists>xs ys. rs = xs @ r # ys \<and> route_len L a table r = Some n
    \<and> route_matches L a table xs = qs \<and> route_matches L a table ys = ps"
proof (induction rs arbitrary: qs)
  case (Cons t rs)
  show ?case
  proof (cases "route_len L a table t")
    case None
    with Cons obtain xs ys where "rs = xs @ r # ys \<and> route_len L a table r = Some n
        \<and> route_matches L a table xs = qs \<and> route_matches L a table ys = ps" by fastforce
    with None show ?thesis by (intro exI [of _ "t # xs"] exI [of _ ys]) simp
  next
    case (Some k)
    show ?thesis
    proof (cases qs)
      case Nil
      with Cons.prems Some show ?thesis by (intro exI [of _ "[]"] exI [of _ rs]) simp
    next
      case (Cons q qs')
      with Cons.prems Some have "route_matches L a table rs = qs' @ (n, r) # ps" "q = (k, t)" by simp_all
      with Cons.IH obtain xs ys where "rs = xs @ r # ys \<and> route_len L a table r = Some n
          \<and> route_matches L a table xs = qs' \<and> route_matches L a table ys = ps" by blast
      with Some Cons \<open>q = (k, t)\<close> show ?thesis by (intro exI [of _ "t # xs"] exI [of _ ys]) simp
    qed
  qed
qed simp

text \<open>C22: Route selection is longest-prefix selection. For a destination that is an address, no route is selected
  exactly when no active route of the table contains the destination; and a selected route is one of the table,
  active, containing the destination, at least as long as every other such route and strictly longer than
  every such route before it.\<close>

theorem select_route_longest:
  assumes "ip_address L (JStr destination) = Some a"
  shows "(select_route L routes destination table = Inr None \<longleftrightarrow> (\<forall>r \<in> set routes. route_len L a table r = None))
    \<and> (\<forall>r. select_route L routes destination table = Inr (Some r) \<longrightarrow>
        (\<exists>before after n. routes = before @ r # after \<and> route_len L a table r = Some n
          \<and> (\<forall>q \<in> set before. \<forall>m. route_len L a table q = Some m \<longrightarrow> m < n)
          \<and> (\<forall>q \<in> set after. \<forall>m. route_len L a table q = Some m \<longrightarrow> m \<le> n)))"
proof (intro conjI allI impI)
  have "route_matches L a table routes = [] \<longleftrightarrow> (\<forall>r \<in> set routes. route_len L a table r = None)"
    by (induction routes) (auto split: option.splits)
  then show "select_route L routes destination table = Inr None \<longleftrightarrow> (\<forall>r \<in> set routes. route_len L a table r = None)"
    by (simp add: select_route_def assms)
next
  fix r assume "select_route L routes destination table = Inr (Some r)"
  then have "first_max (route_matches L a table routes) = Some r" by (simp add: select_route_def assms)
  from first_max_Some [OF this] obtain qs n ps where d: "route_matches L a table routes = qs @ (n, r) # ps"
    and lt: "\<forall>(m, y) \<in> set qs. m < n" and le: "\<forall>(m, y) \<in> set ps. m \<le> n"
    by (elim exE conjE)
  from route_matches_split [OF d] obtain xs ys where x: "routes = xs @ r # ys" "route_len L a table r = Some n"
      "route_matches L a table xs = qs" "route_matches L a table ys = ps" by blast
  have "m < n" if "q \<in> set xs" "route_len L a table q = Some m" for q m
    using lt route_matches_iff [of m q L a table xs] that x(3) by auto
  moreover have "m \<le> n" if "q \<in> set ys" "route_len L a table q = Some m" for q m
    using le route_matches_iff [of m q L a table ys] that x(4) by auto
  ultimately show "\<exists>before after n. routes = before @ r # after \<and> route_len L a table r = Some n
      \<and> (\<forall>q \<in> set before. \<forall>m. route_len L a table q = Some m \<longrightarrow> m < n)
      \<and> (\<forall>q \<in> set after. \<forall>m. route_len L a table q = Some m \<longrightarrow> m \<le> n)"
    using x(1,2) by blast
qed

section \<open>A reference packet filter\<close>

datatype decision = Accept | Drop | Opaque | Default

fun first_match :: "pylib \<Rightarrow> (json \<Rightarrow> bool) \<Rightarrow> json list \<Rightarrow> decision" where
  "first_match L sem [] = Default"
| "first_match L sem (rule # rules) =
     (if skipped_rule L rule \<or> \<not> sem rule \<or> rule_action L rule = [] then first_match L sem rules
      else if rule_action L rule \<in> {''drop'', ''reject''} then Drop
      else if rule_action L rule = ''accept'' then Accept else Opaque)"

definition protocol_test :: "pylib \<Rightarrow> path_request \<Rightarrow> json \<Rightarrow> bool option" where
  "protocol_test L req rule = Some (truthy (get rule ''protocol'') \<longrightarrow> same_text L (get rule ''protocol'') (pr_protocol req))"

definition port_test :: "pylib \<Rightarrow> path_request \<Rightarrow> json \<Rightarrow> bool option" where
  "port_test L req rule = (if \<not> truthy (get rule ''dst_port'') then Some True
     else map_option (\<lambda>p. py_str L (get rule ''dst_port'') = int_text p) (pr_destination_port req))"

definition opaque_test :: "json \<Rightarrow> string \<Rightarrow> bool option" where
  "opaque_test rule f = (if truthy (get rule f) then None else Some True)"

text \<open>Every matcher of a rule: true, false, or not resolved by the facts.\<close>

definition rule_tests :: "pylib \<Rightarrow> json list \<Rightarrow> path_request \<Rightarrow> string \<Rightarrow> json \<Rightarrow> bool option list" where
  "rule_tests L entries req source_ip rule = address_matches L entries req source_ip rule
     @ [protocol_test L req rule, port_test L req rule] @ map (opaque_test rule) (''unsupported_matchers'' # OPAQUE_MATCHERS)"

text \<open>A reading says of every rule whether it matches the packet, in accordance with the resolved matchers.\<close>

definition reading :: "pylib \<Rightarrow> json list \<Rightarrow> path_request \<Rightarrow> string \<Rightarrow> json list \<Rightarrow> (json \<Rightarrow> bool) \<Rightarrow> bool" where
  "reading L entries req source_ip rules sem \<longleftrightarrow> (\<forall>rule \<in> set rules.
     (Some False \<in> set (rule_tests L entries req source_ip rule) \<longrightarrow> \<not> sem rule)
     \<and> (set (rule_tests L entries req source_ip rule) = {Some True} \<longrightarrow> sem rule))"

fun verdict_decision :: "path_verdict option \<Rightarrow> decision" where
  "verdict_decision None = Default"
| "verdict_decision (Some Allowed) = Accept"
| "verdict_decision (Some Blocked) = Drop"
| "verdict_decision (Some Unknown) = Opaque"

lemma reading_Cons: "reading L entries req src (rule # rules) sem \<Longrightarrow> reading L entries req src rules sem"
  by (simp add: reading_def)

lemma all_true:
  assumes "xs \<noteq> []" and "Some False \<notin> set xs" and "None \<notin> set xs"
  shows "set xs = {Some True}"
proof -
  have "x = Some True" if "x \<in> set xs" for x
  proof (cases x)
    case (Some b)
    with that assms(2) show ?thesis by (cases b) auto
  qed (use that assms(3) in simp)
  then show ?thesis using assms(1) by (cases xs) auto
qed

lemma address_matches_not_Nil [simp]: "address_matches L entries req src rule \<noteq> []"
  by (simp add: address_matches_def)

text \<open>How the tests of a rule and the branches of the loop correspond.\<close>

lemma rule_tests_false:
  "Some False \<in> set (rule_tests L entries req src rule) \<longleftrightarrow> Some False \<in> set (address_matches L entries req src rule)
    \<or> (truthy (get rule ''protocol'') \<and> \<not> same_text L (get rule ''protocol'') (pr_protocol req))
    \<or> (truthy (get rule ''dst_port'') \<and> (\<exists>p. pr_destination_port req = Some p \<and> py_str L (get rule ''dst_port'') \<noteq> int_text p))"
  unfolding rule_tests_def protocol_test_def port_test_def opaque_test_def OPAQUE_MATCHERS_def
  by (cases "pr_destination_port req") auto

lemma rule_tests_unresolved:
  "None \<in> set (rule_tests L entries req src rule) \<longleftrightarrow> None \<in> set (address_matches L entries req src rule)
    \<or> (truthy (get rule ''dst_port'') \<and> pr_destination_port req = None)
    \<or> (\<exists>f \<in> set OPAQUE_MATCHERS. truthy (get rule f)) \<or> truthy (get rule ''unsupported_matchers'')"
  unfolding rule_tests_def protocol_test_def port_test_def opaque_test_def OPAQUE_MATCHERS_def
  by (cases "pr_destination_port req") auto

lemma rule_tests_not_Nil [simp]: "rule_tests L entries req src rule \<noteq> []"
  by (simp add: rule_tests_def)

declare evaluate_filter.simps(2) [simp del]

lemma evaluate_skipped:
  "skipped_rule L rule \<Longrightarrow> evaluate_filter L entries req src (rule # rules) = evaluate_filter L entries req src rules"
  by (simp add: evaluate_filter.simps(2))

lemma evaluate_excluded:
  assumes "Some False \<in> set (rule_tests L entries req src rule)"
    and "evaluate_filter L entries req src (rule # rules) = (v, None)"
  shows "evaluate_filter L entries req src rules = (v, None)"
  using assms unfolding rule_tests_false evaluate_filter.simps(2) Let_def port_text_def
  by (auto split: if_splits)

lemma evaluate_unresolved:
  assumes "\<not> skipped_rule L rule" and "Some False \<notin> set (rule_tests L entries req src rule)"
    and "None \<in> set (rule_tests L entries req src rule)"
  shows "\<exists>reason. evaluate_filter L entries req src (rule # rules) = (Some Unknown, Some reason)"
  using assms unfolding rule_tests_false rule_tests_unresolved evaluate_filter.simps(2) Let_def port_text_def
  by (auto split: option.splits)

lemma evaluate_definite:
  assumes "\<not> skipped_rule L rule" and "Some False \<notin> set (rule_tests L entries req src rule)"
    and "None \<notin> set (rule_tests L entries req src rule)"
  shows "evaluate_filter L entries req src (rule # rules) =
    (if rule_action L rule \<in> {''drop'', ''reject''} then (Some Blocked, None)
     else if rule_action L rule = ''accept'' then (Some Allowed, None)
     else if rule_action L rule \<noteq> [] then (Some Unknown, Some ''unsupported_filter_action'')
     else evaluate_filter L entries req src rules)"
  using assms unfolding rule_tests_false rule_tests_unresolved evaluate_filter.simps(2) Let_def port_text_def
  by (auto split: option.splits)

lemma filter_sound:
  "reading L entries req src rules sem \<Longrightarrow> evaluate_filter L entries req src rules = (v, None)
    \<Longrightarrow> v \<noteq> Some Unknown \<and> first_match L sem rules = verdict_decision v"
proof (induction rules)
  case (Cons rule rules)
  let ?T = "rule_tests L entries req src rule"
  note IH = Cons.IH [OF reading_Cons [OF Cons.prems(1)]]
  have sem: "Some False \<in> set ?T \<Longrightarrow> \<not> sem rule" "set ?T = {Some True} \<Longrightarrow> sem rule"
    using Cons.prems(1) by (simp_all add: reading_def)
  consider "skipped_rule L rule" | "Some False \<in> set ?T"
    | "\<not> skipped_rule L rule" "Some False \<notin> set ?T" "None \<in> set ?T"
    | "\<not> skipped_rule L rule" "Some False \<notin> set ?T" "None \<notin> set ?T" by blast
  then show ?case
  proof cases
    case 1
    with Cons.prems(2) IH show ?thesis by (simp add: evaluate_skipped)
  next
    case 2
    with IH [OF evaluate_excluded [OF 2 Cons.prems(2)]] sem(1) show ?thesis by simp
  next
    case 3
    from evaluate_unresolved [OF 3, of rules] obtain reason where
      "evaluate_filter L entries req src (rule # rules) = (Some Unknown, Some reason)" by (rule exE)
    with Cons.prems(2) show ?thesis by simp
  next
    case 4
    have "sem rule" by (rule sem(2)) (rule all_true [OF rule_tests_not_Nil 4(2,3)])
    with Cons.prems(2) IH 4(1) show ?thesis unfolding evaluate_definite [OF 4] by (auto split: if_splits)
  qed
qed simp

lemma reading_exists: "reading L entries req src rules (\<lambda>rule. Some False \<notin> set (rule_tests L entries req src rule))"
  by (simp add: reading_def)

lemma evaluate_passes:
  assumes "Some False \<in> set (rule_tests L entries req src rule)" and "None \<notin> set (rule_tests L entries req src rule)"
  shows "evaluate_filter L entries req src (rule # rules) = evaluate_filter L entries req src rules"
  using assms unfolding rule_tests_false rule_tests_unresolved evaluate_filter.simps(2) Let_def port_text_def
  by (auto split: option.splits)

lemma filter_decides:
  "\<forall>rule \<in> set rules. \<not> skipped_rule L rule \<longrightarrow> None \<notin> set (rule_tests L entries req src rule)
      \<and> rule_action L rule \<in> {''accept'', ''drop'', ''reject''}
    \<Longrightarrow> snd (evaluate_filter L entries req src rules) = None"
proof (induction rules)
  case (Cons rule rules)
  let ?T = "rule_tests L entries req src rule"
  consider "skipped_rule L rule" | "\<not> skipped_rule L rule" "Some False \<in> set ?T" "None \<notin> set ?T"
    | "\<not> skipped_rule L rule" "Some False \<notin> set ?T" "None \<notin> set ?T" using Cons.prems by auto
  then show ?case
  proof cases
    case 3
    have "rule_action L rule \<in> {''accept'', ''drop'', ''reject''}" using Cons.prems 3(1) by simp
    then show ?thesis unfolding evaluate_definite [OF 3] by auto
  qed (use Cons in \<open>simp_all add: evaluate_skipped evaluate_passes\<close>)
qed simp

text \<open>C21: The packet filter of the engine refines the reference filter. Whatever the matchers mean that the facts do not
  resolve, a decision the engine takes without naming a reason (accept, drop, or none of the rules) is the
  decision of the first matching rule; and the engine decides whenever every matcher of every forward rule that is
  enabled is resolved and every such rule accepts, drops or rejects.\<close>

theorem filter_refines_first_match:
  "(reading L entries req src rules sem \<and> evaluate_filter L entries req src rules = (v, None)
      \<longrightarrow> v \<noteq> Some Unknown \<and> first_match L sem rules = verdict_decision v)
   \<and> ((\<forall>rule \<in> set rules. \<not> skipped_rule L rule \<longrightarrow> None \<notin> set (rule_tests L entries req src rule)
          \<and> rule_action L rule \<in> {''accept'', ''drop'', ''reject''})
      \<longrightarrow> snd (evaluate_filter L entries req src rules) = None)"
  using filter_sound filter_decides by blast

section \<open>The verdict\<close>

lemma explain_routed_cases:
  assumes "explain_routed L req ips table F src route = Inr x"
  obtains (dead) st where "dead_route L route" "x = explanation req ips table Blocked (Some route) st []"
    | (unknown) v reason st where "\<not> dead_route L route"
        "evaluate_filter L (pf_address_lists F) req src (pf_filter_rules F) = (v, Some reason)"
        "x = explanation req ips table Unknown (Some route) st [reason]"
    | (decided) v st where "\<not> dead_route L route"
        "evaluate_filter L (pf_address_lists F) req src (pf_filter_rules F) = (v, None)"
        "x = explanation req ips table (case v of None \<Rightarrow> Allowed | Some v \<Rightarrow> v) (Some route) st []"
proof (cases "dead_route L route")
  case True
  with assms have "x = explanation req ips table Blocked (Some route) [JObj [(''stage'', JStr ''route''), (''route'', route)]] []"
    by (simp add: explain_routed_def)
  with True show ?thesis by (rule dead)
next
  case False
  obtain v r where e: "evaluate_filter L (pf_address_lists F) req src (pf_filter_rules F) = (v, r)" by (rule prod.exhaust)
  show ?thesis
  proof (cases r)
    case None
    with e have "evaluate_filter L (pf_address_lists F) req src (pf_filter_rules F) = (v, None)" by simp
    from decided [OF False this] assms False this show ?thesis by (auto simp: explain_routed_def rbind_Inr_iff Let_def)
  next
    case (Some reason)
    with e have "evaluate_filter L (pf_address_lists F) req src (pf_filter_rules F) = (v, Some reason)" by simp
    from unknown [OF False this] assms False this show ?thesis by (auto simp: explain_routed_def rbind_Inr_iff Let_def)
  qed
qed

lemma explain_path_cases:
  assumes "explain_path L req ips table F = Inr x"
  obtains (unknown) t reason where "x = explanation req ips t Unknown None [] [reason]"
    | (routed) src t route where "pf_fresh F" "ips = [src]" "ip_address L (JStr src) \<noteq> None"
        "select_route L (pf_routes F) (pr_destination_ip req) t = Inr (Some route)"
        "explain_routed L req ips t F src route = Inr x"
  using assms
  by (auto simp: explain_path_def select_source_context_def rbind_Inr_iff split: if_splits sum.splits list.splits option.splits)

lemma explanation_simps [simp]:
  "pe_verdict (explanation req ips t v r st rs) = v"
  "pe_selected_routing_table (explanation req ips t v r st rs) = t"
  "pe_selected_route (explanation req ips t v r st rs) = r"
  "pe_unknown_reasons (explanation req ips t v r st rs) = rs"
  by (simp_all add: explanation_def)

text \<open>C20: A verdict is never a guess. When an explanation says allowed or blocked, the facts were fresh, the asset had exactly
  one address and it parses, and the route it names is the selected one of the selected table. It then says blocked
  exactly when that route discards the flow or, whatever the unresolved matchers mean, the first matching filter
  rule drops it; and allowed exactly when the route forwards it and the filter accepts it or has no rule for it. It gives
  a reason exactly when the verdict is unknown.\<close>

theorem explain_path_sound:
  assumes run: "explain_path L req ips table F = Inr x"
  shows "(pe_verdict x = Unknown \<longleftrightarrow> pe_unknown_reasons x \<noteq> []) \<and> (pe_verdict x \<noteq> Unknown \<longrightarrow> pf_fresh F
    \<and> (\<exists>src route. ips = [src] \<and> ip_address L (JStr src) \<noteq> None \<and> pe_selected_route x = Some route
        \<and> select_route L (pf_routes F) (pr_destination_ip req) (pe_selected_routing_table x) = Inr (Some route)
        \<and> (\<forall>sem. reading L (pf_address_lists F) req src (pf_filter_rules F) sem \<longrightarrow>
            (pe_verdict x = Blocked \<longleftrightarrow> dead_route L route \<or> first_match L sem (pf_filter_rules F) = Drop)
          \<and> (pe_verdict x = Allowed \<longleftrightarrow> \<not> dead_route L route \<and> first_match L sem (pf_filter_rules F) \<in> {Accept, Default}))))"
  using run
proof (cases rule: explain_path_cases)
  case (routed src t route)
  note common = routed(1-4)
  from routed(5) show ?thesis
  proof (cases rule: explain_routed_cases)
    case (decided v st)
    have sound: "first_match L sem (pf_filter_rules F) = verdict_decision v"
      if "reading L (pf_address_lists F) req src (pf_filter_rules F) sem" for sem
      using filter_sound [OF that decided(2)] by simp
    have "v \<noteq> Some Unknown" using filter_sound [OF reading_exists decided(2)] by simp
    then consider "v = None" | "v = Some Allowed" | "v = Some Blocked" by (cases v rule: verdict_decision.cases) auto
    then show ?thesis using common decided(1,3) sound by cases auto
  qed (use common in auto)
qed simp

section \<open>Instances\<close>

definition pdemo_L :: pylib where
  "pdemo_L = demo_lib (\<lambda>n. 0)"

definition pdemo_wide :: json where
  "pdemo_wide = JObj [(''dst_address'', JStr ''0.0.0.0/0''), (''active'', JInt 1)]"

definition pdemo_narrow :: json where
  "pdemo_narrow = JObj [(''dst_address'', JStr ''10.0.0.0/8''), (''active'', JInt 1)]"

definition pdemo_drop :: json where
  "pdemo_drop = JObj [(''chain'', JStr ''forward''), (''dst_cidr'', JStr ''10.1.0.0/16''), (''action'', JStr ''drop'')]"

definition pdemo_req :: path_request where
  "pdemo_req = \<lparr>pr_asset_key = ''a1'', pr_destination_ip = ''10.1.2.3'', pr_protocol = ''tcp'', pr_destination_port = Some 443\<rparr>"

definition pdemo_facts :: path_facts where
  "pdemo_facts = \<lparr>pf_routes = [pdemo_wide, pdemo_narrow], pf_filter_rules = [pdemo_drop], pf_routing_rules = [],
     pf_ipsec_policies = [], pf_nat_rules = [], pf_address_lists = [], pf_fresh = True\<rparr>"

theorem select_route_longest_witness:
  "\<exists>before after n. [pdemo_wide, pdemo_narrow] = before @ pdemo_narrow # after
    \<and> route_len pdemo_L (IPv4 167838211) ''main'' pdemo_narrow = Some n
    \<and> (\<forall>q \<in> set before. \<forall>m. route_len pdemo_L (IPv4 167838211) ''main'' q = Some m \<longrightarrow> m < n)"
proof -
  have "ip_address pdemo_L (JStr ''10.1.2.3'') = Some (IPv4 167838211)" by code_simp
  moreover have "select_route pdemo_L [pdemo_wide, pdemo_narrow] ''10.1.2.3'' ''main'' = Inr (Some pdemo_narrow)" by code_simp
  ultimately show ?thesis
    using select_route_longest [of pdemo_L "''10.1.2.3''" "IPv4 167838211" "[pdemo_wide, pdemo_narrow]" "''main''"] by blast
qed

theorem filter_refines_first_match_witness:
  "first_match pdemo_L (\<lambda>_. True) [pdemo_drop] = verdict_decision (Some Blocked)"
proof -
  have "evaluate_filter pdemo_L [] pdemo_req ''192.0.2.1'' [pdemo_drop] = (Some Blocked, None)" by code_simp
  moreover have "reading pdemo_L [] pdemo_req ''192.0.2.1'' [pdemo_drop] (\<lambda>_. True)" by code_simp
  ultimately show ?thesis
    using filter_refines_first_match [of pdemo_L "[]" pdemo_req "''192.0.2.1''" "[pdemo_drop]" "\<lambda>_. True" "Some Blocked"] by blast
qed

theorem explain_path_sound_witness:
  "\<exists>x src route. explain_path pdemo_L pdemo_req [''192.0.2.1''] ''main'' pdemo_facts = Inr x \<and> [''192.0.2.1''] = [src]
    \<and> pe_selected_route x = Some route \<and> pe_verdict x = Blocked"
proof -
  obtain x where x: "explain_path pdemo_L pdemo_req [''192.0.2.1''] ''main'' pdemo_facts = Inr x" and v: "pe_verdict x = Blocked"
  proof
    show "explain_path pdemo_L pdemo_req [''192.0.2.1''] ''main'' pdemo_facts
        = Inr (projr (explain_path pdemo_L pdemo_req [''192.0.2.1''] ''main'' pdemo_facts))" by code_simp
    show "pe_verdict (projr (explain_path pdemo_L pdemo_req [''192.0.2.1''] ''main'' pdemo_facts)) = Blocked" by code_simp
  qed
  from explain_path_sound [OF x] v obtain src route where "[''192.0.2.1''] = [src]" "pe_selected_route x = Some route" by auto
  with x v show ?thesis by blast
qed

end
