(* ===== verification/Path_Facts.thy ===== *)
theory Path_Facts
  imports Path_Correctness Policy_Resolver
begin

text \<open>
  Where the facts of the path engine come from: \<open>save_path_facts\<close> (\<open>netctl/path_facts.py\<close>) replaces, family by
  family, what a router reported, and \<open>explain_asset_path\<close> (\<open>netctl/path_query.py\<close>) reads the facts of the one
  router an asset was seen by and hands them to the engine. Every table of facts is a list of rows in insertion
  order; a second row with the same source and key is an integrity error.
\<close>

section \<open>Tables\<close>

record rule_row =
  ru_source_id :: int
  ru_rule_key :: string
  ru_chain :: string
  ru_position :: nat
  ru_disabled :: bool
  ru_action :: string
  ru_src_cidr :: string
  ru_dst_cidr :: string
  ru_protocol :: string
  ru_dst_port :: string
  ru_in_interface :: string
  ru_out_interface :: string
  ru_src_address_list :: string
  ru_dst_address_list :: string
  ru_routing_mark :: string
  ru_connection_state :: string
  ru_comment :: string
  ru_observed_at :: string
  ru_run_id :: nat
  ru_unsupported :: jtext

record routing_row =
  rr_source_id :: int
  rr_rule_key :: string
  rr_position :: nat
  rr_disabled :: bool
  rr_action :: string
  rr_src_cidr :: string
  rr_dst_cidr :: string
  rr_routing_mark :: string
  rr_table_name :: string
  rr_comment :: string
  rr_observed_at :: string
  rr_run_id :: nat
  rr_unsupported :: jtext

record list_row =
  li_source_id :: int
  li_rule_key :: string
  li_list_name :: string
  li_address :: string
  li_disabled :: bool
  li_comment :: string
  li_observed_at :: string
  li_run_id :: nat
  li_unsupported :: jtext

record ipsec_row =
  ip_source_id :: int
  ip_rule_key :: string
  ip_position :: nat
  ip_disabled :: bool
  ip_action :: string
  ip_src_cidr :: string
  ip_dst_cidr :: string
  ip_protocol :: string
  ip_comment :: string
  ip_observed_at :: string
  ip_run_id :: nat
  ip_unsupported :: jtext

record fact_run =
  fr_id :: nat
  fr_source_id :: int
  fr_started_at :: string
  fr_finished_at :: "string option"
  fr_status :: string
  fr_capabilities :: json

record path_db =
  pd_runs :: "fact_run list"
  pd_filter :: "rule_row list"
  pd_nat :: "rule_row list"
  pd_mangle :: "rule_row list"
  pd_routing :: "routing_row list"
  pd_lists :: "list_row list"
  pd_ipsec :: "ipsec_row list"
  pd_routes :: "(int \<times> json) list"

section \<open>Saving\<close>

text \<open>\<open>row.get(k) or ""\<close> as text, and the sorted list of unsupported matchers.\<close>

definition text_of :: "pylib \<Rightarrow> json \<Rightarrow> string \<Rightarrow> string" where
  "text_of L row k = str_or_empty L (get row k)"

definition key_of :: "pylib \<Rightarrow> json \<Rightarrow> nat \<Rightarrow> string" where
  "key_of L row i = py_str L (py_or (get row ''id'') (JInt (int i)))"

definition matchers_of :: "pylib \<Rightarrow> json \<Rightarrow> jtext res" where
  "matchers_of L row = rbind (py_iter (get_default row ''unsupported_matchers'' (JList []))) (\<lambda>xs.
     Inr (Doc (JList (map JStr (sort (map (py_str L) xs))))))"

definition rule_row_of :: "pylib \<Rightarrow> int \<Rightarrow> string \<Rightarrow> nat \<Rightarrow> nat \<Rightarrow> json \<Rightarrow> rule_row res" where
  "rule_row_of L source_id observed_at run_id i row = (if \<not> is_dict row then Inl AttributeError else
     rbind (matchers_of L row) (\<lambda>unsupported. Inr
       \<lparr>ru_source_id = source_id, ru_rule_key = key_of L row i, ru_chain = text_of L row ''chain'', ru_position = i,
        ru_disabled = truthy (get row ''disabled''), ru_action = text_of L row ''action'',
        ru_src_cidr = text_of L row ''src_address'', ru_dst_cidr = text_of L row ''dst_address'',
        ru_protocol = text_of L row ''protocol'', ru_dst_port = text_of L row ''dst_port'',
        ru_in_interface = text_of L row ''in_interface'', ru_out_interface = text_of L row ''out_interface'',
        ru_src_address_list = text_of L row ''src_address_list'', ru_dst_address_list = text_of L row ''dst_address_list'',
        ru_routing_mark = text_of L row ''routing_mark'', ru_connection_state = text_of L row ''connection_state'',
        ru_comment = text_of L row ''comment'', ru_observed_at = observed_at, ru_run_id = run_id,
        ru_unsupported = unsupported\<rparr>))"

definition routing_row_of :: "pylib \<Rightarrow> int \<Rightarrow> string \<Rightarrow> nat \<Rightarrow> nat \<Rightarrow> json \<Rightarrow> routing_row res" where
  "routing_row_of L source_id observed_at run_id i row = (if \<not> is_dict row then Inl AttributeError else
     rbind (matchers_of L row) (\<lambda>unsupported. Inr
       \<lparr>rr_source_id = source_id, rr_rule_key = key_of L row i, rr_position = i,
        rr_disabled = truthy (get row ''disabled''), rr_action = text_of L row ''action'',
        rr_src_cidr = text_of L row ''src_address'', rr_dst_cidr = text_of L row ''dst_address'',
        rr_routing_mark = text_of L row ''routing_mark'', rr_table_name = text_of L row ''table_name'',
        rr_comment = text_of L row ''comment'', rr_observed_at = observed_at, rr_run_id = run_id,
        rr_unsupported = unsupported\<rparr>))"

definition list_row_of :: "pylib \<Rightarrow> int \<Rightarrow> string \<Rightarrow> nat \<Rightarrow> nat \<Rightarrow> json \<Rightarrow> list_row res" where
  "list_row_of L source_id observed_at run_id i row = (if \<not> is_dict row then Inl AttributeError else
     rbind (matchers_of L row) (\<lambda>unsupported. Inr
       \<lparr>li_source_id = source_id, li_rule_key = key_of L row i, li_list_name = text_of L row ''list'',
        li_address = text_of L row ''address'', li_disabled = truthy (get row ''disabled''),
        li_comment = text_of L row ''comment'', li_observed_at = observed_at, li_run_id = run_id,
        li_unsupported = unsupported\<rparr>))"

definition ipsec_row_of :: "pylib \<Rightarrow> int \<Rightarrow> string \<Rightarrow> nat \<Rightarrow> nat \<Rightarrow> json \<Rightarrow> ipsec_row res" where
  "ipsec_row_of L source_id observed_at run_id i row = (if \<not> is_dict row then Inl AttributeError else
     rbind (matchers_of L row) (\<lambda>unsupported. Inr
       \<lparr>ip_source_id = source_id, ip_rule_key = key_of L row i, ip_position = i,
        ip_disabled = truthy (get row ''disabled''), ip_action = text_of L row ''action'',
        ip_src_cidr = text_of L row ''src_address'', ip_dst_cidr = text_of L row ''dst_address'',
        ip_protocol = text_of L row ''protocol'', ip_comment = text_of L row ''comment'',
        ip_observed_at = observed_at, ip_run_id = run_id, ip_unsupported = unsupported\<rparr>))"

text \<open>One table: \<open>DELETE ... WHERE source_id = ?\<close>, then one \<open>INSERT\<close> per row of the snapshot. \<open>rows\<close> and
  \<open>update\<close> read and write the table, \<open>key\<close> is its primary key.\<close>

definition insert_fact ::
    "('s \<Rightarrow> 'r list) \<Rightarrow> (('r list \<Rightarrow> 'r list) \<Rightarrow> 's \<Rightarrow> 's) \<Rightarrow> ('r \<Rightarrow> int \<times> string) \<Rightarrow> 'r \<Rightarrow> ('s, unit) prog" where
  "insert_fact rows update key r = bind (gets rows) (\<lambda>xs.
     if key r \<in> key ` set xs then raise IntegrityError else modify (update (\<lambda>ys. ys @ [r])))"

definition replace_facts ::
    "('s \<Rightarrow> 'r list) \<Rightarrow> (('r list \<Rightarrow> 'r list) \<Rightarrow> 's \<Rightarrow> 's) \<Rightarrow> ('r \<Rightarrow> int \<times> string) \<Rightarrow> int
     \<Rightarrow> (nat \<Rightarrow> json \<Rightarrow> 'r res) \<Rightarrow> json \<Rightarrow> ('s, unit) prog" where
  "replace_facts rows update key source_id row_of reported =
     seq (modify (update (filter (\<lambda>r. fst (key r) \<noteq> source_id))))
       (bind (lift (py_iter reported)) (\<lambda>xs.
         foldM (\<lambda>_ (i, x). bind (lift (row_of i x)) (insert_fact rows update key)) () (enumerate 0 xs)))"

definition rule_key :: "rule_row \<Rightarrow> int \<times> string" where
  "rule_key r = (ru_source_id r, ru_rule_key r)"

definition routing_key :: "routing_row \<Rightarrow> int \<times> string" where
  "routing_key r = (rr_source_id r, rr_rule_key r)"

definition list_key :: "list_row \<Rightarrow> int \<times> string" where
  "list_key r = (li_source_id r, li_rule_key r)"

definition ipsec_key :: "ipsec_row \<Rightarrow> int \<times> string" where
  "ipsec_key r = (ip_source_id r, ip_rule_key r)"

definition run_status :: "(string \<times> string) list \<Rightarrow> string" where
  "run_status outcomes = (let statuses = snd ` set outcomes in
     if statuses = {''success''} then ''success'' else if ''success'' \<notin> statuses then ''failed'' else ''partial'')"

definition new_run :: "int \<Rightarrow> (string \<times> string) list \<Rightarrow> string \<Rightarrow> (path_db, nat) prog" where
  "new_run source_id outcomes observed_at = bind (gets (\<lambda>s. next_id (map fr_id (pd_runs s)))) (\<lambda>i.
     seq (modify (pd_runs_update (\<lambda>rs. rs @ [\<lparr>fr_id = i, fr_source_id = source_id, fr_started_at = observed_at,
         fr_finished_at = Some observed_at, fr_status = run_status outcomes,
         fr_capabilities = JObj (map (map_prod id JStr) outcomes)\<rparr>])))
       (ret i))"

definition on_success :: "(string \<times> string) list \<Rightarrow> string \<Rightarrow> ('s, unit) prog \<Rightarrow> ('s, unit) prog" where
  "on_success outcomes family m = (if map_of outcomes family = Some ''success'' then m else ret ())"

definition save_path_facts ::
    "pylib \<Rightarrow> int \<Rightarrow> json \<Rightarrow> (string \<times> string) list \<Rightarrow> string \<Rightarrow> (path_db, nat \<times> string) prog" where
  "save_path_facts L source_id snapshot outcomes observed_at =
     (let reported = (\<lambda>family. get_default snapshot family (JList [])) in
      bind (new_run source_id outcomes observed_at) (\<lambda>run_id.
      seq (on_success outcomes ''firewall_filter_rules'' (replace_facts pd_filter pd_filter_update rule_key source_id
             (rule_row_of L source_id observed_at run_id) (reported ''firewall_filter_rules'')))
      (seq (on_success outcomes ''firewall_nat_rules'' (replace_facts pd_nat pd_nat_update rule_key source_id
             (rule_row_of L source_id observed_at run_id) (reported ''firewall_nat_rules'')))
      (seq (on_success outcomes ''firewall_mangle_rules'' (replace_facts pd_mangle pd_mangle_update rule_key source_id
             (rule_row_of L source_id observed_at run_id) (reported ''firewall_mangle_rules'')))
      (seq (on_success outcomes ''router_routing_rules'' (replace_facts pd_routing pd_routing_update routing_key source_id
             (routing_row_of L source_id observed_at run_id) (reported ''router_routing_rules'')))
      (seq (on_success outcomes ''firewall_address_lists'' (replace_facts pd_lists pd_lists_update list_key source_id
             (list_row_of L source_id observed_at run_id) (reported ''firewall_address_lists'')))
      (seq (on_success outcomes ''ipsec_policies'' (replace_facts pd_ipsec pd_ipsec_update ipsec_key source_id
             (ipsec_row_of L source_id observed_at run_id) (reported ''ipsec_policies'')))
      (ret (run_id, run_status outcomes)))))))))"

section \<open>Reading\<close>

text \<open>A row as the dictionary the engine sees: the columns of the table, with the decoded matchers in place of
  their text.\<close>

definition stored_matchers :: "jtext \<Rightarrow> json" where
  "stored_matchers t = (case rbind (if t = Blank then Inr (JList []) else loads t) py_iter of
     Inl _ \<Rightarrow> JList [JStr ''invalid_stored_matchers''] | Inr xs \<Rightarrow> JList xs)"

definition bool_int :: "bool \<Rightarrow> json" where
  "bool_int b = JInt (if b then 1 else 0)"

definition rule_record :: "rule_row \<Rightarrow> json" where
  "rule_record r = JObj [(''source_id'', JInt (ru_source_id r)), (''rule_key'', JStr (ru_rule_key r)),
     (''chain'', JStr (ru_chain r)), (''position'', JInt (int (ru_position r))), (''disabled'', bool_int (ru_disabled r)),
     (''action'', JStr (ru_action r)), (''src_cidr'', JStr (ru_src_cidr r)), (''dst_cidr'', JStr (ru_dst_cidr r)),
     (''protocol'', JStr (ru_protocol r)), (''dst_port'', JStr (ru_dst_port r)),
     (''in_interface'', JStr (ru_in_interface r)), (''out_interface'', JStr (ru_out_interface r)),
     (''src_address_list'', JStr (ru_src_address_list r)), (''dst_address_list'', JStr (ru_dst_address_list r)),
     (''routing_mark'', JStr (ru_routing_mark r)), (''connection_state'', JStr (ru_connection_state r)),
     (''comment'', JStr (ru_comment r)), (''observed_at'', JStr (ru_observed_at r)),
     (''collector_run_id'', JInt (int (ru_run_id r))), (''unsupported_matchers'', stored_matchers (ru_unsupported r))]"

definition routing_record :: "routing_row \<Rightarrow> json" where
  "routing_record r = JObj [(''source_id'', JInt (rr_source_id r)), (''rule_key'', JStr (rr_rule_key r)),
     (''position'', JInt (int (rr_position r))), (''disabled'', bool_int (rr_disabled r)), (''action'', JStr (rr_action r)),
     (''src_cidr'', JStr (rr_src_cidr r)), (''dst_cidr'', JStr (rr_dst_cidr r)), (''routing_mark'', JStr (rr_routing_mark r)),
     (''table_name'', JStr (rr_table_name r)), (''comment'', JStr (rr_comment r)), (''observed_at'', JStr (rr_observed_at r)),
     (''collector_run_id'', JInt (int (rr_run_id r))), (''unsupported_matchers'', stored_matchers (rr_unsupported r))]"

definition list_record :: "list_row \<Rightarrow> json" where
  "list_record r = JObj [(''source_id'', JInt (li_source_id r)), (''rule_key'', JStr (li_rule_key r)),
     (''list_name'', JStr (li_list_name r)), (''address'', JStr (li_address r)), (''disabled'', bool_int (li_disabled r)),
     (''comment'', JStr (li_comment r)), (''observed_at'', JStr (li_observed_at r)),
     (''collector_run_id'', JInt (int (li_run_id r))), (''unsupported_matchers'', stored_matchers (li_unsupported r))]"

definition ipsec_record :: "ipsec_row \<Rightarrow> json" where
  "ipsec_record r = JObj [(''source_id'', JInt (ip_source_id r)), (''rule_key'', JStr (ip_rule_key r)),
     (''position'', JInt (int (ip_position r))), (''disabled'', bool_int (ip_disabled r)), (''action'', JStr (ip_action r)),
     (''src_cidr'', JStr (ip_src_cidr r)), (''dst_cidr'', JStr (ip_dst_cidr r)), (''protocol'', JStr (ip_protocol r)),
     (''comment'', JStr (ip_comment r)), (''observed_at'', JStr (ip_observed_at r)),
     (''collector_run_id'', JInt (int (ip_run_id r))), (''unsupported_matchers'', stored_matchers (ip_unsupported r))]"

text \<open>\<open>SELECT * FROM table WHERE source_id = ? ORDER BY ...\<close>.\<close>

definition facts_of :: "('r \<Rightarrow> int \<times> string) \<Rightarrow> ('r \<Rightarrow> nat) \<Rightarrow> ('r \<Rightarrow> json) \<Rightarrow> int \<Rightarrow> 'r list \<Rightarrow> json list" where
  "facts_of key position as_record source_id rows =
     map as_record (sort_key (\<lambda>r. (position r, snd (key r))) (filter (\<lambda>r. fst (key r) = source_id) rows))"

definition latest_run :: "path_db \<Rightarrow> int \<Rightarrow> fact_run option" where
  "latest_run db source_id = (case sort_key fr_id (filter (\<lambda>r. fr_source_id r = source_id) (pd_runs db)) of
     [] \<Rightarrow> None | r # rs \<Rightarrow> Some (last (r # rs)))"

definition facts_are_fresh :: "pylib \<Rightarrow> path_db \<Rightarrow> int \<Rightarrow> int \<Rightarrow> int \<Rightarrow> bool" where
  "facts_are_fresh L db now source_id max_age = (case latest_run db source_id of None \<Rightarrow> False
     | Some r \<Rightarrow> fr_status r = ''success''
         \<and> (case fromiso L (replace_Z (case fr_finished_at r of None \<Rightarrow> ''None'' | Some t \<Rightarrow> t)) of
              None \<Rightarrow> False | Some t \<Rightarrow> now - stamp_utc t \<le> max_age * second))"

definition unknown_explanation :: "string \<Rightarrow> string list \<Rightarrow> string \<Rightarrow> path_explanation" where
  "unknown_explanation asset_key ips reason = \<lparr>pe_verdict = Unknown, pe_source_asset_key = asset_key, pe_source_ips = ips,
     pe_enforcement_source = [], pe_selected_routing_table = ''main'', pe_selected_route = None, pe_stages = [],
     pe_unknown_reasons = [reason], pe_evidence = FORWARD_EVIDENCE\<rparr>"

definition current_observations :: "context_db \<Rightarrow> int \<Rightarrow> ip_row list" where
  "current_observations ctx asset_id = filter (\<lambda>o'. ob_asset_id o' = asset_id \<and> ob_is_current o') (c_observations ctx)"

definition source_ids_of :: "ip_row list \<Rightarrow> int list" where
  "source_ids_of rows = remdups (concat (map (\<lambda>r. case ob_source_id r of None \<Rightarrow> [] | Some i \<Rightarrow> [i]) rows))"

definition path_facts_of :: "pylib \<Rightarrow> path_db \<Rightarrow> int \<Rightarrow> int \<Rightarrow> int \<Rightarrow> path_facts" where
  "path_facts_of L db now source_id max_age =
     \<lparr>pf_routes = map snd (filter (\<lambda>(i, r). i = source_id) (pd_routes db)),
      pf_filter_rules = facts_of rule_key ru_position rule_record source_id (pd_filter db),
      pf_routing_rules = facts_of routing_key rr_position routing_record source_id (pd_routing db),
      pf_ipsec_policies = facts_of ipsec_key ip_position ipsec_record source_id (pd_ipsec db),
      pf_nat_rules = facts_of rule_key ru_position rule_record source_id (pd_nat db),
      pf_address_lists = facts_of list_key (\<lambda>_. 0) list_record source_id (pd_lists db),
      pf_fresh = facts_are_fresh L db now source_id max_age\<rparr>"

definition explain_asset_path ::
    "pylib \<Rightarrow> context_db \<Rightarrow> path_db \<Rightarrow> int \<Rightarrow> path_request \<Rightarrow> int \<Rightarrow> path_explanation option res" where
  "explain_asset_path L ctx db now req max_age = (case find_asset ctx (pr_asset_key req) of
     None \<Rightarrow> Inr None
   | Some asset \<Rightarrow>
       (let rows = current_observations ctx (as_id asset);
            ips = sort (remdups (filter (\<lambda>i. i \<noteq> []) (map ob_ip rows))) in
        case source_ids_of rows of
          [source_id] \<Rightarrow> rbind (explain_path L req ips ''main'' (path_facts_of L db now source_id max_age)) (\<lambda>x. Inr (Some x))
        | _ \<Rightarrow> Inr (Some (unknown_explanation (pr_asset_key req) ips ''no_router_source_context''))))"

section \<open>A table of facts\<close>

text \<open>What a table promises to the code that replaces a family of facts: reading after an update sees the update, and
  two updates are one.\<close>

locale fact_table =
  fixes rows :: "'s \<Rightarrow> 'r list" and update :: "('r list \<Rightarrow> 'r list) \<Rightarrow> 's \<Rightarrow> 's" and key :: "'r \<Rightarrow> int \<times> string"
  assumes rows_update [simp]: "rows (update f s) = f (rows s)"
    and update_id: "update (\<lambda>xs. xs) s = s"
    and update_update: "update f (update g s) = update (\<lambda>xs. f (g xs)) s"
begin

text \<open>Nothing but this table changes.\<close>

definition table_only :: "'s \<Rightarrow> 's \<Rightarrow> bool" where
  "table_only s t \<longleftrightarrow> (\<exists>h. t = update h s)"

lemma table_frame: "frame table_only"
proof
  show "table_only s s" for s unfolding table_only_def by (rule exI [of _ "\<lambda>xs. xs"]) (simp add: update_id)
  show "table_only s u" if "table_only s t" "table_only t u" for s t u
    using that by (auto simp: table_only_def update_update)
qed

lemma replace_facts_only: "confined table_only (replace_facts rows update key source_id row_of reported)"
  unfolding replace_facts_def insert_fact_def
  by (intro frame.frame_rules [OF table_frame] frame.w_modify [OF table_frame]) (auto simp: table_only_def)

lemma insert_fact_Inr: "insert_fact rows update key r s = (Inr u, t) \<Longrightarrow> rows t = rows s @ [r]"
  by (auto simp: insert_fact_def bind_def gets_def raise_def modify_def split: if_splits)

lemma insert_loop:
  "foldM (\<lambda>_ (i, x). bind (lift (row_of i x)) (insert_fact rows update key)) u (enumerate n xs) s = (Inr v, t)
    \<Longrightarrow> \<exists>new. length new = length xs \<and> (\<forall>i < length xs. row_of (n + i) (xs ! i) = Inr (new ! i)) \<and> rows t = rows s @ new"
proof (induction xs arbitrary: n u s)
  case (Cons x xs)
  from Cons.prems obtain r u' s' where r: "row_of n x = Inr r" and i: "insert_fact rows update key r s = (Inr u', s')"
    and rest: "foldM (\<lambda>_ (i, x). bind (lift (row_of i x)) (insert_fact rows update key)) u' (enumerate (Suc n) xs) s' = (Inr v, t)"
    by (auto simp: bind_Inr lift_Inr)
  from Cons.IH [OF rest] obtain new where new: "length new = length xs"
      "\<forall>i < length xs. row_of (Suc n + i) (xs ! i) = Inr (new ! i)" "rows t = rows s' @ new" by blast
  have "row_of (n + i) ((x # xs) ! i) = Inr ((r # new) ! i)" if "i < length (x # xs)" for i
    using that r new(2) by (cases i) simp_all
  with new(1,3) insert_fact_Inr [OF i] show ?case by (intro exI [of _ "r # new"]) simp
qed (simp add: ret_def)

lemma replace_facts_Inr:
  assumes "replace_facts rows update key source_id row_of reported s = (Inr u, t)"
  shows "\<exists>xs new. py_iter reported = Inr xs \<and> length new = length xs \<and> (\<forall>i < length xs. row_of i (xs ! i) = Inr (new ! i))
    \<and> rows t = filter (\<lambda>r. fst (key r) \<noteq> source_id) (rows s) @ new"
proof -
  from assms obtain xs where xs: "py_iter reported = Inr xs"
    and loop: "foldM (\<lambda>_ (i, x). bind (lift (row_of i x)) (insert_fact rows update key)) () (enumerate 0 xs)
        (update (filter (\<lambda>r. fst (key r) \<noteq> source_id)) s) = (Inr u, t)"
    by (auto simp: replace_facts_def seq_Inr bind_Inr modify_def lift_Inr)
  from insert_loop [OF loop] xs show ?thesis by auto
qed

end

interpretation tf: fact_table pd_filter pd_filter_update rule_key by unfold_locales (simp_all add: comp_def)
interpretation tn: fact_table pd_nat pd_nat_update rule_key by unfold_locales (simp_all add: comp_def)
interpretation tm: fact_table pd_mangle pd_mangle_update rule_key by unfold_locales (simp_all add: comp_def)
interpretation tr: fact_table pd_routing pd_routing_update routing_key by unfold_locales (simp_all add: comp_def)
interpretation tl: fact_table pd_lists pd_lists_update list_key by unfold_locales (simp_all add: comp_def)
interpretation ti: fact_table pd_ipsec pd_ipsec_update ipsec_key by unfold_locales (simp_all add: comp_def)

section \<open>What saving does\<close>

text \<open>The result of one family: nothing, or exactly the reported rows for this source and every other source as before.\<close>

definition family_saved ::
    "bool \<Rightarrow> ('r \<Rightarrow> int \<times> string) \<Rightarrow> ('r \<Rightarrow> nat) \<Rightarrow> ('r \<Rightarrow> json) \<Rightarrow> (nat \<Rightarrow> json \<Rightarrow> 'r res) \<Rightarrow> int \<Rightarrow> json \<Rightarrow> 'r list \<Rightarrow> 'r list \<Rightarrow> bool" where
  "family_saved ok key position as_record row_of source_id reported before after =
     (if ok then (\<exists>xs new. py_iter reported = Inr xs \<and> length new = length xs \<and> (\<forall>i < length xs. row_of i (xs ! i) = Inr (new ! i))
        \<and> facts_of key position as_record source_id after = map as_record new
        \<and> (\<forall>other. other \<noteq> source_id \<longrightarrow> facts_of key position as_record other after = facts_of key position as_record other before))
      else after = before)"

lemma facts_of_replaced:
  assumes "length new = length xs" and "\<forall>i < length xs. row_of i (xs ! i) = Inr (new ! i)"
    and row: "\<And>i x r. row_of i x = Inr r \<Longrightarrow> fst (key r) = source_id \<and> position r = i"
  shows "facts_of key position as_record source_id (filter (\<lambda>r. fst (key r) \<noteq> source_id) rows @ new) = map as_record new"
    and "other \<noteq> source_id \<Longrightarrow> facts_of key position as_record other (filter (\<lambda>r. fst (key r) \<noteq> source_id) rows @ new)
      = facts_of key position as_record other rows"
proof -
  have at: "fst (key (new ! i)) = source_id" "position (new ! i) = i" if "i < length new" for i
    using row assms(1,2) that by auto
  then have src: "fst (key r) = source_id" if "r \<in> set new" for r
    using that by (auto simp: in_set_conv_nth)
  have "sorted (map (\<lambda>r. (position r, snd (key r))) new)"
    unfolding sorted_iff_nth_mono by (auto simp: at less_eq_prod_def nat_less_le)
  then have "sort_key (\<lambda>r. (position r, snd (key r))) new = new" by (rule sort_key_id_if_sorted)
  moreover have "filter (\<lambda>r. fst (key r) = source_id) new = new" by (rule filter_True) (simp add: src)
  ultimately show "facts_of key position as_record source_id (filter (\<lambda>r. fst (key r) \<noteq> source_id) rows @ new) = map as_record new"
    by (simp add: facts_of_def)
  assume "other \<noteq> source_id"
  then have "filter (\<lambda>r. fst (key r) = other) new = []" using src by (auto simp: filter_empty_conv)
  moreover have "filter (\<lambda>r. fst (key r) = other) (filter (\<lambda>r. fst (key r) \<noteq> source_id) rows) = filter (\<lambda>r. fst (key r) = other) rows"
    using \<open>other \<noteq> source_id\<close> by (auto intro: filter_cong)
  ultimately show "facts_of key position as_record other (filter (\<lambda>r. fst (key r) \<noteq> source_id) rows @ new) = facts_of key position as_record other rows"
    by (simp add: facts_of_def)
qed

text \<open>The rows built from a report carry the source and the position.\<close>

lemma row_of_facts:
  "rule_row_of L sid ts run i x = Inr r \<Longrightarrow> fst (rule_key r) = sid \<and> ru_position r = i"
  "routing_row_of L sid ts run i x = Inr r' \<Longrightarrow> fst (routing_key r') = sid \<and> rr_position r' = i"
  "ipsec_row_of L sid ts run i x = Inr r'' \<Longrightarrow> fst (ipsec_key r'') = sid \<and> ip_position r'' = i"
  by (auto simp: rule_row_of_def routing_row_of_def ipsec_row_of_def rule_key_def routing_key_def ipsec_key_def
    rbind_Inr_iff split: if_splits)

context fact_table
begin

lemma family_step:
  assumes step: "on_success outcomes family (replace_facts rows update key source_id row_of reported) s = (Inr u, t)"
    and row: "\<And>i x r. row_of i x = Inr r \<Longrightarrow> fst (key r) = source_id \<and> position r = i"
  shows "family_saved (map_of outcomes family = Some ''success'') key position as_record row_of source_id reported (rows s) (rows t)"
proof (cases "map_of outcomes family = Some ''success''")
  case True
  with step have "replace_facts rows update key source_id row_of reported s = (Inr u, t)" by (simp add: on_success_def)
  from replace_facts_Inr [OF this] obtain xs new where new: "py_iter reported = Inr xs" "length new = length xs"
      "\<forall>i < length xs. row_of i (xs ! i) = Inr (new ! i)"
      "rows t = filter (\<lambda>r. fst (key r) \<noteq> source_id) (rows s) @ new" by blast
  note read = facts_of_replaced [where key = key and position = position and as_record = as_record and rows = "rows s"
      and row_of = row_of and source_id = source_id, OF new(2,3) row]
  show ?thesis unfolding family_saved_def new(4) using True new(1-3) read by auto
next
  case False
  with step show ?thesis by (simp add: on_success_def family_saved_def ret_def)
qed

lemma step_only:
  assumes "on_success outcomes family (replace_facts rows update key source_id row_of reported) s = (r, t)"
  obtains h where "t = update h s"
  using confinedD [OF frame.w_if [OF table_frame replace_facts_only frame.w_ret [OF table_frame]] assms [unfolded on_success_def]]
  by (auto simp: table_only_def)

end

lemma new_run_Inr:
  assumes "new_run source_id outcomes observed_at s = (Inr i, t)"
  shows "\<exists>r. t = pd_runs_update (\<lambda>rs. rs @ [r]) s \<and> fr_source_id r = source_id \<and> fr_status r = run_status outcomes
    \<and> i = fr_id r \<and> (\<forall>q \<in> set (pd_runs s). fr_id q < fr_id r)"
  using assms by (auto simp: new_run_def bind_def gets_def seq_def modify_def ret_def next_id_fresh)


section \<open>What the engine makes of stored facts\<close>

lemma replace_keeps_runs:
  assumes "\<And>f s. pd_runs (update f s) = pd_runs s"
  shows "confined (same pd_runs) (on_success outcomes family (replace_facts rows update key source_id row_of reported))"
  unfolding on_success_def replace_facts_def insert_fact_def
  by (intro sm.frame_rules sm.w_modify) (simp_all add: same_def assms)

lemma save_path_facts_runs:
  assumes run: "save_path_facts L source_id snapshot outcomes observed_at s = (r, t)"
  shows "\<exists>q. pd_runs t = pd_runs s @ [q] \<and> fr_source_id q = source_id \<and> fr_status q = run_status outcomes
    \<and> (\<forall>p \<in> set (pd_runs s). fr_id p < fr_id q)"
proof -
  obtain i s1 where r1: "new_run source_id outcomes observed_at s = (Inr i, s1)"
    by (simp add: new_run_def bind_def gets_def seq_def modify_def ret_def)
  have "pd_runs t = pd_runs s1"
    using run unfolding save_path_facts_def Let_def bind_def [of "new_run source_id outcomes observed_at"] r1
    by simp (erule confined_sameD [rotated], intro sm.w_seq sm.w_ret replace_keeps_runs, simp_all)
  with new_run_Inr [OF r1] show ?thesis by auto
qed

lemma latest_run_snoc:
  assumes "pd_runs db = rs @ [q]" and "fr_source_id q = source_id" and "\<forall>p \<in> set rs. fr_id p < fr_id q"
  shows "latest_run db source_id = Some q"
proof -
  have "sort_key fr_id (filter (\<lambda>r. fr_source_id r = source_id) (pd_runs db))
      = sort_key fr_id (filter (\<lambda>r. fr_source_id r = source_id) rs) @ [q]"
    using assms sort_key_snoc_max [of "filter (\<lambda>r. fr_source_id r = source_id) rs" fr_id q] by (simp add: order_less_imp_le)
  then show ?thesis
    by (cases "sort_key fr_id (filter (\<lambda>r. fr_source_id r = source_id) rs)") (simp_all add: latest_run_def)
qed


lemma list_record_no_list: "get (list_record r) ''list'' = JNull"
  by (simp add: list_record_def get_default_def)

lemma list_scan_stored: "name \<noteq> [] \<Longrightarrow> list_scan L name address False (map list_record rows) = None"
  by (induction rows) (simp_all add: list_record_no_list)

text \<open>Stored address lists never resolve. The rows of an address list are stored with the name of the list in the
  column \<open>list_name\<close>, while the matcher looks for the key \<open>list\<close>; so against stored facts no address is ever found
  in, or excluded from, a named list, and every enabled forward rule that names a source list and is not
  excluded by its addresses makes the verdict unknown.\<close>

theorem stored_address_lists_unresolved:
  fixes L db now source_id max_age
  defines "entries \<equiv> pf_address_lists (path_facts_of L db now source_id max_age)"
  assumes "name \<noteq> []"
  shows "matches_address_list L entries (JStr name) address = None
    \<and> (get rule ''src_address_list'' = JStr name \<and> \<not> skipped_rule L rule \<and> Some False \<notin> set (address_matches L entries req src rule)
      \<longrightarrow> evaluate_filter L entries req src (rule # rules) = (Some Unknown, Some ''unresolved_filter_address_matcher''))"
proof -
  have none: "matches_address_list L entries (JStr name) a = None" for a
    using assms(2) by (simp add: matches_address_list_def entries_def path_facts_of_def facts_of_def list_scan_stored)
  then have "get rule ''src_address_list'' = JStr name \<Longrightarrow> None \<in> set (address_matches L entries req src rule)"
    by (simp add: address_matches_def)
  with none show ?thesis by (simp add: evaluate_filter.simps(2) Let_def)
qed

section \<open>Instances\<close>

definition fdemo_db :: path_db where
  "fdemo_db = \<lparr>pd_runs = [], pd_filter = [], pd_nat = [], pd_mangle = [], pd_routing = [], pd_lists = [], pd_ipsec = [], pd_routes = []\<rparr>"

definition fdemo_snapshot :: json where
  "fdemo_snapshot = JObj [(''firewall_filter_rules'', JList [pdemo_drop])]"

definition fdemo_ctx :: context_db where
  "fdemo_ctx = \<lparr>c_assets = [\<lparr>as_id = 1, as_key = ''a1'', as_provisional = False, as_status = ''active'', as_updated_at = ''T1''\<rparr>],
     c_sources = [], c_interfaces = [],
     c_observations = [\<lparr>ob_id = 1, ob_asset_id = 1, ob_interface_id = None, ob_site = ''s'', ob_source_id = Some 7, ob_ip = ''192.0.2.1'',
       ob_first_seen_at = ''T1'', ob_last_seen_at = ''T1'', ob_is_current = True\<rparr>],
     c_findings = [], c_attachments = [], c_heads = [], c_revisions = [], c_users = [], c_bindings = []\<rparr>"



theorem stored_address_lists_unresolved_witness:
  "matches_address_list pdemo_L (pf_address_lists (path_facts_of pdemo_L fdemo_db 0 7 900)) (JStr ''blocked'') ''192.0.2.1'' = None"
  using stored_address_lists_unresolved [of "''blocked''"] by blast

end
