(* ===== verification/Stage_Ladder.thy ===== *)
theory Stage_Ladder
  imports Canonical_Json
begin

text \<open>
  Stage histories. The provisioning jobs and the installation sessions of the controller both record, next to
  their stage, the list of stages entered so far with the time of entry; both validators walk that list with an
  index and the time of the previous item. \<open>scan_history\<close> is that walk over a check of one item. The locale
  \<open>stage_ladder\<close> states what such a check promises and proves once what a valid history is: a prefix of the
  ladder of stages, entered at times that never decrease.
\<close>

text \<open>A time that lies before the previous one, if there is one.\<close>

definition behind :: "int \<Rightarrow> int option \<Rightarrow> bool" where
  "behind t previous = (case previous of None \<Rightarrow> False | Some p \<Rightarrow> t < p)"

lemma behind_iff: "behind t previous \<longleftrightarrow> (\<exists>p. previous = Some p \<and> t < p)"
  by (simp add: behind_def split: option.splits)

fun scan_history :: "(nat \<Rightarrow> int option \<Rightarrow> json \<Rightarrow> int res) \<Rightarrow> nat \<Rightarrow> int option \<Rightarrow> json list \<Rightarrow> int option res" where
  "scan_history check i previous [] = Inr previous"
| "scan_history check i previous (item # history) =
     rbind (check i previous item) (\<lambda>t. scan_history check (Suc i) (Some t) history)"

lemma scan_history_append:
  "scan_history check i previous (xs @ ys) =
     rbind (scan_history check i previous xs) (\<lambda>p. scan_history check (i + length xs) p ys)"
proof (induction xs arbitrary: i previous)
  case (Cons x xs)
  then show ?case by (cases "check i previous x") simp_all
qed simp

text \<open>Identifiers with a time stamp: a prefix, eight digits, \<open>T\<close>, six digits, \<open>Z-\<close> and eight hexadecimal digits.\<close>

definition stamped_id_re :: "string \<Rightarrow> string \<Rightarrow> bool" where
  "stamped_id_re p s \<longleftrightarrow> startswith s p \<and> (let r = drop (length p) s in length r = 25 \<and> list_all is_digit (take 8 r)
     \<and> r ! 8 = CHR ''T'' \<and> list_all is_digit (take 6 (drop 9 r)) \<and> take 2 (drop 15 r) = ''Z-''
     \<and> list_all is_hex_lower (drop 17 r))"

text \<open>The position of a stage: \<open>STAGE_INDEX[stage]\<close>.\<close>

fun index_of :: "string list \<Rightarrow> string \<Rightarrow> nat" where
  "index_of [] x = 0"
| "index_of (y # ys) x = (if x = y then 0 else Suc (index_of ys x))"

lemma index_of_nth: "distinct xs \<Longrightarrow> i < length xs \<Longrightarrow> index_of xs (xs ! i) = i"
proof (induction xs arbitrary: i)
  case (Cons x xs)
  then show ?case by (cases i) auto
qed simp

lemma nth_index_of: "x \<in> set xs \<Longrightarrow> index_of xs x < length xs \<and> xs ! index_of xs x = x"
  by (induction xs) auto

locale stage_ladder =
  fixes stages :: "string list"
    and check :: "nat \<Rightarrow> int option \<Rightarrow> json \<Rightarrow> int res"
    and item_stage :: "json \<Rightarrow> string"
    and item_time :: "json \<Rightarrow> int option"
  assumes distinct_stages: "distinct stages"
    and check_sound: "check i previous item = Inr t \<Longrightarrow> i < length stages \<and> item_stage item = stages ! i
        \<and> item_time item = Some t \<and> (\<forall>p. previous = Some p \<longrightarrow> p \<le> t)"
begin

lemma scan_sound:
  assumes "scan_history check i previous xs = Inr q"
  shows "i + length xs \<le> length stages \<or> xs = []"
    and "map item_stage xs = take (length xs) (drop i stages)"
    and "\<exists>ts. map item_time xs = map Some ts \<and> sorted ts \<and> (\<forall>p. previous = Some p \<longrightarrow> (\<forall>t \<in> set ts. p \<le> t))
      \<and> q = (if ts = [] then previous else Some (last ts))"
proof -
  have "(i + length xs \<le> length stages \<or> xs = []) \<and> map item_stage xs = take (length xs) (drop i stages)
      \<and> (\<exists>ts. map item_time xs = map Some ts \<and> sorted ts \<and> (\<forall>p. previous = Some p \<longrightarrow> (\<forall>t \<in> set ts. p \<le> t))
          \<and> q = (if ts = [] then previous else Some (last ts)))"
    using assms
  proof (induction xs arbitrary: i previous)
    case (Cons x xs)
    from Cons.prems obtain t where t: "check i previous x = Inr t" and rest: "scan_history check (Suc i) (Some t) xs = Inr q"
      by (auto simp: rbind_Inr_iff)
    note c = check_sound [OF t]
    from Cons.IH [OF rest] obtain ts where ts: "map item_time xs = map Some ts" "sorted ts" "\<forall>u \<in> set ts. t \<le> u"
        "q = (if ts = [] then Some t else Some (last ts))" by auto
    from c have d: "drop i stages = stages ! i # drop (Suc i) stages" by (simp add: Cons_nth_drop_Suc)
    have "\<exists>us. map item_time (x # xs) = map Some us \<and> sorted us \<and> (\<forall>p. previous = Some p \<longrightarrow> (\<forall>u \<in> set us. p \<le> u))
        \<and> q = (if us = [] then previous else Some (last us))"
      using c ts by (intro exI [of _ "t # ts"]) fastforce
    moreover have "map item_stage (x # xs) = take (length (x # xs)) (drop i stages)"
      using Cons.IH [OF rest] c d by simp
    moreover have "i + length (x # xs) \<le> length stages"
      using Cons.IH [OF rest] c by (cases xs) auto
    ultimately show ?case by blast
  qed auto
  then show "i + length xs \<le> length stages \<or> xs = []" "map item_stage xs = take (length xs) (drop i stages)"
    "\<exists>ts. map item_time xs = map Some ts \<and> sorted ts \<and> (\<forall>p. previous = Some p \<longrightarrow> (\<forall>t \<in> set ts. p \<le> t))
      \<and> q = (if ts = [] then previous else Some (last ts))" by blast+
qed

lemma history_prefix:
  assumes "scan_history check 0 None xs = Inr q"
  shows "length xs \<le> length stages" and "map item_stage xs = take (length xs) stages"
    and "\<exists>ts. map item_time xs = map Some ts \<and> sorted ts"
  using scan_sound [OF assms] by auto

text \<open>The stage of a valid history determines its length, so a history that ends in the next stage is one longer.\<close>

lemma current_index:
  assumes "scan_history check 0 None xs = Inr q" and "xs \<noteq> []"
  shows "index_of stages (item_stage (last xs)) = length xs - 1"
proof -
  have n: "length xs - 1 < length xs" "length xs \<le> length stages"
    using assms(2) history_prefix(1) [OF assms(1)] by simp_all
  have "item_stage (last xs) = map item_stage xs ! (length xs - 1)" using assms(2) n by (simp add: last_conv_nth)
  also have "\<dots> = stages ! (length xs - 1)" unfolding history_prefix(2) [OF assms(1)] using n by simp
  finally show ?thesis using index_of_nth [OF distinct_stages] n by simp
qed

end

end
