(* ===== verification/Install_Session.thy ===== *)
theory Install_Session
  imports Stage_Ladder
begin

text \<open>
  Installation sessions of the controller (\<open>alt_deploy/install_session_state.py\<close>): the ladder of stages of a session, the
  life cycle of the destructive execution it may authorize, and the validation of both. An execution record binds
  a plan, an inventory, one disk, one image and a manifest; the validator of transitions decides which record may
  replace which. Records are the JSON documents the controller stores; every refusal is a \<open>ControlError\<close>.
\<close>

section \<open>Constants\<close>

definition INSTALL_SESSION_STAGES :: "string list" where
  "INSTALL_SESSION_STAGES = [''session_created'', ''inventory_validated'', ''awaiting_approval'', ''plan_built'', ''plan_signed'', ''published'']"

definition TERMINAL_STATES :: "string list" where
  "TERMINAL_STATES = [''cancelled'', ''expired'']"

definition sha256_re :: "string \<Rightarrow> bool" where
  "sha256_re = class_match is_hex_lower 64 64"

definition fingerprint_re :: "string \<Rightarrow> bool" where
  "fingerprint_re s \<longleftrightarrow> startswith s ''sha256:'' \<and> sha256_re (drop 7 s)"

definition name_char :: "char \<Rightarrow> bool" where
  "name_char c \<longleftrightarrow> is_alnum c \<or> in_chars ''._+-'' c"

definition device_re :: "string \<Rightarrow> bool" where
  "device_re s \<longleftrightarrow> startswith s ''/dev/'' \<and> class_match name_char 1 63 (drop 5 s)"

definition identifier_re :: "string \<Rightarrow> bool" where
  "identifier_re = ident_match is_alnum name_char 127"

definition EXECUTION_BINDING_KEYS :: "string list" where
  "EXECUTION_BINDING_KEYS = [''authorized_at'', ''expires_at'', ''plan_sha256'', ''inventory_sha256'', ''disk_fingerprint'',
     ''target_disk'', ''reason'', ''profile_id'', ''profile_version'', ''iso_id'', ''iso_sha256'', ''manifest_sha256'']"

definition ORDERED_FIELDS :: "string list" where
  "ORDERED_FIELDS = [''claimed_at'', ''handoff_started_at'', ''installer_started_at'', ''installed_at'', ''failed_at'',
     ''cancelled_at'', ''expired_at'']"

definition EXECUTION_STATUS_KEYS :: "string list" where
  "EXECUTION_STATUS_KEYS = [''schema_version'', ''revision'', ''state'', ''authorized_at'', ''expires_at'', ''plan_sha256'',
     ''inventory_sha256'', ''disk_fingerprint'', ''target_disk'', ''reason'', ''profile_id'', ''profile_version'', ''iso_id'',
     ''iso_sha256'', ''manifest_sha256'', ''claimed_at'', ''handoff_started_at'', ''installer_started_at'', ''installed_at'',
     ''failed_at'', ''failure_code'', ''cancelled_at'', ''cancel_reason'', ''expired_at'']"

definition EXECUTION_STATES :: "string list" where
  "EXECUTION_STATES = [''authorized'', ''claimed'', ''handoff_started'', ''installer_started'', ''installed'', ''failed'',
     ''cancelled'', ''expired'']"

definition EXECUTION_TRANSITIONS :: "(string \<times> string list) list" where
  "EXECUTION_TRANSITIONS =
     [(''authorized'', [''claimed'', ''cancelled'', ''expired'']),
      (''claimed'', [''handoff_started'', ''cancelled'', ''expired'']),
      (''handoff_started'', [''installer_started'', ''cancelled'', ''expired'']),
      (''installer_started'', [''installed'', ''failed'']),
      (''installed'', []), (''failed'', []), (''cancelled'', []), (''expired'', [])]"

definition EXECUTION_TIME_BY_STATE :: "(string \<times> string) list" where
  "EXECUTION_TIME_BY_STATE = [(''authorized'', ''authorized_at''), (''claimed'', ''claimed_at''),
     (''handoff_started'', ''handoff_started_at''), (''installer_started'', ''installer_started_at''),
     (''installed'', ''installed_at''), (''failed'', ''failed_at''), (''cancelled'', ''cancelled_at''), (''expired'', ''expired_at'')]"

definition EXECUTION_TRANSITION_FIELDS :: "((string \<times> string) \<times> string list) list" where
  "EXECUTION_TRANSITION_FIELDS =
     [((''authorized'', ''claimed''), [''state'', ''claimed_at'']),
      ((''authorized'', ''cancelled''), [''state'', ''cancelled_at'', ''cancel_reason'']),
      ((''authorized'', ''expired''), [''state'', ''expired_at'']),
      ((''claimed'', ''handoff_started''), [''state'', ''handoff_started_at'']),
      ((''claimed'', ''cancelled''), [''state'', ''cancelled_at'', ''cancel_reason'']),
      ((''claimed'', ''expired''), [''state'', ''expired_at'']),
      ((''handoff_started'', ''installer_started''), [''state'', ''installer_started_at'']),
      ((''handoff_started'', ''cancelled''), [''state'', ''cancelled_at'', ''cancel_reason'']),
      ((''handoff_started'', ''expired''), [''state'', ''expired_at'']),
      ((''installer_started'', ''installed''), [''state'', ''installed_at'']),
      ((''installer_started'', ''failed''), [''state'', ''failed_at'', ''failure_code''])]"

definition REACHED :: "(string \<times> string list) list" where
  "REACHED =
     [(''authorized'', []), (''claimed'', [''claimed_at'']), (''handoff_started'', [''claimed_at'', ''handoff_started_at'']),
      (''installer_started'', [''claimed_at'', ''handoff_started_at'', ''installer_started_at'']),
      (''installed'', [''claimed_at'', ''handoff_started_at'', ''installer_started_at'', ''installed_at'']),
      (''failed'', [''claimed_at'', ''handoff_started_at'', ''installer_started_at'', ''failed_at'']),
      (''cancelled'', [''claimed_at'', ''handoff_started_at'', ''cancelled_at'']),
      (''expired'', [''claimed_at'', ''handoff_started_at'', ''expired_at''])]"

text \<open>A table of the source looked up at a key it has.\<close>

definition table_of :: "(string \<times> 'a list) list \<Rightarrow> string \<Rightarrow> 'a list" where
  "table_of t k = (case map_of t k of None \<Rightarrow> [] | Some v \<Rightarrow> v)"

section \<open>The record of an execution\<close>

definition execution_invalid :: "string \<Rightarrow> exn" where
  "execution_invalid m = ControlError ''install_execution_status_invalid'' m 4"

definition execution_timestamp :: "pylib \<Rightarrow> json \<Rightarrow> int res" where
  "execution_timestamp L v = (case v of
     JStr s \<Rightarrow> (case fromiso L s of Some (Aware t) \<Rightarrow> Inr t
        | _ \<Rightarrow> Inl (execution_invalid ''Install execution timestamp is invalid''))
   | _ \<Rightarrow> Inl (execution_invalid ''Install execution timestamp is invalid''))"

definition text_matching :: "(string \<Rightarrow> bool) \<Rightarrow> json \<Rightarrow> bool" where
  "text_matching p v = (case v of JStr s \<Rightarrow> p s | _ \<Rightarrow> False)"

definition short_text :: "json \<Rightarrow> bool" where
  "short_text = text_matching (\<lambda>s. 1 \<le> length s \<and> length s \<le> 256)"

definition no_password_hash :: "json \<Rightarrow> bool" where
  "no_password_hash v = (\<not> text_matching (contains_str [CHR ''$'', CHR ''y'', CHR ''$'']) v)"

definition binding_valid :: "json \<Rightarrow> bool" where
  "binding_valid ex \<longleftrightarrow> text_matching sha256_re (get ex ''plan_sha256'') \<and> text_matching sha256_re (get ex ''inventory_sha256'')
     \<and> text_matching fingerprint_re (get ex ''disk_fingerprint'') \<and> text_matching device_re (get ex ''target_disk'')
     \<and> text_matching sha256_re (get ex ''manifest_sha256'') \<and> text_matching identifier_re (get ex ''profile_id'')
     \<and> type_is_int (get ex ''profile_version'') \<and> 1 \<le> int_value (get ex ''profile_version'')
     \<and> text_matching identifier_re (get ex ''iso_id'') \<and> text_matching sha256_re (get ex ''iso_sha256'')
     \<and> short_text (get ex ''reason'')"

text \<open>The fields, the versions, the state.\<close>

definition check_header :: "json \<Rightarrow> unit res" where
  "check_header ex = rbind (guard (is_dict ex \<and> keyset ex = set EXECUTION_STATUS_KEYS)
       (execution_invalid ''Install execution status fields are invalid'')) (\<lambda>_.
     rbind (guard (get ex ''schema_version'' = JInt 1 \<and> get ex ''revision'' = JInt 1)
       (execution_invalid ''Install execution status is invalid'')) (\<lambda>_.
     rbind (in_str_set (get ex ''state'') EXECUTION_STATES) (\<lambda>known.
     guard (known \<and> list_all (\<lambda>(k, v). no_password_hash v) (items ex)) (execution_invalid ''Install execution status is invalid''))))"

definition binding_present :: "json \<Rightarrow> bool" where
  "binding_present ex = list_all (\<lambda>k. get ex k \<noteq> JNull) EXECUTION_BINDING_KEYS"

definition binding_absent :: "json \<Rightarrow> bool" where
  "binding_absent ex = list_all (\<lambda>k. get ex k = JNull) EXECUTION_BINDING_KEYS"

text \<open>The binding; the result is the time of authorization, when there is a binding.\<close>

definition check_binding :: "pylib \<Rightarrow> json \<Rightarrow> int option res" where
  "check_binding L ex =
     rbind (if get ex ''state'' = JStr ''cancelled''
            then guard (binding_present ex \<or> binding_absent ex) (execution_invalid ''Install execution cancellation binding is invalid'')
            else guard (binding_present ex) (execution_invalid ''Install execution binding is invalid'')) (\<lambda>_.
     if \<not> binding_present ex then Inr None
     else rbind (guard (binding_valid ex) (execution_invalid ''Install execution binding is invalid'')) (\<lambda>_.
       rbind (execution_timestamp L (get ex ''authorized_at'')) (\<lambda>authorized.
       rbind (execution_timestamp L (get ex ''expires_at'')) (\<lambda>expires.
       rbind (guard (authorized < expires) (execution_invalid ''Install execution expiry is invalid'')) (\<lambda>_. Inr (Some authorized))))))"

fun parse_times :: "pylib \<Rightarrow> json \<Rightarrow> int option \<Rightarrow> string list \<Rightarrow> (string \<times> int) list res" where
  "parse_times L ex authorized [] = Inr []"
| "parse_times L ex authorized (name # names) =
     (if get ex name = JNull then parse_times L ex authorized names
      else rbind (execution_timestamp L (get ex name)) (\<lambda>t.
        rbind (guard (\<not> behind t authorized) (execution_invalid ''Install execution timestamps move backwards'')) (\<lambda>_.
        rbind (parse_times L ex authorized names) (\<lambda>rest. Inr ((name, t) # rest)))))"

text \<open>Which times are recorded, and in which order.\<close>

definition check_times :: "pylib \<Rightarrow> json \<Rightarrow> int option \<Rightarrow> unit res" where
  "check_times L ex authorized =
     rbind (parse_times L ex authorized ORDERED_FIELDS) (\<lambda>times.
     let state = str_value (get ex ''state'');
         required = (case map_of EXECUTION_TIME_BY_STATE state of None \<Rightarrow> [] | Some f \<Rightarrow> f) in
     rbind (guard (get ex required \<noteq> JNull) (execution_invalid ''Install execution state timestamp is missing'')) (\<lambda>_.
     rbind (guard (list_all (\<lambda>n. n \<in> set (table_of REACHED state) \<or> get ex n = JNull) ORDERED_FIELDS)
       (execution_invalid ''Install execution state timestamps are invalid'')) (\<lambda>_.
     rbind (guard (\<not> (get ex ''handoff_started_at'' \<noteq> JNull \<and> get ex ''claimed_at'' = JNull))
       (execution_invalid ''Install execution state timestamps are invalid'')) (\<lambda>_.
     guard (sorted (map snd times)) (execution_invalid ''Install execution timestamps move backwards'')))))"

definition check_reasons :: "json \<Rightarrow> unit res" where
  "check_reasons ex =
     rbind (guard (if get ex ''state'' = JStr ''failed'' then text_matching identifier_re (get ex ''failure_code'')
         else get ex ''failure_code'' = JNull) (execution_invalid ''Install execution failure code is invalid'')) (\<lambda>_.
     guard (if get ex ''state'' = JStr ''cancelled'' then short_text (get ex ''cancel_reason'')
         else get ex ''cancel_reason'' = JNull) (execution_invalid ''Install execution cancellation reason is invalid''))"

definition validate_execution_status :: "pylib \<Rightarrow> json \<Rightarrow> unit res" where
  "validate_execution_status L ex = rbind (check_header ex) (\<lambda>_. rbind (check_binding L ex) (\<lambda>authorized.
     rbind (check_times L ex authorized) (\<lambda>_. check_reasons ex)))"

section \<open>Transitions of an execution\<close>

definition changed_outside :: "json \<Rightarrow> json \<Rightarrow> string list \<Rightarrow> bool" where
  "changed_outside before after mutable =
     list_ex (\<lambda>k. k \<notin> set mutable \<and> \<not> py_eq (get before k) (get after k)) EXECUTION_STATUS_KEYS"

definition validate_execution_transition :: "pylib \<Rightarrow> json \<Rightarrow> json \<Rightarrow> unit res" where
  "validate_execution_transition L before after =
     (if before = JNull then
        rbind (guard (is_dict after) (execution_invalid ''Install execution status is invalid'')) (\<lambda>_.
        rbind (validate_execution_status L after) (\<lambda>_.
        guard (get after ''state'' \<in> {JStr ''authorized'', JStr ''cancelled''})
          (execution_invalid ''Install execution initial transition is invalid'')))
      else rbind (guard (is_dict before \<and> is_dict after) (execution_invalid ''Install execution status is invalid'')) (\<lambda>_.
        rbind (validate_execution_status L before) (\<lambda>_.
        rbind (validate_execution_status L after) (\<lambda>_.
        if py_eq before after then Inr ()
        else let b = str_value (get before ''state''); a = str_value (get after ''state'');
                 mutable = (case map_of EXECUTION_TRANSITION_FIELDS (b, a) of None \<Rightarrow> [] | Some fs \<Rightarrow> fs) in
          guard (a \<in> set (table_of EXECUTION_TRANSITIONS b) \<and> \<not> changed_outside before after mutable)
            (execution_invalid ''Install execution transition is invalid'')))))"

section \<open>The stages of a session\<close>

definition stage_invalid :: "string \<Rightarrow> exn" where
  "stage_invalid m = ControlError ''install_session_stage_history_invalid'' m 4"

definition stage_timestamp :: "pylib \<Rightarrow> json \<Rightarrow> string res" where
  "stage_timestamp L v = (case v of
     JStr s \<Rightarrow> (case fromiso L s of
         None \<Rightarrow> Inl (stage_invalid ''Install session stage timestamp is invalid'')
       | Some (Naive _) \<Rightarrow> Inl (stage_invalid ''Install session stage timestamp has no timezone'')
       | Some (Aware t) \<Rightarrow> Inr (iso_utc L t))
   | _ \<Rightarrow> Inl (stage_invalid ''Install session stage timestamp is invalid''))"

text \<open>The time of an item, parsed again from its normal form.\<close>

definition reparsed :: "pylib \<Rightarrow> json \<Rightarrow> int res" where
  "reparsed L v = rbind (stage_timestamp L v) (\<lambda>s. case fromiso L s of
     None \<Rightarrow> Inl (ValueError ''Invalid isoformat string'') | Some t \<Rightarrow> Inr (stamp_utc t))"

definition session_item :: "pylib \<Rightarrow> nat \<Rightarrow> int option \<Rightarrow> json \<Rightarrow> int res" where
  "session_item L i previous item =
     rbind (guard (is_dict item \<and> keyset item = {''stage'', ''entered_at''}) (stage_invalid ''Install session stage history item is invalid'')) (\<lambda>_.
     rbind (guard (i < length INSTALL_SESSION_STAGES \<and> get item ''stage'' = JStr (INSTALL_SESSION_STAGES ! i))
       (stage_invalid ''Install session stage history is not contiguous'')) (\<lambda>_.
     rbind (reparsed L (get item ''entered_at'')) (\<lambda>t.
     rbind (guard (\<not> behind t previous) (stage_invalid ''Install session stage timestamps move backwards'')) (\<lambda>_. Inr t))))"

definition check_state :: "string \<Rightarrow> json \<Rightarrow> unit res" where
  "check_state stage state =
     rbind (guard (state = JStr ''awaiting_approval'' \<longrightarrow> stage = ''awaiting_approval'') (stage_invalid ''Awaiting approval state has an invalid stage'')) (\<lambda>_.
     rbind (guard (state = JStr ''plan_published'' \<longrightarrow> stage = ''published'') (stage_invalid ''Published plan state has an invalid stage'')) (\<lambda>_.
     rbind (guard (state = JStr ''approval_in_progress'' \<longrightarrow> stage \<in> {''plan_built'', ''plan_signed'', ''published''})
       (stage_invalid ''Approval in progress state has an invalid stage'')) (\<lambda>_.
     rbind (in_str_set state [''awaiting_approval'', ''approval_in_progress'', ''plan_published'', ''cancelled'', ''expired'']) (\<lambda>known.
     guard known (stage_invalid ''Install session state is invalid'')))))"

definition validate_session :: "pylib \<Rightarrow> json \<Rightarrow> unit res" where
  "validate_session L status =
     rbind (in_str_set (get status ''stage'') INSTALL_SESSION_STAGES) (\<lambda>known.
     rbind (guard (known \<and> is_list (get status ''stage_history'')) (stage_invalid ''Install session stage status is invalid'')) (\<lambda>_.
     let history = elems (get status ''stage_history''); stage = str_value (get status ''stage'') in
     rbind (guard (history \<noteq> [] \<and> length history \<le> length INSTALL_SESSION_STAGES)
       (stage_invalid ''Install session stage history is invalid'')) (\<lambda>_.
     rbind (scan_history (session_item L) 0 None history) (\<lambda>_.
     rbind (guard (get (last history) ''stage'' = JStr stage) (stage_invalid ''Install session stage does not match history'')) (\<lambda>_.
     rbind (check_state stage (get status ''state'')) (\<lambda>_.
     if ''execution'' \<in> keyset status
     then rbind (guard (is_dict (get status ''execution'')) (stage_invalid ''Install execution status is invalid'')) (\<lambda>_.
       validate_execution_status L (get status ''execution''))
     else Inr ()))))))"

text \<open>\<open>clock\<close> is what the clock of the manager returns.\<close>

definition advance_status :: "pylib \<Rightarrow> string \<Rightarrow> json \<Rightarrow> string \<Rightarrow> json res" where
  "advance_status L clock status next_stage =
     rbind (validate_session L status) (\<lambda>_.
     rbind (guard (str_value (get status ''state'') \<notin> set TERMINAL_STATES)
       (ControlError ''install_session_stage_terminal'' ''Cancelled install session cannot change stage'' 4)) (\<lambda>_.
     let current = str_value (get status ''stage'') in
     rbind (guard (next_stage \<in> set INSTALL_SESSION_STAGES)
       (ControlError ''invalid_install_session_stage_transition'' ''Install session next stage is unknown'' 4)) (\<lambda>_.
     if next_stage = current then Inr status
     else rbind (guard (index_of INSTALL_SESSION_STAGES next_stage = Suc (index_of INSTALL_SESSION_STAGES current))
         (ControlError ''invalid_install_session_stage_transition'' ''Install session stage is not the immediate next step'' 4)) (\<lambda>_.
       rbind (stage_timestamp L (JStr clock)) (\<lambda>entered_at.
       let history = elems (get status ''stage_history'') @ [JObj [(''stage'', JStr next_stage), (''entered_at'', JStr entered_at)]];
           s1 = set_field status ''stage'' (JStr next_stage);
           s2 = (if next_stage = ''plan_built'' then set_field s1 ''state'' (JStr ''approval_in_progress'') else s1);
           updated = set_field (set_field s2 ''stage_history'' (JList history)) ''updated_at'' (JStr entered_at) in
       rbind (validate_session L updated) (\<lambda>_. Inr updated))))))"

section \<open>The repository\<close>

text \<open>The sessions on disk: what \<open>status.json\<close> decodes to for each session. A session whose file cannot be read safely or
  decoded is \<open>Some None\<close>. A replacement of the file may fail before the rename, or after it, when only the
  synchronisation of the directory fails.\<close>

type_synonym sessions = "string \<rightharpoonup> json option"

datatype disk = Written | Write_failed | Sync_failed

definition session_id_re :: "string \<Rightarrow> bool" where
  "session_id_re = stamped_id_re ''install-''"

definition validate_session_id :: "string \<Rightarrow> string res" where
  "validate_session_id session_id = (let n = strip session_id in
     rbind (guard (session_id_re n) (ControlError ''install_session_id_invalid'' ''Install session ID is invalid'' 4)) (\<lambda>_. Inr n))"

definition session_invalid :: "string \<Rightarrow> exn" where
  "session_invalid m = ControlError ''install_session_invalid'' m 4"

definition load_status :: "string \<Rightarrow> (sessions, json) prog" where
  "load_status session_id = bind (lift (validate_session_id session_id)) (\<lambda>n. bind (gets (\<lambda>S. S n)) (\<lambda>entry. lift (case entry of
     None \<Rightarrow> Inl (ControlError ''install_session_not_found'' ''Install session does not exist'' 4)
   | Some None \<Rightarrow> Inl (session_invalid ''Install session status is invalid'')
   | Some (Some j) \<Rightarrow> if is_dict j then Inr j else Inl (session_invalid ''Install session status is not an object''))))"

definition write_status :: "disk \<Rightarrow> string \<Rightarrow> json \<Rightarrow> (sessions, unit) prog" where
  "write_status io n status = (case io of
     Written \<Rightarrow> modify (\<lambda>S. S(n \<mapsto> Some status))
   | Write_failed \<Rightarrow> raise (ControlError ''install_session_storage_failed'' ''Install session status cannot be replaced'' 6)
   | Sync_failed \<Rightarrow> seq (modify (\<lambda>S. S(n \<mapsto> Some status)))
       (raise (ControlError ''install_session_status_commit_uncertain'' ''Install session status replacement is durable-uncertain'' 6)))"

definition replace_status :: "pylib \<Rightarrow> disk \<Rightarrow> string \<Rightarrow> json \<Rightarrow> bool \<Rightarrow> bool \<Rightarrow> (sessions, unit) prog" where
  "replace_status L io session_id status allow_lifecycle allow_execution =
     bind (lift (validate_session_id session_id)) (\<lambda>n.
     seq (lift (guard (get status ''session_id'' = JStr session_id) (session_invalid ''Install session status identity is invalid'')))
     (bind (load_status session_id) (\<lambda>current.
      seq (lift (guard (allow_lifecycle \<or> list_all (\<lambda>f. py_eq (get status f) (get current f)) [''state'', ''stage'', ''stage_history''])
           (ControlError ''install_session_lifecycle_update_forbidden'' ''Install session lifecycle requires stage manager'' 4)))
      (seq (lift (if py_eq (get current ''execution'') (get status ''execution'') then Inr ()
           else rbind (guard allow_execution (ControlError ''install_execution_update_forbidden''
               ''Install execution lifecycle requires execution service'' 4)) (\<lambda>_.
             validate_execution_transition L (get current ''execution'') (get status ''execution''))))
      (write_status io n status)))))"

definition advance_session :: "pylib \<Rightarrow> disk \<Rightarrow> string \<Rightarrow> string \<Rightarrow> string \<Rightarrow> (sessions, json) prog" where
  "advance_session L io clock session_id next_stage = bind (load_status session_id) (\<lambda>status.
     bind (lift (advance_status L clock status next_stage)) (\<lambda>updated.
     if py_eq updated status then ret status
     else seq (replace_status L io session_id updated True False) (ret updated)))"

end
