(* ===== verification/Install_Correctness.thy ===== *)
theory Install_Correctness
  imports Install_Session
begin

text \<open>
  What the validators of installation sessions guarantee: over any sequence of accepted records the binding of an
  execution never changes and its times tell the whole story in order; sessions climb their ladder one stage at
  a time; and the repository stores an execution record only along an accepted transition.
\<close>

section \<open>Equality of dictionaries\<close>

lemma map_of_filter: "map_of xs k = (case filter (\<lambda>x. fst x = k) xs of [] \<Rightarrow> None | x # _ \<Rightarrow> Some (snd x))"
  by (induction xs) auto

lemma map_of_stable: "map_of (sort_key fst xs) k = map_of xs k"
proof -
  have "filter (\<lambda>x. fst x = k) (sort_key fst xs) = filter (\<lambda>x. fst x = k) xs" by (rule sort_key_stable)
  then show ?thesis unfolding map_of_filter by simp
qed

lemma canon_get: "is_dict d \<Longrightarrow> canon (get d k) = get (canon d) k"
proof (cases d)
  case (JObj kvs)
  have "map_of (map (map_prod id canon) kvs) k = map_option canon (map_of kvs k)" for k
    by (induction kvs) auto
  then show ?thesis by (simp add: JObj get_default_def map_of_stable split: option.splits)
qed simp_all

lemma py_eq_get: "is_dict a \<Longrightarrow> is_dict b \<Longrightarrow> py_eq a b \<Longrightarrow> py_eq (get a k) (get b k)"
  unfolding py_eq_def by (simp add: canon_get)

section \<open>Executions\<close>

abbreviation execution_state :: "json \<Rightarrow> string" where
  "execution_state ex \<equiv> str_value (get ex ''state'')"

text \<open>The times that a record must carry when it was reached step by step.\<close>

definition NEEDS :: "(string \<times> string list) list" where
  "NEEDS = [(''authorized'', []), (''claimed'', [''claimed_at'']), (''handoff_started'', [''claimed_at'', ''handoff_started_at'']),
     (''installer_started'', [''claimed_at'', ''handoff_started_at'', ''installer_started_at'']),
     (''installed'', [''claimed_at'', ''handoff_started_at'', ''installer_started_at'', ''installed_at'']),
     (''failed'', [''claimed_at'', ''handoff_started_at'', ''installer_started_at'', ''failed_at'']),
     (''cancelled'', [''cancelled_at'']), (''expired'', [''expired_at''])]"

fun times_of :: "pylib \<Rightarrow> json \<Rightarrow> string list \<Rightarrow> int list" where
  "times_of L ex [] = []"
| "times_of L ex (n # names) =
     (case execution_timestamp L (get ex n) of Inr t \<Rightarrow> t # times_of L ex names | Inl _ \<Rightarrow> times_of L ex names)"

definition recorded_times :: "pylib \<Rightarrow> json \<Rightarrow> int list" where
  "recorded_times L ex = times_of L ex ORDERED_FIELDS"

inductive reachable_execution :: "pylib \<Rightarrow> json \<Rightarrow> json \<Rightarrow> bool" for L where
  first: "validate_execution_transition L JNull ex = Inr () \<Longrightarrow> reachable_execution L ex ex"
| step: "reachable_execution L ex0 ex \<Longrightarrow> validate_execution_transition L ex ex' = Inr () \<Longrightarrow> reachable_execution L ex0 ex'"

definition mutable_fields :: "string \<Rightarrow> string \<Rightarrow> string list" where
  "mutable_fields b a = (case map_of EXECUTION_TRANSITION_FIELDS (b, a) of None \<Rightarrow> [] | Some fs \<Rightarrow> fs)"

definition required_time :: "string \<Rightarrow> string" where
  "required_time state = (case map_of EXECUTION_TIME_BY_STATE state of None \<Rightarrow> [] | Some f \<Rightarrow> f)"

text \<open>The tables fit together: checked edge by edge.\<close>

lemma edges_fit:
  "\<forall>b \<in> set EXECUTION_STATES. \<forall>a \<in> set (table_of EXECUTION_TRANSITIONS b).
     (\<forall>n \<in> set (table_of NEEDS a). n = required_time a \<or> n \<in> set (table_of NEEDS b))
     \<and> (\<forall>n \<in> set (mutable_fields b a). n \<notin> set (table_of NEEDS b) \<and> n \<notin> set EXECUTION_BINDING_KEYS)"
  by code_simp

lemma keys_listed:
  "(\<forall>k \<in> set EXECUTION_BINDING_KEYS. k \<in> set EXECUTION_STATUS_KEYS)
   \<and> (\<forall>b \<in> set EXECUTION_STATES. \<forall>n \<in> set (table_of NEEDS b). n \<in> set EXECUTION_STATUS_KEYS)"
  by code_simp

lemma terminal_states: "\<forall>b \<in> {''installed'', ''failed'', ''cancelled'', ''expired''}. table_of EXECUTION_TRANSITIONS b = []"
  by code_simp

lemma needs_start: "\<forall>n \<in> set (table_of NEEDS ''authorized''). False" "\<forall>n \<in> set (table_of NEEDS ''cancelled''). n = required_time ''cancelled''"
  by code_simp+

lemma timestamp_null [simp]: "execution_timestamp L JNull = Inl (execution_invalid ''Install execution timestamp is invalid'')"
  by (simp add: execution_timestamp_def)

lemma parse_times_sound:
  "parse_times L ex authorized names = Inr stamps \<Longrightarrow>
     map snd stamps = times_of L ex names \<and> (\<forall>a. authorized = Some a \<longrightarrow> (\<forall>t \<in> set (times_of L ex names). a \<le> t))"
proof (induction names arbitrary: stamps)
  case (Cons n names)
  show ?case
  proof (cases "get ex n = JNull")
    case True
    with Cons.prems Cons.IH show ?thesis by simp
  next
    case False
    with Cons.prems obtain t rest where t: "execution_timestamp L (get ex n) = Inr t" "\<not> (\<exists>a. authorized = Some a \<and> t < a)"
        "parse_times L ex authorized names = Inr rest" "stamps = (n, t) # rest"
      by (auto simp: rbind_Inr_iff guard_Inr_iff behind_iff)
    with Cons.IH [OF t(3)] show ?thesis by (auto simp: not_less)
  qed
qed simp

lemma validate_statusD:
  assumes "validate_execution_status L ex = Inr ()"
  shows "is_dict ex" and "\<exists>s. get ex ''state'' = JStr s \<and> s \<in> set EXECUTION_STATES"
    and "get ex (required_time (execution_state ex)) \<noteq> JNull"
    and "sorted (recorded_times L ex)"
    and "\<forall>a. execution_timestamp L (get ex ''authorized_at'') = Inr a \<longrightarrow> (\<forall>t \<in> set (recorded_times L ex). a \<le> t)"
proof -
  from assms obtain authorized stamps where h: "check_header ex = Inr ()" and b: "check_binding L ex = Inr authorized"
    and t: "parse_times L ex authorized ORDERED_FIELDS = Inr stamps" and s: "sorted (map snd stamps)"
    and r: "get ex (required_time (execution_state ex)) \<noteq> JNull"
    by (auto simp: validate_execution_status_def check_times_def rbind_Inr_iff guard_Inr_iff Let_def required_time_def)
  show "is_dict ex" using h by (auto simp: check_header_def rbind_Inr_iff guard_Inr_iff)
  from h have "in_str_set (get ex ''state'') EXECUTION_STATES = Inr True"
    by (auto simp: check_header_def rbind_Inr_iff guard_Inr_iff)
  then show "\<exists>s. get ex ''state'' = JStr s \<and> s \<in> set EXECUTION_STATES" by (cases "get ex ''state''") auto
  show "get ex (required_time (execution_state ex)) \<noteq> JNull" by (rule r)
  note stamps = parse_times_sound [OF t]
  show "sorted (recorded_times L ex)" using s stamps by (simp add: recorded_times_def)
  have "authorized = Some a" if "execution_timestamp L (get ex ''authorized_at'') = Inr a" for a
  proof (cases "binding_present ex")
    case True
    with b that show ?thesis by (auto simp: check_binding_def rbind_Inr_iff)
  next
    case False
    with b have "binding_absent ex" by (auto simp: check_binding_def rbind_Inr_iff guard_Inr_iff split: if_splits)
    then have "get ex ''authorized_at'' = JNull" by (simp add: binding_absent_def EXECUTION_BINDING_KEYS_def)
    with that show ?thesis by simp
  qed
  with stamps show "\<forall>a. execution_timestamp L (get ex ''authorized_at'') = Inr a \<longrightarrow> (\<forall>t \<in> set (recorded_times L ex). a \<le> t)"
    unfolding recorded_times_def by blast
qed

lemma transition_cases:
  assumes "validate_execution_transition L before after = Inr ()" and "before \<noteq> JNull"
  obtains (same) "validate_execution_status L before = Inr ()" "validate_execution_status L after = Inr ()" "py_eq before after"
    | (edge) "validate_execution_status L before = Inr ()" "validate_execution_status L after = Inr ()"
        "execution_state after \<in> set (table_of EXECUTION_TRANSITIONS (execution_state before))"
        "\<And>k. k \<in> set EXECUTION_STATUS_KEYS \<Longrightarrow> k \<notin> set (mutable_fields (execution_state before) (execution_state after)) \<Longrightarrow>
           py_eq (get before k) (get after k)"
  using assms
  by (auto simp: validate_execution_transition_def rbind_Inr_iff guard_Inr_iff Let_def changed_outside_def list_ex_iff
    mutable_fields_def split: if_splits)

lemma reachable_valid: "reachable_execution L ex0 ex \<Longrightarrow> validate_execution_status L ex = Inr () \<and> ex \<noteq> JNull"
proof (induction rule: reachable_execution.induct)
  case (first ex)
  then show ?case by (auto simp: validate_execution_transition_def rbind_Inr_iff guard_Inr_iff)
next
  case (step ex0 ex ex')
  then have "ex \<noteq> JNull" by simp
  with step(2) have "validate_execution_status L ex' = Inr ()" by (cases rule: transition_cases) simp_all
  with validate_statusD(1) [OF this] show ?case by auto
qed

lemma reachable_binding:
  "reachable_execution L ex0 ex \<Longrightarrow> k \<in> set EXECUTION_BINDING_KEYS \<Longrightarrow> py_eq (get ex0 k) (get ex k)"
proof (induction rule: reachable_execution.induct)
  case (step ex0 ex ex')
  have "ex \<noteq> JNull" using reachable_valid [OF step(1)] by simp
  with step(2) have "py_eq (get ex k) (get ex' k)"
  proof (cases rule: transition_cases)
    case same
    then show ?thesis using validate_statusD(1) by (blast intro: py_eq_get)
  next
    case edge
    have "execution_state ex \<in> set EXECUTION_STATES" using validate_statusD(2) [OF edge(1)] by auto
    with edges_fit edge(3) step(4) have "k \<notin> set (mutable_fields (execution_state ex) (execution_state ex'))" by blast
    moreover have "k \<in> set EXECUTION_STATUS_KEYS" using keys_listed step(4) by blast
    ultimately show ?thesis by (intro edge(4))
  qed
  with step show ?case using py_eq_trans by blast
qed simp

lemma reachable_needs:
  "reachable_execution L ex0 ex \<Longrightarrow> n \<in> set (table_of NEEDS (execution_state ex)) \<Longrightarrow> get ex n \<noteq> JNull"
proof (induction arbitrary: n rule: reachable_execution.induct)
  case (first ex)
  then have v: "validate_execution_status L ex = Inr ()" and "get ex ''state'' \<in> {JStr ''authorized'', JStr ''cancelled''}"
    by (auto simp: validate_execution_transition_def rbind_Inr_iff guard_Inr_iff)
  then consider "execution_state ex = ''authorized''" | "execution_state ex = ''cancelled''" by auto
  then show ?case
  proof cases
    case 1
    with first(2) needs_start(1) show ?thesis by auto
  next
    case 2
    then have "n = required_time (execution_state ex)" using first(2) needs_start(2) by auto
    with validate_statusD(3) [OF v] show ?thesis by simp
  qed
next
  case (step ex0 ex ex')
  have "ex \<noteq> JNull" using reachable_valid [OF step(1)] by simp
  with step(2) show ?case
  proof (cases rule: transition_cases)
    case same
    then have eq: "py_eq (get ex k) (get ex' k)" for k using validate_statusD(1) by (blast intro: py_eq_get)
    obtain st where st: "get ex ''state'' = JStr st" using validate_statusD(2) [OF same(1)] by blast
    with eq [of "''state''"] have "execution_state ex' = execution_state ex" by simp
    with step.IH step.prems have "get ex n \<noteq> JNull" by simp
    with eq [of n] show ?thesis by auto
  next
    case edge
    have b: "execution_state ex \<in> set EXECUTION_STATES" using validate_statusD(2) [OF edge(1)] by auto
    with edges_fit edge(3) step.prems have
      "n = required_time (execution_state ex') \<or> n \<in> set (table_of NEEDS (execution_state ex))" by blast
    then show ?thesis
    proof
      assume "n = required_time (execution_state ex')"
      with validate_statusD(3) [OF edge(2)] show ?thesis by simp
    next
      assume old: "n \<in> set (table_of NEEDS (execution_state ex))"
      with b keys_listed have "n \<in> set EXECUTION_STATUS_KEYS" by blast
      moreover have "n \<notin> set (mutable_fields (execution_state ex) (execution_state ex'))"
        using edges_fit b edge(3) old by blast
      ultimately have "py_eq (get ex n) (get ex' n)" by (rule edge(4))
      with step.IH [OF old] show ?thesis by auto
    qed
  qed
qed

text \<open>C36: The life of an execution. Over any sequence of records that the validator of transitions accepted one after the
  other, what the first record bound never changes: the plan, the inventory, the fingerprint and path of the disk,
  the profile, the image, the manifest, the reason and the time window. A record that says the installer was
  started, or that the installation succeeded or failed, carries the times of the claim and of the handoff before it;
  the recorded times never decrease and none is before the authorization. A record that is installed, failed,
  cancelled or expired is final: only itself is accepted after it.\<close>

theorem execution_history:
  assumes "reachable_execution L ex0 ex"
  shows "(\<forall>k \<in> set EXECUTION_BINDING_KEYS. py_eq (get ex0 k) (get ex k))
    \<and> (\<forall>n \<in> set (table_of NEEDS (execution_state ex)). get ex n \<noteq> JNull)
    \<and> sorted (recorded_times L ex)
    \<and> (\<forall>a. execution_timestamp L (get ex ''authorized_at'') = Inr a \<longrightarrow> (\<forall>t \<in> set (recorded_times L ex). a \<le> t))
    \<and> (execution_state ex \<in> {''installed'', ''failed'', ''cancelled'', ''expired''} \<longrightarrow>
        (\<forall>ex'. validate_execution_transition L ex ex' = Inr () \<longrightarrow> py_eq ex ex'))"
proof -
  have v: "validate_execution_status L ex = Inr ()" and nn: "ex \<noteq> JNull" using reachable_valid [OF assms] by simp_all
  have final: "py_eq ex ex'" if "execution_state ex \<in> {''installed'', ''failed'', ''cancelled'', ''expired''}"
      "validate_execution_transition L ex ex' = Inr ()" for ex'
    using that(2) nn
  proof (cases rule: transition_cases)
    case edge
    from terminal_states that(1) have "table_of EXECUTION_TRANSITIONS (execution_state ex) = []" by (rule bspec)
    with edge(3) show ?thesis by simp
  qed
  show ?thesis
    using reachable_binding [OF assms] reachable_needs [OF assms] validate_statusD(4,5) [OF v] final by blast
qed

section \<open>Sessions\<close>

definition session_stage :: "json \<Rightarrow> string" where
  "session_stage item = str_value (get item ''stage'')"

definition session_time :: "pylib \<Rightarrow> json \<Rightarrow> int option" where
  "session_time L item = (case reparsed L (get item ''entered_at'') of Inr t \<Rightarrow> Some t | Inl _ \<Rightarrow> None)"

interpretation install: stage_ladder INSTALL_SESSION_STAGES "session_item L" session_stage "session_time L" for L
proof
  show "distinct INSTALL_SESSION_STAGES" by code_simp
  show "i < length INSTALL_SESSION_STAGES \<and> session_stage item = INSTALL_SESSION_STAGES ! i \<and> session_time L item = Some t
      \<and> (\<forall>p. previous = Some p \<longrightarrow> p \<le> t)" if "session_item L i previous item = Inr t" for i previous item t
    using that by (auto simp: session_item_def session_stage_def session_time_def rbind_Inr_iff guard_Inr_iff behind_iff not_less)
qed

lemma validate_sessionD:
  assumes "validate_session L status = Inr ()"
  defines "history \<equiv> elems (get status ''stage_history'')"
  shows "history \<noteq> []" and "\<exists>q. scan_history (session_item L) 0 None history = Inr q"
    and "get status ''stage'' = JStr (session_stage (last history))"
    and "check_state (session_stage (last history)) (get status ''state'') = Inr ()"
    and "''execution'' \<in> keyset status \<Longrightarrow> validate_execution_status L (get status ''execution'') = Inr ()"
proof -
  from assms(1) obtain q where st: "in_str_set (get status ''stage'') INSTALL_SESSION_STAGES = Inr True"
    and h: "history \<noteq> []" and scan: "scan_history (session_item L) 0 None history = Inr q"
    and l: "get (last history) ''stage'' = JStr (str_value (get status ''stage''))"
    and c: "check_state (str_value (get status ''stage'')) (get status ''state'') = Inr ()"
    and e: "''execution'' \<in> keyset status \<longrightarrow> validate_execution_status L (get status ''execution'') = Inr ()"
    by (auto simp: validate_session_def rbind_Inr_iff guard_Inr_iff Let_def history_def split: if_splits)
  from st obtain s where s: "get status ''stage'' = JStr s" by (cases "get status ''stage''") auto
  with l have "session_stage (last history) = s" by (simp add: session_stage_def)
  then show "get status ''stage'' = JStr (session_stage (last history))"
    "check_state (session_stage (last history)) (get status ''state'') = Inr ()" using s c by simp_all
  show "history \<noteq> []" "\<exists>q. scan_history (session_item L) 0 None history = Inr q" using h scan by simp_all
  show "validate_execution_status L (get status ''execution'') = Inr ()" if "''execution'' \<in> keyset status"
    using e that by simp
qed

text \<open>The record an advance writes.\<close>

definition advanced :: "json \<Rightarrow> string \<Rightarrow> string \<Rightarrow> json" where
  "advanced status next_stage entered_at =
     (let s1 = set_field status ''stage'' (JStr next_stage);
          s2 = (if next_stage = ''plan_built'' then set_field s1 ''state'' (JStr ''approval_in_progress'') else s1) in
      set_field (set_field s2 ''stage_history'' (JList (elems (get status ''stage_history'')
        @ [JObj [(''stage'', JStr next_stage), (''entered_at'', JStr entered_at)]]))) ''updated_at'' (JStr entered_at))"

lemma get_advanced:
  "get (advanced status next_stage entered_at) k =
     (if k = ''updated_at'' then JStr entered_at
      else if k = ''stage_history'' then JList (elems (get status ''stage_history'')
        @ [JObj [(''stage'', JStr next_stage), (''entered_at'', JStr entered_at)]])
      else if k = ''state'' \<and> next_stage = ''plan_built'' then JStr ''approval_in_progress''
      else if k = ''stage'' then JStr next_stage else get status k)"
  by (simp add: advanced_def Let_def)

lemma advance_status_cases:
  assumes "advance_status L clock status next_stage = Inr s'"
  obtains (same) "validate_session L status = Inr ()" "s' = status" "next_stage = str_value (get status ''stage'')"
    | (climb) entered_at where "validate_session L status = Inr ()" "str_value (get status ''state'') \<notin> set TERMINAL_STATES"
        "next_stage \<in> set INSTALL_SESSION_STAGES"
        "index_of INSTALL_SESSION_STAGES next_stage = Suc (index_of INSTALL_SESSION_STAGES (str_value (get status ''stage'')))"
        "stage_timestamp L (JStr clock) = Inr entered_at" "s' = advanced status next_stage entered_at" "validate_session L s' = Inr ()"
  using assms
  by (auto simp: advance_status_def rbind_Inr_iff guard_Inr_iff Let_def advanced_def split: if_splits)

lemma next_stage_nth:
  assumes v: "validate_session L status = Inr ()" and "next_stage \<in> set INSTALL_SESSION_STAGES"
    and i: "index_of INSTALL_SESSION_STAGES next_stage = Suc (index_of INSTALL_SESSION_STAGES (str_value (get status ''stage'')))"
  defines "n \<equiv> length (elems (get status ''stage_history''))"
  shows "n < length INSTALL_SESSION_STAGES \<and> next_stage = INSTALL_SESSION_STAGES ! n"
proof -
  obtain q where "scan_history (session_item L) 0 None (elems (get status ''stage_history'')) = Inr q"
    using validate_sessionD(2) [OF v] by blast
  from install.current_index [OF this validate_sessionD(1) [OF v]] validate_sessionD(3) [OF v]
  have "index_of INSTALL_SESSION_STAGES (str_value (get status ''stage'')) = n - 1" by (simp add: n_def)
  moreover have "0 < n" using validate_sessionD(1) [OF v] by (simp add: n_def)
  ultimately have "index_of INSTALL_SESSION_STAGES next_stage = n" using i by simp
  with nth_index_of [OF assms(2)] show ?thesis by simp
qed


text \<open>Advancing never gets stuck.\<close>

lemma session_states:
  assumes "check_state stage state = Inr ()" and "str_value state \<notin> set TERMINAL_STATES"
  shows "state = JStr ''awaiting_approval'' \<and> stage = ''awaiting_approval''
    \<or> state = JStr ''approval_in_progress'' \<and> stage \<in> {''plan_built'', ''plan_signed'', ''published''}
    \<or> state = JStr ''plan_published'' \<and> stage = ''published''"
proof -
  from assms(1) have "in_str_set state [''awaiting_approval'', ''approval_in_progress'', ''plan_published'', ''cancelled'', ''expired''] = Inr True"
    by (auto simp: check_state_def rbind_Inr_iff guard_Inr_iff)
  then obtain s where "state = JStr s" "s \<in> {''awaiting_approval'', ''approval_in_progress'', ''plan_published'', ''cancelled'', ''expired''}"
    by (cases state) auto
  with assms show ?thesis
    unfolding check_state_def TERMINAL_STATES_def rbind_Inr_iff guard_Inr_iff by auto
qed

lemma stage_after:
  "INSTALL_SESSION_STAGES ! 3 = ''plan_built''" "INSTALL_SESSION_STAGES ! 4 = ''plan_signed''" "INSTALL_SESSION_STAGES ! 5 = ''published''"
  "index_of INSTALL_SESSION_STAGES ''awaiting_approval'' = 2" "index_of INSTALL_SESSION_STAGES ''plan_built'' = 3"
  "index_of INSTALL_SESSION_STAGES ''plan_signed'' = 4" "length INSTALL_SESSION_STAGES = 6"
  by code_simp+

lemma validate_advanced:
  assumes v: "validate_session L status = Inr ()" and "next_stage \<in> set INSTALL_SESSION_STAGES"
    and "length (elems (get status ''stage_history'')) < length INSTALL_SESSION_STAGES"
    and "scan_history (session_item L) 0 None (elems (get status ''stage_history'')
        @ [JObj [(''stage'', JStr next_stage), (''entered_at'', JStr entered_at)]]) = Inr q"
    and "check_state next_stage (get (advanced status next_stage entered_at) ''state'') = Inr ()"
  shows "validate_session L (advanced status next_stage entered_at) = Inr ()"
proof -
  let ?u = "advanced status next_stage entered_at"
  have ex: "get ?u ''execution'' = get status ''execution''" "''execution'' \<in> keyset ?u \<longleftrightarrow> ''execution'' \<in> keyset status"
    by (simp_all add: get_advanced) (simp add: advanced_def Let_def)
  have "''execution'' \<in> keyset status \<Longrightarrow> is_dict (get status ''execution'')
      \<and> validate_execution_status L (get status ''execution'') = Inr ()"
    using validate_sessionD(5) [OF v] validate_statusD(1) by blast
  moreover have "get ?u ''stage'' = JStr next_stage" "get ?u ''stage_history'' = JList (elems (get status ''stage_history'')
      @ [JObj [(''stage'', JStr next_stage), (''entered_at'', JStr entered_at)]])"
    by (simp_all add: get_advanced)
  moreover have "get (JObj [(''stage'', JStr next_stage), (''entered_at'', JStr entered_at)]) ''stage'' = JStr next_stage"
    by (simp add: get_default_def)
  ultimately show ?thesis using assms(2-5) ex by (simp add: validate_session_def Let_def)
qed

text \<open>Advancing is always possible in time. Given that reading back the text of an instant gives that instant, a valid
  session that is neither cancelled nor expired and not yet published can be advanced to the next stage of the ladder
  whenever the clock is not behind the last recorded time.\<close>

theorem advance_status_progress:
  assumes iso: "\<And>t. fromiso L (iso_utc L t) = Some (Aware t)"
    and v: "validate_session L status = Inr ()" and live: "str_value (get status ''state'') \<notin> set TERMINAL_STATES"
    and open_: "get status ''stage'' \<noteq> JStr ''published''"
    and clock: "fromiso L clock = Some (Aware now)"
    and last_: "session_time L (last (elems (get status ''stage_history''))) = Some p" "p \<le> now"
  shows "\<exists>s'. advance_status L clock status (INSTALL_SESSION_STAGES ! length (elems (get status ''stage_history''))) = Inr s'"
proof -
  let ?h = "elems (get status ''stage_history'')"
  let ?stage = "session_stage (last ?h)" and ?next = "INSTALL_SESSION_STAGES ! length ?h"
  obtain q where scan: "scan_history (session_item L) 0 None ?h = Inr q" using validate_sessionD(2) [OF v] by blast
  note h = validate_sessionD(1) [OF v] and st = validate_sessionD(3) [OF v]
  have idx: "index_of INSTALL_SESSION_STAGES ?stage = length ?h - 1" by (rule install.current_index [OF scan h])
  have pos: "0 < length ?h" using h by simp
  have len: "length ?h = Suc (index_of INSTALL_SESSION_STAGES ?stage)" using idx pos by simp
  from install.scan_sound(3) [OF scan] obtain ts where ts: "map (session_time L) ?h = map Some ts"
      "q = (if ts = [] then None else Some (last ts))" by blast
  then have "ts \<noteq> []" using h by auto
  then have "session_time L (last ?h) = Some (last ts)" using ts(1) h by (metis last_map)
  with last_ ts(2) \<open>ts \<noteq> []\<close> have q: "q = Some p" by simp
  consider (a) "?stage = ''awaiting_approval''" "get status ''state'' = JStr ''awaiting_approval''"
    | (b) "?stage = ''plan_built''" "get status ''state'' = JStr ''approval_in_progress''"
    | (c) "?stage = ''plan_signed''" "get status ''state'' = JStr ''approval_in_progress''"
    using session_states [OF validate_sessionD(4) [OF v] live] open_ st by auto
  then have "length ?h = 3 \<and> ?stage = ''awaiting_approval'' \<and> ?next = ''plan_built''
      \<or> length ?h = 4 \<and> ?stage = ''plan_built'' \<and> ?next = ''plan_signed'' \<and> get status ''state'' = JStr ''approval_in_progress''
      \<or> length ?h = 5 \<and> ?stage = ''plan_signed'' \<and> ?next = ''published'' \<and> get status ''state'' = JStr ''approval_in_progress''"
    using len by cases (simp_all add: stage_after)
  then have nx: "length ?h < 6" "?next \<noteq> ?stage"
      "check_state ?next (get (advanced status ?next (iso_utc L now)) ''state'') = Inr ()"
    by (auto simp: get_advanced check_state_def)
  have nset: "?next \<in> set INSTALL_SESSION_STAGES" using nx(1) by (simp add: stage_after)
  have ix: "index_of INSTALL_SESSION_STAGES ?next = Suc (index_of INSTALL_SESSION_STAGES ?stage)"
    using index_of_nth [OF install.distinct_stages, of "length ?h"] nx(1) idx pos by (simp add: stage_after)
  let ?item = "JObj [(''stage'', JStr ?next), (''entered_at'', JStr (iso_utc L now))]"
  have "session_item L (length ?h) (Some p) ?item = Inr now"
    using nx(1) last_(2) by (auto simp: session_item_def keyset_def get_default_def reparsed_def stage_timestamp_def iso stamp_utc_def stage_after behind_iff)
  then have "scan_history (session_item L) 0 None (?h @ [?item]) = Inr (Some now)"
    by (simp add: scan_history_append scan q)
  from validate_advanced [OF v nset _ this nx(3)] nx(1)
  have "validate_session L (advanced status ?next (iso_utc L now)) = Inr ()" by (simp add: stage_after)
  then have "advance_status L clock status ?next = Inr (advanced status ?next (iso_utc L now))"
    using v live nset ix nx(2) st clock
    by (simp add: advance_status_def stage_timestamp_def Let_def advanced_def session_stage_def)
  then show ?thesis by blast
qed

section \<open>The repository\<close>

text \<open>The repository guards both life cycles. Whatever a replacement of a status returns, at most the named session changes,
  and it changes only to the given status, over a stored status with the same identity; unless the caller may
  change the life cycle, its state, stage and history stay what they were; and its execution record stays what it
  was or, when the caller may change it, changes along an accepted transition.\<close>

theorem replace_status_guarded:
  assumes run: "replace_status L io session_id status allow_lifecycle allow_execution S = (r, T)"
  shows "T = S \<or> (\<exists>n current. validate_session_id session_id = Inr n \<and> S n = Some (Some current) \<and> T = S(n \<mapsto> Some status)
    \<and> get status ''session_id'' = JStr session_id
    \<and> (\<not> allow_lifecycle \<longrightarrow> (\<forall>f \<in> {''state'', ''stage'', ''stage_history''}. py_eq (get status f) (get current f)))
    \<and> (py_eq (get current ''execution'') (get status ''execution'')
      \<or> allow_execution \<and> validate_execution_transition L (get current ''execution'') (get status ''execution'') = Inr ()))"
proof -
  obtain v where v: "validate_session_id session_id = v" by simp
  show ?thesis
  proof (cases v)
    case (Inr n)
    show ?thesis
    proof (cases "S n")
      case None
      with run v Inr show ?thesis
        by (auto simp: replace_status_def load_status_def prog_simps guard_def split: if_splits)
    next
      case (Some entry)
      with run v Inr show ?thesis
        by (cases entry; cases io) (auto simp: replace_status_def load_status_def write_status_def prog_simps guard_def rbind_def
          split: if_splits sum.splits)
    qed
  qed (use run v in \<open>simp add: replace_status_def prog_simps\<close>)
qed

section \<open>Instances\<close>

definition xdemo_L :: pylib where
  "xdemo_L = demo_lib (\<lambda>n. 0)"

definition xdemo_base :: "(string \<times> json) list" where
  "xdemo_base = [(''schema_version'', JInt 1), (''revision'', JInt 1), (''authorized_at'', JStr ''T10''), (''expires_at'', JStr ''T99''),
     (''plan_sha256'', JStr (replicate 64 CHR ''a'')), (''inventory_sha256'', JStr (replicate 64 CHR ''b'')),
     (''disk_fingerprint'', JStr (''sha256:'' @ replicate 64 CHR ''c'')), (''target_disk'', JStr ''/dev/sda''), (''reason'', JStr ''new''),
     (''profile_id'', JStr ''p1''), (''profile_version'', JInt 1), (''iso_id'', JStr ''i1''), (''iso_sha256'', JStr (replicate 64 CHR ''d'')),
     (''manifest_sha256'', JStr (replicate 64 CHR ''e''))]"

definition xdemo :: "(string \<times> json) list \<Rightarrow> json" where
  "xdemo own = JObj (map (\<lambda>k. (k, case map_of (own @ xdemo_base) k of None \<Rightarrow> JNull | Some v \<Rightarrow> v)) EXECUTION_STATUS_KEYS)"

definition xdemo_authorized :: json where
  "xdemo_authorized = xdemo [(''state'', JStr ''authorized'')]"

definition xdemo_claimed :: json where
  "xdemo_claimed = xdemo [(''state'', JStr ''claimed''), (''claimed_at'', JStr ''T20'')]"

definition xdemo_session :: json where
  "xdemo_session = JObj [(''session_id'', JStr ''install-20240101T000000Z-0123abcd''), (''state'', JStr ''awaiting_approval''),
     (''stage'', JStr ''awaiting_approval''), (''stage_history'', JList
       [JObj [(''stage'', JStr ''session_created''), (''entered_at'', JStr ''T1'')],
        JObj [(''stage'', JStr ''inventory_validated''), (''entered_at'', JStr ''T2'')],
        JObj [(''stage'', JStr ''awaiting_approval''), (''entered_at'', JStr ''T3'')]])]"

lemma xdemo_reachable: "reachable_execution xdemo_L xdemo_authorized xdemo_claimed"
proof (rule reachable_execution.step)
  show "reachable_execution xdemo_L xdemo_authorized xdemo_authorized" by (rule reachable_execution.first) code_simp
  show "validate_execution_transition xdemo_L xdemo_authorized xdemo_claimed = Inr ()" by code_simp
qed

theorem execution_history_witness:
  "py_eq (get xdemo_authorized ''target_disk'') (get xdemo_claimed ''target_disk'') \<and> sorted (recorded_times xdemo_L xdemo_claimed)
    \<and> get xdemo_claimed ''claimed_at'' \<noteq> JNull"
proof -
  have "''target_disk'' \<in> set EXECUTION_BINDING_KEYS" "''claimed_at'' \<in> set (table_of NEEDS (execution_state xdemo_claimed))"
    by code_simp+
  with execution_history [OF xdemo_reachable] show ?thesis by blast
qed


theorem advance_status_progress_witness:
  "\<exists>s'. advance_status xdemo_L ''T4'' xdemo_session (INSTALL_SESSION_STAGES ! length (elems (get xdemo_session ''stage_history''))) = Inr s'"
proof (rule advance_status_progress)
  show "fromiso xdemo_L (iso_utc xdemo_L t) = Some (Aware t)" for t unfolding xdemo_L_def by (rule demo_iso_roundtrip)
  show "validate_session xdemo_L xdemo_session = Inr ()" by code_simp
  show "str_value (get xdemo_session ''state'') \<notin> set TERMINAL_STATES" by code_simp
  show "get xdemo_session ''stage'' \<noteq> JStr ''published''" by code_simp
  show "fromiso xdemo_L ''T4'' = Some (Aware 4000000)" by code_simp
  show "session_time xdemo_L (last (elems (get xdemo_session ''stage_history''))) = Some 3000000" by code_simp
qed simp

theorem replace_status_guarded_witness:
  "snd (replace_status xdemo_L Written ''x'' xdemo_session True False Map.empty) = Map.empty"
  using replace_status_guarded [OF surjective_pairing, of xdemo_L Written "''x''" xdemo_session True False Map.empty] by auto

end
