(* ===== verification/Job_Stages.thy ===== *)
theory Job_Stages
  imports Stage_Ladder
begin

text \<open>
  Provisioning jobs of the controller: the stages of a job (\<open>alt_deploy/job_stages.py\<close>), the screening of payloads for
  secrets (\<open>alt_deploy/assignments.py\<close>) and the repository that creates, updates and advances jobs
  (\<open>alt_deploy/jobs.py\<close>). A job is a directory with a request and a status document. Records of setup jobs, which
  another component owns, are read by the argument \<open>reader\<close> of the definitions below.
\<close>

section \<open>Payloads\<close>

definition FORBIDDEN_KEY_PARTS :: "string list" where
  "FORBIDDEN_KEY_PARTS = [''password'', ''secret'', ''token'', ''private_key'', ''vault'']"

fun first_some :: "'a option list \<Rightarrow> 'a option" where
  "first_some [] = None"
| "first_some (None # xs) = first_some xs"
| "first_some (Some x # xs) = Some x"

definition forbidden_key :: "string \<Rightarrow> bool" where
  "forbidden_key k = list_ex (\<lambda>p. contains_str p (lower k)) FORBIDDEN_KEY_PARTS"

primrec find_unsafe_key :: "json \<Rightarrow> string \<Rightarrow> string option" where
  "find_unsafe_key JNull = (\<lambda>path. None)"
| "find_unsafe_key (JBool b) = (\<lambda>path. None)"
| "find_unsafe_key (JInt i) = (\<lambda>path. None)"
| "find_unsafe_key (JFloat r) = (\<lambda>path. None)"
| "find_unsafe_key (JStr s) = (\<lambda>path. None)"
| "find_unsafe_key (JList xs) = (\<lambda>path. first_some (map (\<lambda>(i, f). f (path @ [CHR 0x5B] @ nat_digits i @ [CHR 0x5D]))
     (enumerate 0 (map find_unsafe_key xs))))"
| "find_unsafe_key (JObj kvs) = (\<lambda>path. first_some (map (\<lambda>(k, f).
     let key_path = (if path \<noteq> [] then path @ ''.'' @ k else k) in
     if forbidden_key k then Some key_path else f key_path) (map (map_prod id find_unsafe_key) kvs)))"

definition assert_safe_payload :: "json \<Rightarrow> unit res" where
  "assert_safe_payload payload = (case find_unsafe_key payload [] of None \<Rightarrow> Inr ()
     | Some k \<Rightarrow> Inl (ControlError ''unsafe_payload'' ''Payload contains a secret-like key'' 4))"

section \<open>Stages\<close>

definition CANONICAL_STAGES :: "string list" where
  "CANONICAL_STAGES = [''created'', ''launching'', ''validating'', ''connecting'', ''identity'', ''employee'', ''login_screen'',
     ''verifying'', ''recording'', ''complete'']"

definition FORWARD_UPDATE_FIELDS :: "string list" where
  "FORWARD_UPDATE_FIELDS = [''state'', ''started_at'', ''finished_at'', ''systemd_unit'', ''result_file'']"

definition JOB_TERMINAL_STATES :: "string list" where
  "JOB_TERMINAL_STATES = [''successful'', ''failed'']"

definition job_invalid :: "string \<Rightarrow> exn" where
  "job_invalid m = ControlError ''job_stage_history_invalid'' m 4"

definition parse_timestamp :: "pylib \<Rightarrow> json \<Rightarrow> int res" where
  "parse_timestamp L v = (case fromiso L (strip (str_or_empty L v)) of
     None \<Rightarrow> Inl (job_invalid ''Provision job stage timestamp is invalid'')
   | Some (Naive _) \<Rightarrow> Inl (job_invalid ''Provision job stage timestamp has no timezone'')
   | Some (Aware t) \<Rightarrow> Inr t)"

definition history_item :: "string \<Rightarrow> string \<Rightarrow> json" where
  "history_item stage entered_at = JObj [(''stage'', JStr stage), (''entered_at'', JStr entered_at)]"

definition initial_stage_history :: "pylib \<Rightarrow> string \<Rightarrow> json res" where
  "initial_stage_history L entered_at = rbind (parse_timestamp L (JStr entered_at)) (\<lambda>t.
     Inr (JList [history_item ''created'' (iso_utc L t)]))"

definition job_item :: "pylib \<Rightarrow> nat \<Rightarrow> int option \<Rightarrow> json \<Rightarrow> int res" where
  "job_item L i previous item =
     rbind (guard (is_dict item \<and> keyset item = {''stage'', ''entered_at''}) (job_invalid ''Provision job stage history item is invalid'')) (\<lambda>_.
     rbind (guard (i < length CANONICAL_STAGES \<and> strip (str_or_empty L (get item ''stage'')) = CANONICAL_STAGES ! i)
       (job_invalid ''Provision job stage history is not contiguous'')) (\<lambda>_.
     rbind (parse_timestamp L (get item ''entered_at'')) (\<lambda>t.
     rbind (guard (\<not> behind t previous) (job_invalid ''Provision job stage timestamps move backwards'')) (\<lambda>_. Inr t))))"

definition check_job_state :: "string \<Rightarrow> string \<Rightarrow> unit res" where
  "check_job_state state stage =
     rbind (guard (state = ''queued'' \<longrightarrow> stage \<in> {''created'', ''launching''}) (job_invalid ''Queued job has an invalid stage'')) (\<lambda>_.
     rbind (guard (state = ''running'' \<longrightarrow> index_of CANONICAL_STAGES ''validating'' \<le> index_of CANONICAL_STAGES stage
         \<and> index_of CANONICAL_STAGES stage \<le> index_of CANONICAL_STAGES ''recording'') (job_invalid ''Running job has an invalid stage'')) (\<lambda>_.
     rbind (guard (state = ''successful'' \<longrightarrow> stage = ''complete'') (job_invalid ''Successful job is not complete'')) (\<lambda>_.
     rbind (guard (\<not> (state = ''failed'' \<and> stage = ''complete'')) (job_invalid ''Failed job cannot be complete'')) (\<lambda>_.
     guard (state \<in> {''queued'', ''running'', ''successful'', ''failed''}) (job_invalid ''Provision job state is unknown'')))))"

definition validate_job_stage_status :: "pylib \<Rightarrow> json \<Rightarrow> unit res" where
  "validate_job_stage_status L status = (if \<not> is_dict status then Inl AttributeError else
     let state = strip (str_or_empty L (get status ''state'')); stage = strip (str_or_empty L (get status ''stage''));
         history = get status ''stage_history'' in
     rbind (guard (stage \<in> set CANONICAL_STAGES) (job_invalid ''Provision job stage is unknown'')) (\<lambda>_.
     rbind (guard (is_list history \<and> elems history \<noteq> []) (job_invalid ''Provision job stage history is missing or empty'')) (\<lambda>_.
     rbind (scan_history (job_item L) 0 None (elems history)) (\<lambda>_.
     rbind (guard (stage = strip (str_or_empty L (get (last (elems history)) ''stage'')))
       (job_invalid ''Provision job stage does not match stage history'')) (\<lambda>_.
     check_job_state state stage)))))"

section \<open>The repository\<close>

record job_record =
  jb_job_id :: string
  jb_machine_uuid :: string
  jb_state :: string
  jb_stage :: string
  jb_created_at :: string
  jb_updated_at :: string
  jb_request :: json
  jb_status :: json

text \<open>The two documents of a job directory; \<open>None\<close> is a document that cannot be read or decoded.\<close>

record job_dir =
  jd_request :: "json option"
  jd_status :: "json option"

type_synonym jobs = "string \<rightharpoonup> job_dir"

type_synonym setup_reader = "job_dir \<Rightarrow> (json \<times> json) res"

definition job_id_re :: "string \<Rightarrow> bool" where
  "job_id_re = stamped_id_re ''job-''"

definition is_setup :: "json \<Rightarrow> bool" where
  "is_setup p = (is_dict p \<and> (py_eq (get p ''schema_version'') (JInt 2) \<or> get p ''kind'' = JStr ''setup''))"

definition job_not_found :: "string \<Rightarrow> exn" where
  "job_not_found job_id = ControlError ''job_not_found'' (''Job not found: '' @ job_id) 3"

definition load_from_dir :: "pylib \<Rightarrow> setup_reader \<Rightarrow> string \<Rightarrow> job_dir \<Rightarrow> job_record res" where
  "load_from_dir L reader name d = (case (jd_request d, jd_status d) of
     (Some request, Some status) \<Rightarrow>
       rbind (if is_setup request \<or> is_setup status then reader d
              else rbind (validate_job_stage_status L status) (\<lambda>_.
                if is_dict request \<or> truthy (get status ''machine_uuid'') then Inr (request, status) else Inl AttributeError)) (\<lambda>(request, status).
       Inr \<lparr>jb_job_id = py_str L (py_or (get status ''job_id'') (JStr name)),
         jb_machine_uuid = str_or_empty L (py_or (get status ''machine_uuid'') (get request ''machine_uuid'')),
         jb_state = str_or_empty L (get status ''state''), jb_stage = str_or_empty L (get status ''stage''),
         jb_created_at = str_or_empty L (get status ''created_at''), jb_updated_at = str_or_empty L (get status ''updated_at''),
         jb_request = request, jb_status = status\<rparr>)
   | _ \<Rightarrow> Inl (ControlError ''job_invalid'' (''Invalid job record: '' @ name) 4))"

definition job_get :: "pylib \<Rightarrow> setup_reader \<Rightarrow> string \<Rightarrow> (jobs, string \<times> job_record) prog" where
  "job_get L reader job_id = (let name = strip job_id in
     if \<not> job_id_re name then raise (job_not_found job_id)
     else bind (gets (\<lambda>S. S name)) (\<lambda>entry. case entry of None \<Rightarrow> raise (job_not_found job_id)
       | Some d \<Rightarrow> bind (lift (load_from_dir L reader name d)) (\<lambda>job. ret (name, job))))"

text \<open>\<open>dict.update\<close>.\<close>

definition update_fields :: "json \<Rightarrow> (string \<times> json) list \<Rightarrow> json" where
  "update_fields d kvs = foldl (\<lambda>acc (k, v). set_field acc k v) d kvs"

definition write_status_file :: "string \<Rightarrow> json \<Rightarrow> (jobs, unit) prog" where
  "write_status_file name status = modify (\<lambda>S. S(name := map_option (\<lambda>d. d\<lparr>jd_status := Some status\<rparr>) (S name)))"

text \<open>The identity of a job survives every rewrite of its status.\<close>

definition stamped :: "job_record \<Rightarrow> string \<Rightarrow> json \<Rightarrow> json" where
  "stamped job updated_at status = update_fields status [(''job_id'', JStr (jb_job_id job)),
     (''machine_uuid'', JStr (jb_machine_uuid job)), (''created_at'', JStr (jb_created_at job)), (''updated_at'', JStr updated_at)]"

definition first_status :: "string \<Rightarrow> string \<Rightarrow> json \<Rightarrow> string \<Rightarrow> json" where
  "first_status job_id machine_uuid history timestamp = JObj [(''job_id'', JStr job_id), (''machine_uuid'', JStr machine_uuid),
     (''state'', JStr ''queued''), (''stage'', JStr ''created''), (''stage_history'', history), (''created_at'', JStr timestamp),
     (''updated_at'', JStr timestamp)]"

text \<open>\<open>ids\<close> are the identifiers the generator draws, \<open>now\<close> the clock of \<open>utc_now\<close>. At most twenty are tried.\<close>

definition job_create :: "pylib \<Rightarrow> setup_reader \<Rightarrow> (nat \<Rightarrow> string) \<Rightarrow> int \<Rightarrow> json \<Rightarrow> (jobs, string \<times> job_record) prog" where
  "job_create L reader ids now request =
     seq (lift (guard (\<not> (get request ''kind'' = JStr ''setup'' \<or> py_eq (get request ''schema_version'') (JInt 2)))
       (ControlError ''setup_job_admission_required'' ''Setup jobs require typed single-use admission'' 4)))
     (seq (lift (assert_safe_payload request))
     (let machine_uuid = lower (strip (str_or_empty L (get request ''machine_uuid'')));
          record = set_field request ''machine_uuid'' (JStr machine_uuid); timestamp = iso_utc L now in
      seq (lift (guard (machine_uuid \<noteq> []) (ControlError ''invalid_job_request'' ''Job request has no machine UUID'' 4)))
      (bind (gets (\<lambda>S. find (\<lambda>i. S i = None) (map ids [0..<20]))) (\<lambda>found. case found of
         None \<Rightarrow> raise (ControlError ''job_id_generation_failed'' ''Unable to allocate a unique job ID'' 4)
       | Some job_id \<Rightarrow> seq (modify (\<lambda>S. S(job_id \<mapsto> \<lparr>jd_request = None, jd_status = None\<rparr>)))
           (bind (lift (initial_stage_history L timestamp)) (\<lambda>history.
           seq (modify (\<lambda>S. S(job_id \<mapsto> \<lparr>jd_request = Some record,
               jd_status = Some (first_status job_id machine_uuid history timestamp)\<rparr>)))
             (job_get L reader job_id)))))))"

text \<open>The common end of every rewrite: screen, validate, write, read back.\<close>

definition store_job :: "pylib \<Rightarrow> setup_reader \<Rightarrow> string \<Rightarrow> json \<Rightarrow> string \<Rightarrow> (jobs, string \<times> job_record) prog" where
  "store_job L reader name status job_id = seq (lift (assert_safe_payload status))
     (seq (lift (validate_job_stage_status L status)) (seq (write_status_file name status) (job_get L reader job_id)))"

definition job_update :: "pylib \<Rightarrow> setup_reader \<Rightarrow> int \<Rightarrow> string \<Rightarrow> (string \<times> json) list \<Rightarrow> (jobs, string \<times> job_record) prog" where
  "job_update L reader now job_id own =
     seq (lift (guard (\<forall>(k, v) \<in> set own. k \<notin> {''stage'', ''stage_history''})
       (ControlError ''job_stage_update_forbidden'' ''Provision job stages must be changed through JobStageManager'' 4)))
     (bind (job_get L reader job_id) (\<lambda>(name, job).
      seq (lift (guard (get (jb_status job) ''kind'' \<noteq> JStr ''setup'')
        (ControlError ''setup_job_update_forbidden'' ''Setup jobs require typed Setup transitions'' 4)))
      (let kept = filter (\<lambda>(k, v). k \<notin> {''job_id'', ''machine_uuid'', ''created_at''}) own;
           status = stamped job (iso_utc L now) (update_fields (jb_status job) kept) in
       store_job L reader name status job_id)))"

text \<open>The new status of an advance, and the advance once the job was read and is not at the stage already.\<close>

definition advanced_job :: "pylib \<Rightarrow> job_record \<Rightarrow> (string \<times> json) list \<Rightarrow> string \<Rightarrow> int \<Rightarrow> json" where
  "advanced_job L job updates next_stage t = (let entered_at = iso_utc L t;
       history = JList (elems (get (jb_status job) ''stage_history'') @ [history_item next_stage entered_at]) in
     stamped job entered_at (update_fields (jb_status job) (updates @ [(''stage'', JStr next_stage), (''stage_history'', history)])))"

definition climb :: "pylib \<Rightarrow> setup_reader \<Rightarrow> string \<Rightarrow> string \<Rightarrow> job_record \<Rightarrow> string \<Rightarrow> (string \<times> json) list \<Rightarrow> (jobs, string \<times> job_record) prog" where
  "climb L reader clock name job next_stage updates =
     seq (lift (guard (jb_stage job \<in> set CANONICAL_STAGES) (KeyError (jb_stage job))))
     (seq (lift (guard (index_of CANONICAL_STAGES next_stage = Suc (index_of CANONICAL_STAGES (jb_stage job)))
       (ControlError ''invalid_job_stage_transition'' ''Provision job stage transition is not the immediate next step'' 4)))
     (bind (lift (parse_timestamp L (JStr clock))) (\<lambda>t.
       store_job L reader name (advanced_job L job updates next_stage t) (jb_job_id job))))"

definition advance_unlocked ::
    "pylib \<Rightarrow> setup_reader \<Rightarrow> string \<Rightarrow> string \<Rightarrow> string \<Rightarrow> (string \<times> json) list \<Rightarrow> (jobs, string \<times> job_record) prog" where
  "advance_unlocked L reader clock job_id next_stage updates =
     seq (lift (guard (\<forall>(k, v) \<in> set updates. k \<in> set FORWARD_UPDATE_FIELDS)
       (ControlError ''invalid_job_stage_update'' ''Provision job stage update contains unsupported fields'' 4)))
     (bind (job_get L reader job_id) (\<lambda>(name, job).
      seq (lift (guard (get (jb_status job) ''kind'' \<noteq> JStr ''setup'')
        (ControlError ''setup_job_update_forbidden'' ''Setup jobs require typed Setup transitions'' 4)))
      (seq (lift (guard (jb_state job \<notin> set JOB_TERMINAL_STATES)
        (ControlError ''job_stage_terminal'' ''Terminal provision job cannot change stage'' 4)))
      (seq (lift (guard (next_stage \<in> set CANONICAL_STAGES)
        (ControlError ''invalid_job_stage_transition'' ''Provision job stage is unknown'' 4)))
      (if next_stage = jb_stage job then ret (name, job) else climb L reader clock name job next_stage updates)))))"

end
