(* ===== verification/Job_Correctness.thy ===== *)
theory Job_Correctness
  imports Job_Stages
begin

text \<open>
  What the repository of provisioning jobs keeps: every stored status is valid and free of secret-like keys, and the stage
  history of a job only grows.
\<close>

section \<open>Screening\<close>

primrec safe_json :: "json \<Rightarrow> bool" where
  "safe_json JNull = True"
| "safe_json (JBool b) = True"
| "safe_json (JInt i) = True"
| "safe_json (JFloat r) = True"
| "safe_json (JStr s) = True"
| "safe_json (JList xs) = list_all id (map safe_json xs)"
| "safe_json (JObj kvs) = list_all (\<lambda>(k, b). \<not> forbidden_key k \<and> b) (map (map_prod id safe_json) kvs)"

lemma first_some_None: "first_some xs = None \<longleftrightarrow> (\<forall>x \<in> set xs. x = None)"
  by (induction xs rule: first_some.induct) auto

lemma ball_enumerate: "(\<forall>x \<in> set (enumerate 0 xs). case x of (i, f) \<Rightarrow> P i f) \<longleftrightarrow> (\<forall>i < length xs. P i (xs ! i))"
  by (auto simp: in_set_enumerate_eq)

text \<open>The search is exact: it finds nothing exactly when no key at any depth looks like a secret.\<close>

lemma find_unsafe_key_None: "find_unsafe_key j path = None \<longleftrightarrow> safe_json j"
proof (induction j arbitrary: path)
  case (JList xs)
  have "(case x of (i, f) \<Rightarrow> f (path @ [CHR 0x5B] @ nat_digits i @ [CHR 0x5D])) = None
      \<longleftrightarrow> (case x of (i, f) \<Rightarrow> f (path @ [CHR 0x5B] @ nat_digits i @ [CHR 0x5D]) = None)" for x :: "nat \<times> (string \<Rightarrow> string option)"
    by (cases x) simp
  then have "first_some (map (\<lambda>(i, f). f (path @ [CHR 0x5B] @ nat_digits i @ [CHR 0x5D])) (enumerate 0 (map find_unsafe_key xs))) = None
      \<longleftrightarrow> (\<forall>i < length xs. find_unsafe_key (xs ! i) (path @ [CHR 0x5B] @ nat_digits i @ [CHR 0x5D]) = None)"
    by (simp add: first_some_None ball_enumerate)
  also have "\<dots> \<longleftrightarrow> (\<forall>i < length xs. safe_json (xs ! i))" using JList by simp
  finally show ?case by (simp add: list_all_length)
next
  case (JObj kvs)
  have "(case map_prod id find_unsafe_key kv of (k, f) \<Rightarrow> let key_path = if path \<noteq> [] then path @ ''.'' @ k else k in
        if forbidden_key k then Some key_path else f key_path) = None \<longleftrightarrow> \<not> forbidden_key (fst kv) \<and> safe_json (snd kv)"
    if "kv \<in> set kvs" for kv
    using JObj [of kv "snd kv"] that by (cases kv) (simp add: Let_def)
  then show ?case by (auto simp: first_some_None list_all_iff image_iff)
qed simp_all

lemma assert_safe_iff: "assert_safe_payload j = Inr () \<longleftrightarrow> safe_json j"
  unfolding assert_safe_payload_def find_unsafe_key_None [of j "[]", symmetric] by (cases "find_unsafe_key j []") simp_all

lemma safe_put: "safe_json (JObj kvs) \<Longrightarrow> \<not> forbidden_key k \<Longrightarrow> safe_json v \<Longrightarrow> safe_json (JObj (put k v kvs))"
  by (induction k v kvs rule: put.induct) auto

lemma safe_items: "safe_json j \<Longrightarrow> safe_json (JObj (items j))"
  by (cases j) simp_all

section \<open>Stage histories\<close>

definition job_stage :: "pylib \<Rightarrow> json \<Rightarrow> string" where
  "job_stage L item = strip (str_or_empty L (get item ''stage''))"

definition job_time :: "pylib \<Rightarrow> json \<Rightarrow> int option" where
  "job_time L item = (case parse_timestamp L (get item ''entered_at'') of Inr t \<Rightarrow> Some t | Inl _ \<Rightarrow> None)"

interpretation job: stage_ladder CANONICAL_STAGES "job_item L" "job_stage L" "job_time L" for L
proof
  show "distinct CANONICAL_STAGES" by code_simp
  show "i < length CANONICAL_STAGES \<and> job_stage L item = CANONICAL_STAGES ! i \<and> job_time L item = Some t
      \<and> (\<forall>p. previous = Some p \<longrightarrow> p \<le> t)" if "job_item L i previous item = Inr t" for i previous item t
    using that by (auto simp: job_item_def job_stage_def job_time_def rbind_Inr_iff guard_Inr_iff behind_iff not_less)
qed

abbreviation history_of :: "json \<Rightarrow> json list" where
  "history_of status \<equiv> elems (get status ''stage_history'')"

lemma validate_jobD:
  assumes "validate_job_stage_status L status = Inr ()"
  shows "is_dict status" and "\<exists>q. scan_history (job_item L) 0 None (history_of status) = Inr q"
  using assms by (auto simp: validate_job_stage_status_def rbind_Inr_iff guard_Inr_iff Let_def split: if_splits)

lemma get_update_fields: "k \<notin> fst ` set kvs \<Longrightarrow> get (update_fields d kvs) k = get d k"
  unfolding update_fields_def by (induction kvs arbitrary: d) auto

lemma update_fields_append: "update_fields d (xs @ ys) = update_fields (update_fields d xs) ys"
  by (simp add: update_fields_def)

lemma history_stamped [simp]: "history_of (stamped job t status) = history_of status"
  by (simp add: stamped_def get_update_fields)

section \<open>Reading a job\<close>

text \<open>The reader of setup records gives records of that kind.\<close>

definition setup_reads_setup :: "setup_reader \<Rightarrow> bool" where
  "setup_reads_setup reader \<longleftrightarrow> (\<forall>d rq st. reader d = Inr (rq, st) \<longrightarrow> get st ''kind'' = JStr ''setup'')"

lemma job_get_Inr:
  assumes "job_get L reader job_id S = (r, T)"
  shows "T = S" and "r = Inr (name, job) \<Longrightarrow> \<exists>d. S name = Some d \<and> load_from_dir L reader name d = Inr job"
  using assms
  by (auto simp: job_get_def Let_def bind_def gets_def raise_def lift_def ret_def split: if_splits option.splits sum.splits)

lemma load_from_dir_plain:
  assumes "setup_reads_setup reader" and "load_from_dir L reader name d = Inr job" and "get (jb_status job) ''kind'' \<noteq> JStr ''setup''"
  shows "jd_status d = Some (jb_status job)" and "validate_job_stage_status L (jb_status job) = Inr ()"
    and "\<exists>rq. jd_request d = Some rq \<and> \<not> is_setup rq" and "\<not> is_setup (jb_status job)"
  using assms
  by (auto simp: load_from_dir_def setup_reads_setup_def rbind_Inr_iff split: option.splits if_splits)

section \<open>What every operation keeps\<close>

text \<open>A stored job of this component is in order: its status is valid and neither document has a secret-like key.\<close>

definition dir_ok :: "pylib \<Rightarrow> job_dir \<Rightarrow> bool" where
  "dir_ok L d \<longleftrightarrow> (\<forall>rq st. jd_request d = Some rq \<and> jd_status d = Some st \<and> \<not> is_setup rq \<and> \<not> is_setup st \<longrightarrow>
     validate_job_stage_status L st = Inr () \<and> safe_json rq \<and> safe_json st)"

definition jobs_ok :: "pylib \<Rightarrow> jobs \<Rightarrow> bool" where
  "jobs_ok L S \<longleftrightarrow> (\<forall>n d. S n = Some d \<longrightarrow> dir_ok L d)"

text \<open>No job disappears, no request is rewritten, and stage histories only grow.\<close>

definition dir_grows :: "job_dir \<Rightarrow> job_dir \<Rightarrow> bool" where
  "dir_grows d e \<longleftrightarrow> jd_request e = jd_request d \<and> (\<forall>st. jd_status d = Some st \<longrightarrow>
     (\<exists>st'. jd_status e = Some st' \<and> prefix (history_of st) (history_of st')))"

definition jobs_grow :: "jobs \<Rightarrow> jobs \<Rightarrow> bool" where
  "jobs_grow S T \<longleftrightarrow> (\<forall>n d. S n = Some d \<longrightarrow> (\<exists>e. T n = Some e \<and> dir_grows d e))"

definition jobs_step :: "pylib \<Rightarrow> jobs \<Rightarrow> jobs \<Rightarrow> bool" where
  "jobs_step L S T \<longleftrightarrow> (jobs_ok L S \<longrightarrow> jobs_ok L T) \<and> jobs_grow S T"

lemma dir_grows_refl [simp]: "dir_grows d d"
  by (simp add: dir_grows_def)

lemma dir_grows_trans: "dir_grows d e \<Longrightarrow> dir_grows e f \<Longrightarrow> dir_grows d f"
  unfolding dir_grows_def by (fastforce intro: prefix_order.trans)

interpretation js: frame "jobs_step L" for L
proof
  show "jobs_step L S S" for S by (simp add: jobs_step_def jobs_grow_def)
  show "jobs_step L S U" if "jobs_step L S T" "jobs_step L T U" for S T U
    using that unfolding jobs_step_def jobs_grow_def by (meson dir_grows_trans)
qed

lemma job_get_step: "confined (jobs_step L) (job_get L' reader job_id)"
  by (rule confinedI) (drule job_get_Inr(1), simp add: js.frame_refl)

lemma jobs_step_upd:
  assumes "S n = Some d" and "dir_grows d e" and "dir_ok L d \<Longrightarrow> dir_ok L e"
  shows "jobs_step L S (S(n \<mapsto> e))"
  using assms unfolding jobs_step_def jobs_ok_def jobs_grow_def by auto

lemma jobs_step_new: "S n = None \<Longrightarrow> dir_ok L e \<Longrightarrow> jobs_step L S (S(n \<mapsto> e))"
  unfolding jobs_step_def jobs_ok_def jobs_grow_def by auto

lemma write_step:
  assumes "setup_reads_setup reader" and "S name = Some d" and "load_from_dir L reader name d = Inr job"
    and "get (jb_status job) ''kind'' \<noteq> JStr ''setup''" and "prefix (history_of (jb_status job)) (history_of status)"
    and "assert_safe_payload status = Inr ()" and "validate_job_stage_status L status = Inr ()"
    and run: "write_status_file name status S = (r, T)"
  shows "jobs_step L S T"
proof -
  note st = load_from_dir_plain [OF assms(1,3,4)]
  have T: "T = S(name \<mapsto> d\<lparr>jd_status := Some status\<rparr>)" using run assms(2) by (simp add: write_status_file_def modify_def)
  obtain rq where rq: "jd_request d = Some rq" "\<not> is_setup rq" using st(3) by blast
  have "dir_ok L (d\<lparr>jd_status := Some status\<rparr>)" if "dir_ok L d"
    using that rq st(1,4) assms(6,7) unfolding dir_ok_def assert_safe_iff by simp
  then show ?thesis unfolding T using assms(5) st(1)
    by (intro jobs_step_upd [of S name d]) (auto simp: dir_grows_def assms(2))
qed

text \<open>The same from one given state, for code whose writes depend on what was read.\<close>

definition steps_from :: "pylib \<Rightarrow> jobs \<Rightarrow> (jobs, 'a) prog \<Rightarrow> bool" where
  "steps_from L S m \<longleftrightarrow> (\<forall>r T. m S = (r, T) \<longrightarrow> jobs_step L S T)"

lemma steps_ret: "steps_from L S (ret x)" and steps_raise: "steps_from L S (raise e)"
  by (simp_all add: steps_from_def ret_def raise_def js.frame_refl)

lemma steps_lift: "(\<And>x. v = Inr x \<Longrightarrow> steps_from L S (k x)) \<Longrightarrow> steps_from L S (bind (lift v) k)"
  by (cases v) (simp_all add: steps_from_def bind_def lift_def js.frame_refl)

lemma steps_check: "(v = Inr () \<Longrightarrow> steps_from L S m) \<Longrightarrow> steps_from L S (seq (lift v) m)"
  unfolding seq_def by (rule steps_lift) simp

lemma steps_guard: "(b \<Longrightarrow> steps_from L S m) \<Longrightarrow> steps_from L S (seq (lift (guard b e)) m)"
  by (rule steps_check) (simp add: guard_Inr_iff)

lemma steps_get:
  assumes "\<And>name job d. S name = Some d \<Longrightarrow> load_from_dir L' reader name d = Inr job \<Longrightarrow> steps_from L S (k (name, job))"
  shows "steps_from L S (bind (job_get L' reader job_id) k)"
  unfolding steps_from_def
proof (intro allI impI)
  fix r T assume run: "bind (job_get L' reader job_id) k S = (r, T)"
  obtain g S1 where g: "job_get L' reader job_id S = (g, S1)" by (rule prod.exhaust)
  note S1 = job_get_Inr(1) [OF g]
  show "jobs_step L S T"
  proof (cases g)
    case (Inl e)
    with run g S1 show ?thesis by (simp add: bind_def js.frame_refl)
  next
    case (Inr nj)
    obtain name job where nj: "nj = (name, job)" by (rule prod.exhaust)
    with job_get_Inr(2) [OF g] Inr obtain d where "S name = Some d" "load_from_dir L' reader name d = Inr job" by auto
    from assms [OF this] run g S1 Inr nj show ?thesis by (simp add: bind_def steps_from_def)
  qed
qed

lemma steps_write:
  assumes "setup_reads_setup reader" and "S name = Some d" and "load_from_dir L reader name d = Inr job"
    and "get (jb_status job) ''kind'' \<noteq> JStr ''setup''" and "prefix (history_of (jb_status job)) (history_of status)"
  shows "steps_from L S (store_job L reader name status i)"
  unfolding store_job_def
proof (intro steps_check)
  assume ok: "assert_safe_payload status = Inr ()" "validate_job_stage_status L status = Inr ()"
  show "steps_from L S (seq (write_status_file name status) (job_get L reader i))"
    unfolding steps_from_def
  proof (intro allI impI)
    fix r T assume run: "seq (write_status_file name status) (job_get L reader i) S = (r, T)"
    obtain S1 where w: "write_status_file name status S = (Inr (), S1)" by (simp add: write_status_file_def modify_def)
    with run have "job_get L reader i S1 = (r, T)" by (simp add: seq_def bind_def)
    from job_get_Inr(1) [OF this] write_step [OF assms ok w] show "jobs_step L S T" by simp
  qed
qed

lemma job_update_step:
  assumes "setup_reads_setup reader"
  shows "steps_from L S (job_update L reader now job_id own)"
  unfolding job_update_def Let_def
proof (intro steps_guard steps_get, simp only: prod.case, intro steps_guard steps_write [OF assms])
  fix name job d
  assume "\<forall>(k, v) \<in> set own. k \<notin> {''stage'', ''stage_history''}"
  then have "''stage_history'' \<notin> fst ` set (filter (\<lambda>(k, v). k \<notin> {''job_id'', ''machine_uuid'', ''created_at''}) own)" by auto
  then show "prefix (history_of (jb_status job)) (history_of (stamped job (iso_utc L now) (update_fields (jb_status job)
      (filter (\<lambda>(k, v). k \<notin> {''job_id'', ''machine_uuid'', ''created_at''}) own))))" by (simp add: get_update_fields)
qed

lemma advanced_history: "history_of (advanced_job L job updates next_stage t) = history_of (jb_status job) @ [history_item next_stage (iso_utc L t)]"
  by (simp add: advanced_job_def Let_def update_fields_append) (simp add: update_fields_def)

lemma climb_step:
  assumes "setup_reads_setup reader" and "S name = Some d" and "load_from_dir L reader name d = Inr job"
    and "get (jb_status job) ''kind'' \<noteq> JStr ''setup''"
  shows "steps_from L S (climb L reader clock name job next_stage updates)"
  unfolding climb_def
  by (intro steps_guard steps_lift steps_write [where S = S and name = name and L = L, OF assms]) (simp add: advanced_history)

lemma advance_step:
  assumes "setup_reads_setup reader"
  shows "steps_from L S (advance_unlocked L reader clock job_id next_stage updates)"
  unfolding advance_unlocked_def
  by (intro steps_guard steps_get, simp only: prod.case, intro steps_guard) (simp add: steps_ret climb_step [OF assms])

lemma history_item_facts [simp]:
  "is_dict (history_item st t)" "keyset (history_item st t) = {''stage'', ''entered_at''}"
  "get (history_item st t) ''stage'' = JStr st" "get (history_item st t) ''entered_at'' = JStr t"
  by (simp_all add: history_item_def keyset_def get_default_def insert_commute)

text \<open>The first status of a job is in order, when the text of an instant reads back as that instant and has no spaces around it.\<close>

definition iso_exact :: "pylib \<Rightarrow> bool" where
  "iso_exact L \<longleftrightarrow> (\<forall>t. fromiso L (iso_utc L t) = Some (Aware t) \<and> strip (iso_utc L t) = iso_utc L t)"

lemma iso_exactD: "iso_exact L \<Longrightarrow> parse_timestamp L (JStr (iso_utc L t)) = Inr t"
  by (simp add: iso_exact_def parse_timestamp_def)

lemma first_stage: "CANONICAL_STAGES \<noteq> []" "CANONICAL_STAGES ! 0 = ''created''" "''created'' \<in> set CANONICAL_STAGES"
    "strip ''created'' = ''created''" "strip ''queued'' = ''queued''" "check_job_state ''queued'' ''created'' = Inr ()"
  by code_simp+

lemma status_keys_safe:
  "\<not> forbidden_key ''job_id''" "\<not> forbidden_key ''machine_uuid''" "\<not> forbidden_key ''state''" "\<not> forbidden_key ''stage''"
  "\<not> forbidden_key ''stage_history''" "\<not> forbidden_key ''created_at''" "\<not> forbidden_key ''updated_at''" "\<not> forbidden_key ''entered_at''"
  by code_simp+

lemma get_first_status [simp]:
  "get (first_status i m h t) ''state'' = JStr ''queued''" "get (first_status i m h t) ''stage'' = JStr ''created''"
  "get (first_status i m h t) ''stage_history'' = h" "is_dict (first_status i m h t)"
  by (simp_all add: first_status_def get_default_def)

lemma first_status_ok:
  assumes "iso_exact L" and "safe_json request" and "initial_stage_history L (iso_utc L now) = Inr history"
  shows "dir_ok L \<lparr>jd_request = Some (set_field request ''machine_uuid'' (JStr m)), jd_status = Some (first_status i m history (iso_utc L now))\<rparr>"
proof -
  have h: "history = JList [history_item ''created'' (iso_utc L now)]"
    using assms(3) by (simp add: initial_stage_history_def iso_exactD [OF assms(1)])
  have "job_item L 0 None (history_item ''created'' (iso_utc L now)) = Inr now"
    by (simp add: job_item_def first_stage iso_exactD [OF assms(1)] behind_def)
  then have "validate_job_stage_status L (first_status i m history (iso_utc L now)) = Inr ()"
    by (simp add: validate_job_stage_status_def h Let_def first_stage)
  moreover have "safe_json (first_status i m history (iso_utc L now))"
    by (simp add: first_status_def h history_item_def status_keys_safe)
  moreover have "safe_json (set_field request ''machine_uuid'' (JStr m))"
    unfolding set_field_def by (rule safe_put [OF safe_items [OF assms(2)]]) (simp_all add: status_keys_safe)
  ultimately show ?thesis by (simp add: dir_ok_def)
qed

lemma job_create_step:
  assumes "iso_exact L"
  shows "steps_from L S (job_create L reader ids now request)"
  unfolding job_create_def Let_def
proof (intro steps_guard steps_check)
  assume safe: "assert_safe_payload request = Inr ()"
  let ?m = "lower (strip (str_or_empty L (get request ''machine_uuid'')))"
  obtain history where h: "initial_stage_history L (iso_utc L now) = Inr history"
    by (simp add: initial_stage_history_def iso_exactD [OF assms])
  show "steps_from L S (bind (gets (\<lambda>S. find (\<lambda>i. S i = None) (map ids [0..<20]))) (\<lambda>found. case found of
         None \<Rightarrow> raise (ControlError ''job_id_generation_failed'' ''Unable to allocate a unique job ID'' 4)
       | Some job_id \<Rightarrow> seq (modify (\<lambda>S. S(job_id \<mapsto> \<lparr>jd_request = None, jd_status = None\<rparr>)))
           (bind (lift (initial_stage_history L (iso_utc L now))) (\<lambda>history.
           seq (modify (\<lambda>S. S(job_id \<mapsto> \<lparr>jd_request = Some (set_field request ''machine_uuid'' (JStr ?m)),
               jd_status = Some (first_status job_id ?m history (iso_utc L now))\<rparr>)))
             (job_get L reader job_id)))))"
  proof (cases "find (\<lambda>i. S i = None) (map ids [0..<20])")
    case None
    then show ?thesis by (simp add: steps_from_def bind_def gets_def raise_def js.frame_refl)
  next
    case (Some i)
    then have new: "S i = None" using find_SomeD by fastforce
    let ?d = "\<lparr>jd_request = Some (set_field request ''machine_uuid'' (JStr ?m)), jd_status = Some (first_status i ?m history (iso_utc L now))\<rparr>"
    have "jobs_step L S (S(i \<mapsto> ?d))"
      using safe by (intro jobs_step_new new first_status_ok [OF assms _ h]) (simp add: assert_safe_iff)
    then show ?thesis
      by (auto simp: steps_from_def Some h bind_def gets_def seq_def modify_def lift_def dest!: job_get_Inr(1))
  qed
qed

section \<open>Sequences of operations\<close>

datatype job_op =
    Create "nat \<Rightarrow> string" int json
  | Update int string "(string \<times> json) list"
  | Advance string string string "(string \<times> json) list"

fun run_op :: "pylib \<Rightarrow> setup_reader \<Rightarrow> job_op \<Rightarrow> jobs \<Rightarrow> jobs" where
  "run_op L reader (Create ids now request) S = snd (job_create L reader ids now request S)"
| "run_op L reader (Update now job_id own) S = snd (job_update L reader now job_id own S)"
| "run_op L reader (Advance clock job_id next_stage updates) S = snd (advance_unlocked L reader clock job_id next_stage updates S)"

lemma run_op_step: "iso_exact L \<Longrightarrow> setup_reads_setup reader \<Longrightarrow> jobs_step L S (run_op L reader op S)"
proof (cases op)
  case (Create ids now request)
  assume "iso_exact L"
  from job_create_step [OF this, of S reader ids now request] Create show ?thesis
    by (auto simp: steps_from_def) (metis prod.collapse)
next
  case (Update now job_id own)
  assume "setup_reads_setup reader"
  from job_update_step [OF this, of L S now job_id own] Update show ?thesis
    by (auto simp: steps_from_def) (metis prod.collapse)
next
  case (Advance clock job_id next_stage updates)
  assume "setup_reads_setup reader"
  from advance_step [OF this, of L S clock job_id next_stage updates] Advance show ?thesis
    by (auto simp: steps_from_def) (metis prod.collapse)
qed

lemma run_ops_step:
  "iso_exact L \<Longrightarrow> setup_reads_setup reader \<Longrightarrow> jobs_step L S (fold (run_op L reader) ops S)"
proof (induction ops arbitrary: S)
  case (Cons op ops)
  from run_op_step [OF Cons.prems, of S op] Cons.IH [OF Cons.prems, of "run_op L reader op S"] show ?case
    by (auto intro: js.frame_trans)
qed (simp add: js.frame_refl)

text \<open>C38: The job repository stays in order. Start from jobs that are in order and apply any sequence of creations, updates and
  advances, whatever each of them returns: no job disappears, no request is rewritten, and the stage history of a job
  only grows at its end. Every provisioning job has then entered exactly the first stages of the canonical ladder,
  one after the other, at times that never decrease, and no document of a job has a key that looks like a secret,
  at any depth.\<close>

theorem jobs_stay_in_order:
  assumes "iso_exact L" and "setup_reads_setup reader" and "jobs_ok L S" and "T = fold (run_op L reader) ops S"
  shows "jobs_grow S T \<and> (\<forall>n rq st. T n = Some \<lparr>jd_request = Some rq, jd_status = Some st\<rparr> \<and> \<not> is_setup rq \<and> \<not> is_setup st \<longrightarrow>
    map (job_stage L) (history_of st) = take (length (history_of st)) CANONICAL_STAGES
    \<and> (\<exists>ts. map (job_time L) (history_of st) = map Some ts \<and> sorted ts)
    \<and> find_unsafe_key rq [] = None \<and> find_unsafe_key st [] = None)"
proof -
  have step: "jobs_step L S T" using run_ops_step [OF assms(1,2)] assms(4) by simp
  have "map (job_stage L) (history_of st) = take (length (history_of st)) CANONICAL_STAGES
      \<and> (\<exists>ts. map (job_time L) (history_of st) = map Some ts \<and> sorted ts) \<and> safe_json rq \<and> safe_json st"
    if "T n = Some \<lparr>jd_request = Some rq, jd_status = Some st\<rparr>" "\<not> is_setup rq" "\<not> is_setup st" for n rq st
  proof -
    from step assms(3) that(1) have "dir_ok L \<lparr>jd_request = Some rq, jd_status = Some st\<rparr>" by (simp add: jobs_step_def jobs_ok_def)
    with that have v: "validate_job_stage_status L st = Inr ()" and safe: "safe_json rq" "safe_json st" by (simp_all add: dir_ok_def)
    from validate_jobD(2) [OF v] obtain q where "scan_history (job_item L) 0 None (history_of st) = Inr q" by blast
    with job.history_prefix(2,3) safe show ?thesis by blast
  qed
  with step show ?thesis unfolding jobs_step_def find_unsafe_key_None by blast
qed

section \<open>Instances\<close>

definition jdemo_L :: pylib where
  "jdemo_L = demo_lib (\<lambda>n. 0)"

lemma strip_digits: "list_all is_digit ds \<Longrightarrow> strip (CHR ''T'' # ds) = CHR ''T'' # ds" "list_all is_digit ds \<Longrightarrow> strip (CHR ''U'' # ds) = CHR ''U'' # ds"
    "list_all is_digit ds \<Longrightarrow> strip (CHR ''V'' # ds) = CHR ''V'' # ds"
proof -
  have "\<not> is_space c" if "is_digit c" for c using that by (auto simp: is_digit_def is_space_def)
  then have "dropWhile is_space (rev ds @ [c]) = rev ds @ [c]" if "list_all is_digit ds" "\<not> is_space c" for c
    using that by (cases ds rule: rev_cases) auto
  then show "list_all is_digit ds \<Longrightarrow> strip (CHR ''T'' # ds) = CHR ''T'' # ds" "list_all is_digit ds \<Longrightarrow> strip (CHR ''U'' # ds) = CHR ''U'' # ds"
    "list_all is_digit ds \<Longrightarrow> strip (CHR ''V'' # ds) = CHR ''V'' # ds"
    by (simp_all add: strip_def is_space_def)
qed

lemma jdemo_iso: "iso_exact jdemo_L"
  unfolding iso_exact_def jdemo_L_def
  using demo_iso_roundtrip nat_digits_digits by (auto simp: demo_lib_def demo_iso_utc_def strip_digits)

definition jdemo_request :: json where
  "jdemo_request = JObj [(''machine_uuid'', JStr ''0a1b2c3d'')]"

definition jdemo_id :: string where
  "jdemo_id = ''job-20240101T000000Z-0123abcd''"

definition jdemo_run :: jobs where
  "jdemo_run = fold (run_op jdemo_L (\<lambda>d. Inl TypeError)) [Create (\<lambda>n. jdemo_id) 5000000 jdemo_request,
     Advance ''T6'' jdemo_id ''launching'' []] Map.empty"

theorem jobs_stay_in_order_witness:
  "map_option (\<lambda>d. map_option (\<lambda>st. map (job_stage jdemo_L) (history_of st)) (jd_status d)) (jdemo_run jdemo_id)
     = Some (Some [''created'', ''launching'']) \<and> jobs_grow Map.empty jdemo_run"
proof
  show "map_option (\<lambda>d. map_option (\<lambda>st. map (job_stage jdemo_L) (history_of st)) (jd_status d)) (jdemo_run jdemo_id)
     = Some (Some [''created'', ''launching''])" by code_simp
  have "jobs_ok jdemo_L Map.empty" by (simp add: jobs_ok_def)
  moreover have "setup_reads_setup (\<lambda>d. Inl TypeError)" by (simp add: setup_reads_setup_def)
  ultimately show "jobs_grow Map.empty jdemo_run"
    using jobs_stay_in_order [OF jdemo_iso _ _ jdemo_run_def] by blast
qed

end
