(* ===== verification/Spec2Isabelle.thy ===== *)
theory Spec2Isabelle
  imports Broker_Runtime Topology_Correctness Path_Facts Install_Correctness Job_Correctness
begin

text \<open>
  \<^bold>\<open>The program.\<close> The repository runs the network and the workstations of an organisation. Three of its
  Python programs hold state that others depend on, and they are what this development models:

  \<^item> \<open>src/netopsctl\<close>, a broker that is the only process allowed to change routers. Web application and timer
    send it signed requests over a local socket; it plans, approves, applies, verifies, rolls back and
    reconciles entries of one managed address list on a MikroTik router, and it journals every step in a signed
    hash chain whose head it delivers to a remote host before it writes.
  \<^item> \<open>src/netctl\<close>, the collector of facts about the network. The broker reads its database to turn an asset or a
    user into addresses and enforcement points; its path engine answers whether a host reaches a destination; its
    correlation infers how switches are linked, what their ports are for and where an asset is plugged in.
  \<^item> \<open>src/deploy/alt-linux/control/alt_deploy\<close>, the controller of workstation installations: installation sessions
    and provisioning jobs, each with a ladder of stages stored as JSON documents.

  \<^bold>\<open>Theories and sources.\<close>

  \<^item> \<^bold>\<open>Py_Base\<close>, \<^bold>\<open>Py_Values\<close>: Python as the sources use it. \<open>exn\<close> is the exceptions raised, a computation is a
    \<open>prog\<close> (state to error-or-value and state, with \<open>bind\<close>, \<open>catch\<close>, \<open>finalize\<close>), decoded JSON is \<open>json\<close> with
    Python's equality (\<open>py_eq\<close>) and truth (\<open>truthy\<close>). What comes from outside \<open>src/\<close> is the record \<open>pylib\<close>: clocks,
    uuid, SHA-256, Ed25519, address parsing, ISO dates. Theorems that need something of them say so in a premise
    (SHA-256 is injective on the texts compared, a signature made with a key verifies under its public key, a
    printed date reads back); \<open>demo_lib\<close> and its variants satisfy these and run the witnesses.
  \<^item> \<^bold>\<open>Canonical_Json\<close>: the sorted compact dump of documents, injective up to Python equality.
  \<^item> \<^bold>\<open>Plan_Store\<close> (\<open>models.py\<close>, \<open>store.py\<close>, \<open>migrations.py\<close>): the tables as the record \<open>netops\<close>, the life cycle
    \<open>PLAN_TRANSITIONS\<close>, plan digests, policies. \<^bold>\<open>Audit_Chain\<close> (\<open>audit.py\<close>, \<open>checkpoint.py\<close>): the journal.
  \<^item> \<^bold>\<open>Broker_Protocol\<close> (\<open>protocol.py\<close>, \<open>client.py\<close>), \<^bold>\<open>Authorization\<close> (\<open>authorization.py\<close>, \<open>server.py\<close>,
    \<open>reconcile_runner.py\<close>): wire format, signed envelopes, nonces.
  \<^item> \<^bold>\<open>MikroTik_Adapter\<close> (\<open>adapters/mikrotik.py\<close>) over a RouterOS API that is a parameter; \<^bold>\<open>Router_Contract\<close> is
    its interface as a locale, interpreted on the adapter.
  \<^item> \<^bold>\<open>Plan_Executor\<close>, \<^bold>\<open>Executor_Correctness\<close> (\<open>reconcile.py\<close>): device locks, apply, verify, rollback, reconcile.
  \<^item> \<^bold>\<open>Policy_Resolver\<close>, \<^bold>\<open>Resolver_Correctness\<close> (\<open>policy_resolver.py\<close>, \<open>netctl/user_context.py\<close>).
  \<^item> \<^bold>\<open>Control_Service\<close>, \<^bold>\<open>Service_Correctness\<close> (\<open>service.py\<close>, \<open>server.py\<close>): dispatch and the broker loop; here the
    components meet. \<^bold>\<open>Connectivity_Probe\<close>, \<^bold>\<open>Broker_Runtime\<close> (\<open>connectivity_probe.py\<close>, \<open>runtime.py\<close>,
    \<open>credentials.py\<close>): the start of the broker from its environment and files.
  \<^item> \<^bold>\<open>Path_Engine\<close>, \<^bold>\<open>Path_Correctness\<close> (\<open>netctl/path_engine.py\<close>), \<^bold>\<open>Path_Facts\<close> (\<open>path_facts.py\<close>,
    \<open>path_query.py\<close>, \<open>runtime_assets.py\<close>).
  \<^item> \<^bold>\<open>Link_Topology\<close> (\<open>topology_models.py\<close>, first half of \<open>topology_reconcile.py\<close>): evidence, its aggregation into links,
    breadth-first distances. \<^bold>\<open>Attachment\<close>, \<^bold>\<open>Attachment_Correctness\<close> (\<open>attachment_candidates.py\<close>,
    \<open>attachment_reconcile.py\<close>): the collector's tables as the record \<open>corr_db\<close>, and the ports assets are plugged into.
    \<^bold>\<open>Link_Evidence\<close> (\<open>source_identity.py\<close>, \<open>topology_evidence.py\<close>), \<^bold>\<open>Fdb_Correlation\<close>, \<^bold>\<open>Fdb_Correctness\<close>
    (\<open>fdb_correlation.py\<close>), \<^bold>\<open>Port_Roles\<close>, \<^bold>\<open>Role_Correctness\<close> (\<open>port_roles.py\<close>), \<^bold>\<open>Topology_Store\<close>,
    \<^bold>\<open>Topology_Correctness\<close> (rest of \<open>topology_reconcile.py\<close>): from the tables to the stored topology.
    Tables with constraints are a locale, interpreted on the tables of links, roles and findings.
  \<^item> \<^bold>\<open>Stage_Ladder\<close>: the contract both stage machines share, a locale; \<^bold>\<open>Install_Session\<close>,
    \<^bold>\<open>Install_Correctness\<close> (\<open>install_session_state.py\<close>, \<open>install_session_repository.py\<close>) and \<^bold>\<open>Job_Stages\<close>,
    \<^bold>\<open>Job_Correctness\<close> (\<open>job_stages.py\<close>, \<open>jobs.py\<close>) interpret it.

  \<^bold>\<open>State.\<close> A table is the list of its rows in the order of insertion; a \<open>UNIQUE\<close> constraint is a check that
  raises \<open>IntegrityError\<close>. \<open>device\<close> of \<open>netops\<close> is the router, of any type: the adapter is a parameter of the
  executor, and what it promises are the laws of the contract locale. \<open>ticks\<close> counts the readings of the clock and
  the uuids drawn, so that two readings may differ. Transactions are those of the code: a \<open>commit\<close> follows every
  write, and one process holds the connection.

  \<^bold>\<open>What is shown.\<close> Of the broker: nothing is written to a router unless a live, signed, unused and plan-bound
  authorization of an admitted peer asks for it, the journal already records it and the record was delivered;
  whatever happens, plans move only along the life cycle and the journal only grows and stays verifiable; any
  tampering with the journal is found; the effect of applying a plan is its abstract effect on the set of managed
  entries, nothing foreign is touched, locks are released and a busy device is refused; a resolved plan names
  exactly the current IPv4 addresses of its subject, and it is applied only while the facts it rests on are
  unchanged. Of the path engine: a verdict allowed or blocked is sound for the stored facts, the filter refines
  first-match semantics, the route chosen is the longest prefix, and missing facts give unknown. Of the
  correlation: links, parents and attachments rest on rows of the tables and on a unique strongest piece of evidence,
  every port has one role with a reason, depths are distances, and a run stores all it computed or nothing. Of the
  installations: sessions and jobs climb their ladder one stage at a time, never lose history, and accepted
  execution records keep what was approved.

  \<^bold>\<open>Termination and bounds.\<close> Loops over rows and steps are structural recursion; the breadth-first search ends because
  every turn shrinks the unvisited switches or the queue. Floating-point numbers are the rationals they denote, with the
  rounding written out where the code divides. The broker loop never ends, so it
  is the fold over a finite list of connections (any number). No fuel is used. Python integers are \<open>int\<close>; the bounds the
  code enforces (sizes, lengths, ports, limits, time windows) are written as it writes them.

  \<^bold>\<open>Not modelled.\<close> Sockets, SQLite itself and the migrations that only create tables; the RouterOS client; the
  web application; SNMP collection, device fingerprints and availability of \<open>netctl\<close>; the remaining controllers of
  \<open>alt_deploy\<close>, backups, Ansible roles and the test servers. They are effects on hosts, presentation, or stores that the
  modelled parts only read.
\<close>

end
